(* ===== verification/Prelude.thy ===== *)
theory Prelude
  imports Main "HOL-Library.AList" "HOL-Library.Word"
begin

text \<open>
  Shared vocabulary of the development: the named collections the component theories
  extend, the types the whole model uses, and the generic list and association-list facts
  that more than one component needs.

  A Go \<^verbatim>\<open>string\<close> and a Go \<^verbatim>\<open>[]byte\<close> are both \<^typ>\<open>string\<close>: a list of
  bytes (Isabelle's \<^typ>\<open>char\<close> has exactly 256 values). A Go \<^verbatim>\<open>error\<close> is its message,
  because the program itself dispatches on the message text; a call that returns
  \<^verbatim>\<open>(T, error)\<close> is a sum, \<^term>\<open>Inl msg\<close> for a non-nil error. A Go map is an association
  list read with \<^const>\<open>map_of\<close> and written with \<^const>\<open>AList.update\<close> and
  \<^const>\<open>AList.delete\<close>, so that iteration over it is executable.
\<close>

named_theorems go_defs "definitions of the standard-library layer, unfolded to evaluate it"
named_theorems model_defs "definitions of the program's own operations"
named_theorems frame_simps "which fields an operation leaves unchanged"

type_synonym 'a result = "string + 'a"
type_synonym ('k, 'v) gomap = "('k \<times> 'v) list"

abbreviation ord_of :: "char \<Rightarrow> nat" where
  "ord_of c \<equiv> of_char c"

text \<open>\<^verbatim>\<open>len(m)\<close> counts keys; the association lists of the model never repeat one.\<close>

definition gomap_ok :: "('k, 'v) gomap \<Rightarrow> bool" where
  "gomap_ok m \<longleftrightarrow> distinct (map fst m)"

lemma gomap_ok_empty [simp, intro]: "gomap_ok []"
  by (simp add: gomap_ok_def)

lemma gomap_ok_update [simp, intro]: "gomap_ok m \<Longrightarrow> gomap_ok (AList.update k v m)"
  by (simp add: gomap_ok_def distinct_update)

lemma gomap_ok_delete [simp, intro]: "gomap_ok m \<Longrightarrow> gomap_ok (AList.delete k m)"
  by (simp add: gomap_ok_def distinct_delete)

lemma gomap_ok_filter [simp, intro]: "gomap_ok m \<Longrightarrow> gomap_ok (filter P m)"
  by (simp add: gomap_ok_def distinct_map_filter)

lemma map_of_filter_gomap:
  assumes "gomap_ok m"
  shows "map_of (filter (\<lambda>(k, v). P k v) m) k =
    (case map_of m k of None \<Rightarrow> None | Some v \<Rightarrow> if P k v then Some v else None)"
  using assms
proof (induction m)
  case Nil
  then show ?case by simp
next
  case (Cons kv m)
  obtain k' v' where kv: "kv = (k', v')" by (cases kv)
  from Cons.prems kv have fresh: "map_of m k' = None" and ok: "gomap_ok m"
    by (auto simp: gomap_ok_def map_of_eq_None_iff)
  show ?case
    using Cons.IH [OF ok] fresh by (auto simp: kv split: option.splits)
qed

lemma map_of_filter_Some:
  assumes "gomap_ok m" and "map_of (filter (\<lambda>(k, v). P k v) m) k = Some v"
  shows "map_of m k = Some v \<and> P k v"
  using assms by (auto simp: map_of_filter_gomap split: option.splits if_splits)

lemma map_of_delete_neq: "k \<noteq> k' \<Longrightarrow> map_of (AList.delete k m) k' = map_of m k'"
  by (simp add: delete_conv)

lemma map_of_delete_eq [simp]: "map_of (AList.delete k m) k = None"
  by (simp add: delete_conv)

lemma map_of_update_eq [simp]: "map_of (AList.update k v m) k = Some v"
  by (simp add: update_conv)

lemma map_of_update_neq: "k \<noteq> k' \<Longrightarrow> map_of (AList.update k v m) k' = map_of m k'"
  by (simp add: update_conv)

text \<open>Facts on lists of bytes.\<close>

lemma takeWhile_neq_append [simp]:
  "c \<notin> set xs \<Longrightarrow> takeWhile (\<lambda>x. x \<noteq> c) (xs @ c # ys) = xs"
  by (induction xs) auto

lemma takeWhile_neq_all: "c \<notin> set xs \<Longrightarrow> takeWhile (\<lambda>x. x \<noteq> c) xs = xs"
  by (induction xs) auto

lemma dropWhile_neq_append [simp]:
  "c \<notin> set xs \<Longrightarrow> dropWhile (\<lambda>x. x \<noteq> c) (xs @ c # ys) = c # ys"
  by (induction xs) auto

lemma dropWhile_neq_all: "c \<notin> set xs \<Longrightarrow> dropWhile (\<lambda>x. x \<noteq> c) xs = []"
  by (induction xs) auto

lemma ord_of_less_256 [simp]: "ord_of c < 256"
  by (metis of_char_mod_256 mod_less_divisor zero_less_numeral)

lemma sextet_split:
  assumes "(x :: nat) * k + y = x' * k + y'" and "y < k" and "y' < k"
  shows "x = x'" and "y = y'"
proof -
  have "x = (x * k + y) div k" "y = (x * k + y) mod k" using assms(2) by simp_all
  moreover have "x' = (x' * k + y') div k" "y' = (x' * k + y') mod k" using assms(3) by simp_all
  ultimately show "x = x'" "y = y'" using assms(1) by simp_all
qed

end
