(* ===== verification/GoCrypto.thy ===== *)
theory GoCrypto
  imports GoStrings
begin

unbundle bit_operations_syntax

text \<open>
  The part of Go's \<^verbatim>\<open>crypto/sha256\<close>, \<^verbatim>\<open>crypto/subtle\<close> and \<^verbatim>\<open>encoding/base64\<close> that the
  program calls: SHA-256 as FIPS 180-4 defines it, on 32-bit words; the comparison whose
  running time does not depend on where two byte strings differ; and the unpadded URL-safe
  base64 alphabet.
\<close>

subsection \<open>SHA-256\<close>

type_synonym w32 = "32 word"

definition rotr32 :: "nat \<Rightarrow> w32 \<Rightarrow> w32" where
  "rotr32 n x = drop_bit n x OR push_bit (32 - n) x"

definition sha_ch :: "w32 \<Rightarrow> w32 \<Rightarrow> w32 \<Rightarrow> w32" where
  "sha_ch x y z = (x AND y) XOR (NOT x AND z)"

definition sha_maj :: "w32 \<Rightarrow> w32 \<Rightarrow> w32 \<Rightarrow> w32" where
  "sha_maj x y z = (x AND y) XOR (x AND z) XOR (y AND z)"

definition big_sigma0 :: "w32 \<Rightarrow> w32" where
  "big_sigma0 x = rotr32 2 x XOR rotr32 13 x XOR rotr32 22 x"

definition big_sigma1 :: "w32 \<Rightarrow> w32" where
  "big_sigma1 x = rotr32 6 x XOR rotr32 11 x XOR rotr32 25 x"

definition small_sigma0 :: "w32 \<Rightarrow> w32" where
  "small_sigma0 x = rotr32 7 x XOR rotr32 18 x XOR drop_bit 3 x"

definition small_sigma1 :: "w32 \<Rightarrow> w32" where
  "small_sigma1 x = rotr32 17 x XOR rotr32 19 x XOR drop_bit 10 x"

text \<open>
  The constants are computed as the standard describes them: the first 32 fractional bits of
  the cube roots of the first 64 primes, and of the square roots of the first 8.
\<close>

fun root_bits :: "nat \<Rightarrow> int \<Rightarrow> nat \<Rightarrow> int \<Rightarrow> int" where
  "root_bits e n 0 acc = acc"
| "root_bits e n (Suc i) acc =
    root_bits e n i (if (acc + 2 ^ i) ^ e \<le> n then acc + 2 ^ i else acc)"

definition small_primes :: "nat list" where
  "small_primes = filter (\<lambda>n. list_all (\<lambda>d. n mod d \<noteq> 0) [2 ..< n]) [2 ..< 312]"

definition sha_k :: "w32 list" where
  "sha_k = map (\<lambda>p. word_of_int (root_bits 3 (int p * 2 ^ 96) 35 0)) small_primes"

definition sha_init :: "w32 list" where
  "sha_init = map (\<lambda>p. word_of_int (root_bits 2 (int p * 2 ^ 64) 35 0)) [2, 3, 5, 7, 11, 13, 17, 19]"

text \<open>The message schedule, newest word first.\<close>

fun expand_schedule :: "nat \<Rightarrow> w32 list \<Rightarrow> w32 list" where
  "expand_schedule 0 ws = ws"
| "expand_schedule (Suc n) ws =
    expand_schedule n ((small_sigma1 (ws ! 1) + ws ! 6 + small_sigma0 (ws ! 14) + ws ! 15) # ws)"

fun sha_round :: "w32 list \<Rightarrow> w32 \<times> w32 \<Rightarrow> w32 list" where
  "sha_round [a, b, c, d, e, f, g, h] (k, w) =
    (let t1 = h + big_sigma1 e + sha_ch e f g + k + w;
         t2 = big_sigma0 a + sha_maj a b c
     in [t1 + t2, a, b, c, d + t1, e, f, g])"
| "sha_round st _ = st"

definition sha_block :: "w32 list \<Rightarrow> w32 list \<Rightarrow> w32 list" where
  "sha_block hs ws =
    map2 (+) hs (foldl sha_round hs (zip sha_k (rev (expand_schedule 48 (rev ws)))))"

fun sha_blocks :: "nat \<Rightarrow> w32 list \<Rightarrow> w32 list \<Rightarrow> w32 list" where
  "sha_blocks 0 hs ws = hs"
| "sha_blocks (Suc n) hs ws = sha_blocks n (sha_block hs (take 16 ws)) (drop 16 ws)"

definition byte_word :: "char \<Rightarrow> w32" where
  "byte_word c = of_nat (ord_of c)"

fun be_words :: "string \<Rightarrow> w32 list" where
  "be_words (a # b # c # d # cs) =
    (push_bit 24 (byte_word a) OR push_bit 16 (byte_word b) OR push_bit 8 (byte_word c) OR byte_word d)
      # be_words cs"
| "be_words _ = []"

definition be_bytes :: "w32 \<Rightarrow> string" where
  "be_bytes w = map (\<lambda>n. char_of (unat (drop_bit n w AND 0xFF))) [24, 16, 8, 0]"

definition sha_pad :: "string \<Rightarrow> string" where
  "sha_pad s =
    (let n = length s
     in s @ CHR 0x80 # replicate ((119 - n mod 64) mod 64) (CHR 0x00)
          @ map (\<lambda>i. char_of (unat (drop_bit i (of_nat (8 * n) :: 64 word) AND 0xFF)))
              [56, 48, 40, 32, 24, 16, 8, 0])"

definition sha256 :: "string \<Rightarrow> string" where
  "sha256 s =
    (let p = sha_pad s
     in concat (map be_bytes (sha_blocks (length p div 64) sha_init (be_words p))))"

declare rotr32_def [go_defs] sha_ch_def [go_defs] sha_maj_def [go_defs]
  big_sigma0_def [go_defs] big_sigma1_def [go_defs] small_sigma0_def [go_defs]
  small_sigma1_def [go_defs] sha_block_def [go_defs] byte_word_def [go_defs]
  be_bytes_def [go_defs] sha_pad_def [go_defs]

lemma length_expand_schedule [simp]: "length (expand_schedule n ws) = n + length ws"
  by (induction n ws rule: expand_schedule.induct) auto

lemma length_sha_round [simp]: "length (sha_round st kw) = length st"
  by (induction st kw rule: sha_round.induct) (auto simp: Let_def)

lemma length_foldl_sha_round [simp]: "length (foldl sha_round st kws) = length st"
  by (induction kws arbitrary: st) auto

lemma length_sha_block [simp]: "length (sha_block hs ws) = length hs"
  by (simp add: sha_block_def)

lemma length_sha_blocks [simp]: "length (sha_blocks n hs ws) = length hs"
  by (induction n hs ws rule: sha_blocks.induct) auto

lemma length_sha256 [simp]: "length (sha256 s) = 32"
proof -
  have "map length (map be_bytes ws) = replicate (length ws) 4" for ws
    by (induction ws) (auto simp: be_bytes_def)
  then have "length (concat (map be_bytes ws)) = 4 * length ws" for ws
    by (simp add: length_concat sum_list_replicate)
  then show ?thesis by (simp add: sha256_def Let_def sha_init_def)
qed

subsection \<open>Constant-time comparison\<close>

text \<open>
  \<^verbatim>\<open>subtle.ConstantTimeCompare\<close>: 0 for different lengths, else the differences of all bytes
  are collected before one test.
\<close>

definition constant_time_compare :: "string \<Rightarrow> string \<Rightarrow> nat" where
  "constant_time_compare x y =
    (if length x \<noteq> length y then 0
     else if fold (\<lambda>(a, b) v. v OR (of_char a XOR of_char b)) (zip x y) (0 :: nat) = 0
          then 1 else 0)"

lemma fold_xor_eq_0:
  "length x = length y \<Longrightarrow>
    fold (\<lambda>(a, b) v. v OR (of_char a XOR of_char b)) (zip x y) (v :: nat) = 0 \<longleftrightarrow> v = 0 \<and> x = y"
proof (induction x y arbitrary: v rule: list_induct2)
  case Nil
  then show ?case by simp
next
  case (Cons a x b y)
  have "(of_char a XOR of_char b :: nat) = 0 \<longleftrightarrow> a = b"
    by (metis bit.xor_self of_char_eq_iff xor.right_neutral xor_self_eq
        semiring_bit_operations_class.xor.left_commute)
  with Cons.IH show ?case by (auto simp: or_eq_0_iff)
qed

lemma constant_time_compare_eq_1: "constant_time_compare x y = 1 \<longleftrightarrow> x = y"
  by (auto simp: constant_time_compare_def fold_xor_eq_0)

lemma constant_time_compare_simps [simp]:
  "constant_time_compare x y = Suc 0 \<longleftrightarrow> x = y" "constant_time_compare x y \<noteq> Suc 0 \<longleftrightarrow> x \<noteq> y"
  using constant_time_compare_eq_1 by auto

subsection \<open>Unpadded URL-safe base64\<close>

definition b64_digit :: "nat \<Rightarrow> char" where
  "b64_digit n =
    (if n < 26 then char_of (65 + n) else if n < 52 then char_of (71 + n)
     else if n < 62 then char_of (n - 4) else if n = 62 then CHR ''-'' else CHR ''_'')"

fun b64url_encode :: "string \<Rightarrow> string" where
  "b64url_encode (a # b # c # cs) =
    b64_digit (ord_of a div 4)
      # b64_digit (ord_of a mod 4 * 16 + ord_of b div 16)
      # b64_digit (ord_of b mod 16 * 4 + ord_of c div 64)
      # b64_digit (ord_of c mod 64) # b64url_encode cs"
| "b64url_encode [a, b] =
    [b64_digit (ord_of a div 4), b64_digit (ord_of a mod 4 * 16 + ord_of b div 16),
     b64_digit (ord_of b mod 16 * 4)]"
| "b64url_encode [a] = [b64_digit (ord_of a div 4), b64_digit (ord_of a mod 4 * 16)]"
| "b64url_encode [] = []"

lemma length_b64url_encode: "length (b64url_encode s) = (4 * length s + 2) div 3"
  by (induction s rule: b64url_encode.induct) auto

lemma length_b64url_sha256 [simp]: "length (b64url_encode (sha256 s)) = 43"
  by (simp add: length_b64url_encode)

definition b64_alphabet :: "char set" where
  "b64_alphabet = {c. (65 \<le> ord_of c \<and> ord_of c \<le> 90) \<or> (97 \<le> ord_of c \<and> ord_of c \<le> 122)
     \<or> (48 \<le> ord_of c \<and> ord_of c \<le> 57) \<or> c = CHR ''-'' \<or> c = CHR ''_''}"

lemma b64_digit_alphabet: "n < 64 \<Longrightarrow> b64_digit n \<in> b64_alphabet"
  by (auto simp: b64_digit_def b64_alphabet_def)

lemma div_ord_of_less: "ord_of a div 4 < 64" "ord_of a div 16 < 16" "ord_of a div 64 < 4"
  using ord_of_less_256 [of a] by (simp_all add: less_mult_imp_div_less del: ord_of_less_256)

lemma sextet_less:
  "ord_of a mod 4 * 16 + ord_of b div 16 < 64" "ord_of b mod 16 * 4 + ord_of c div 64 < 64"
  "ord_of c mod 64 < 64" "ord_of b mod 16 * 4 < 64" "ord_of a mod 4 * 16 < 64"
proof -
  have "ord_of a mod 4 < 4" "ord_of b mod 16 < 16" by simp_all
  with div_ord_of_less [of b] div_ord_of_less [of c]
  show "ord_of a mod 4 * 16 + ord_of b div 16 < 64" "ord_of b mod 16 * 4 + ord_of c div 64 < 64"
    "ord_of c mod 64 < 64" "ord_of b mod 16 * 4 < 64" "ord_of a mod 4 * 16 < 64"
    by linarith+
qed

lemma b64url_encode_alphabet: "set (b64url_encode s) \<subseteq> b64_alphabet"
  by (induction s rule: b64url_encode.induct)
     (simp_all add: b64_digit_alphabet div_ord_of_less sextet_less)

lemma b64_digit_inj: "m < 64 \<Longrightarrow> n < 64 \<Longrightarrow> b64_digit m = b64_digit n \<Longrightarrow> m = n"
proof -
  assume b: "m < 64" "n < 64" and eq: "b64_digit m = b64_digit n"
  have ord: "ord_of (b64_digit k) =
      (if k < 26 then 65 + k else if k < 52 then 71 + k else if k < 62 then k - 4
       else if k = 62 then 45 else 95)" if "k < 64" for k
    using that by (simp add: b64_digit_def)
  from eq have "ord_of (b64_digit m) = ord_of (b64_digit n)" by simp
  with b show "m = n" by (auto simp: ord split: if_splits)
qed

text \<open>Decoding is unambiguous: the encoding determines the bytes.\<close>

lemma ord_of_eqI: "ord_of a div n = ord_of b div n \<Longrightarrow> ord_of a mod n = ord_of b mod n \<Longrightarrow> a = b"
  by (metis div_mult_mod_eq of_char_eq_iff)

lemma b64_digit_eq [simp]: "m < 64 \<Longrightarrow> n < 64 \<Longrightarrow> b64_digit m = b64_digit n \<longleftrightarrow> m = n"
  by (auto dest: b64_digit_inj)

lemma b64_group3:
  assumes "ord_of a div 4 = ord_of a' div 4"
    and "ord_of a mod 4 * 16 + ord_of b div 16 = ord_of a' mod 4 * 16 + ord_of b' div 16"
    and "ord_of b mod 16 * 4 + ord_of c div 64 = ord_of b' mod 16 * 4 + ord_of c' div 64"
    and "ord_of c mod 64 = ord_of c' mod 64"
  shows "a = a' \<and> b = b' \<and> c = c'"
proof -
  note ab = sextet_split [OF assms(2) div_ord_of_less(2) div_ord_of_less(2)]
  note bc = sextet_split [OF assms(3) div_ord_of_less(3) div_ord_of_less(3)]
  from assms(1) ab(1) have "a = a'" by (rule ord_of_eqI)
  moreover from ab(2) bc(1) have "b = b'" by (rule ord_of_eqI)
  moreover from bc(2) assms(4) have "c = c'" by (rule ord_of_eqI)
  ultimately show ?thesis by simp
qed

lemma b64_group2:
  assumes "ord_of a div 4 = ord_of a' div 4"
    and "ord_of a mod 4 * 16 + ord_of b div 16 = ord_of a' mod 4 * 16 + ord_of b' div 16"
    and "ord_of b mod 16 * 4 = ord_of b' mod 16 * 4"
  shows "a = a' \<and> b = b'"
proof -
  note ab = sextet_split [OF assms(2) div_ord_of_less(2) div_ord_of_less(2)]
  from assms(1) ab(1) have "a = a'" by (rule ord_of_eqI)
  moreover from ab(2) assms(3) have "b = b'" by (auto intro: ord_of_eqI)
  ultimately show ?thesis by simp
qed

lemma b64_group1:
  assumes "ord_of a div 4 = ord_of a' div 4" and "ord_of a mod 4 * 16 = ord_of a' mod 4 * 16"
  shows "a = a'"
  using assms by (auto intro: ord_of_eqI)

lemmas b64_bounds = div_ord_of_less sextet_less

lemma b64url_encode_inj: "b64url_encode s = b64url_encode t \<Longrightarrow> s = t"
proof (induction s arbitrary: t rule: b64url_encode.induct)
  case (1 a b c cs)
  then show ?case
    by (cases t rule: b64url_encode.cases) (auto simp: b64_bounds dest: b64_group3)
next
  case (2 a b)
  then show ?case
    by (cases t rule: b64url_encode.cases) (auto simp: b64_bounds dest: b64_group2)
next
  case (3 a)
  then show ?case
    by (cases t rule: b64url_encode.cases) (auto simp: b64_bounds dest: b64_group1)
next
  case 4
  then show ?case by (cases t rule: b64url_encode.cases) auto
qed

end
