(* ===== verification/GoNet.thy ===== *)
theory GoNet
  imports GoStrings
begin

unbundle bit_operations_syntax

text \<open>
  The part of Go's \<^verbatim>\<open>net\<close> and \<^verbatim>\<open>net/netip\<close> that the program calls: parsing of IPv4 and
  IPv6 addresses, \<^verbatim>\<open>net.ParseIP\<close>, \<^verbatim>\<open>net.ParseCIDR\<close>, \<^verbatim>\<open>IP.Equal\<close>,
  \<^verbatim>\<open>IPNet.Contains\<close> and \<^verbatim>\<open>net.SplitHostPort\<close>. An address is the list of its bytes,
  as \<^verbatim>\<open>net.IP\<close> is: 16 bytes from \<open>parse_ip\<close>, with an IPv4 address mapped into
  \<^verbatim>\<open>::ffff:0:0/96\<close>.
\<close>

type_synonym octet = "8 word"
type_synonym ip = "octet list"

datatype addr = V4 ip | V6 ip

subsection \<open>IPv4 text\<close>

text \<open>
  The loop of \<^verbatim>\<open>parseIPv4Fields\<close>: fields read so far, the value and the digit count of the
  current one, and whether the previous byte was a dot (or the start).
\<close>

fun ipv4_loop :: "string \<Rightarrow> ip \<Rightarrow> nat \<Rightarrow> nat \<Rightarrow> ip option" where
  "ipv4_loop [] fields val dl =
    (if length fields < 3 then None else Some (fields @ [of_nat val]))"
| "ipv4_loop (c # cs) fields val dl =
    (if 48 \<le> ord_of c \<and> ord_of c \<le> 57 then
       (if dl = 1 \<and> val = 0 then None
        else (let v = val * 10 + (ord_of c - 48)
              in if v > 255 then None else ipv4_loop cs fields v (dl + 1)))
     else if c = CHR ''.'' then
       (if dl = 0 \<or> cs = [] then None
        else if length fields = 3 then None
        else ipv4_loop cs (fields @ [of_nat val]) 0 0)
     else None)"

definition parse_ipv4 :: "string \<Rightarrow> ip option" where
  "parse_ipv4 s = ipv4_loop s [] 0 0"

subsection \<open>IPv6 text\<close>

definition hex_val :: "char \<Rightarrow> nat option" where
  "hex_val c =
    (if 48 \<le> ord_of c \<and> ord_of c \<le> 57 then Some (ord_of c - 48)
     else if 97 \<le> ord_of c \<and> ord_of c \<le> 102 then Some (ord_of c - 87)
     else if 65 \<le> ord_of c \<and> ord_of c \<le> 70 then Some (ord_of c - 55)
     else None)"

text \<open>
  The inner loop over one group: the value, the number of digits and the rest; \<^const>\<open>None\<close>
  for a fifth digit.
\<close>

fun hex_group :: "string \<Rightarrow> nat \<Rightarrow> nat \<Rightarrow> (nat \<times> nat \<times> string) option" where
  "hex_group [] acc off = Some (acc, off, [])"
| "hex_group (c # cs) acc off =
    (case hex_val c of
       None \<Rightarrow> Some (acc, off, c # cs)
     | Some d \<Rightarrow> if off > 3 then None else hex_group cs (acc * 16 + d) (off + 1))"

lemma hex_group_length:
  "hex_group s acc off = Some (v, n, rest) \<Longrightarrow> length rest + n = length s + off"
  by (induction s acc off rule: hex_group.induct) (auto split: option.splits if_splits)

text \<open>
  The outer loop of \<^verbatim>\<open>parseIPv6\<close>: bytes read so far and the position of the ellipsis.
  The result is the bytes, the ellipsis and the unread text.
\<close>

function ipv6_loop :: "string \<Rightarrow> ip \<Rightarrow> nat option \<Rightarrow> (ip \<times> nat option \<times> string) option" where
  "ipv6_loop s bs ell =
    (if length bs \<ge> 16 then Some (bs, ell, s)
     else case hex_group s 0 0 of
       None \<Rightarrow> None
     | Some (acc, off, rest) \<Rightarrow>
         if off = 0 then None
         else if take 1 rest = ''.'' then
           (if ell = None \<and> length bs \<noteq> 12 then None
            else if length bs + 4 > 16 then None
            else case parse_ipv4 s of
                   None \<Rightarrow> None
                 | Some f \<Rightarrow> Some (bs @ f, ell, []))
         else (let bs' = bs @ [of_nat (acc div 256), of_nat (acc mod 256)] in
           if rest = [] then Some (bs', ell, [])
           else if hd rest \<noteq> CHR '':'' then None
           else if length rest = 1 then None
           else (let s' = tl rest in
             if hd s' = CHR '':'' then
               (if ell \<noteq> None then None
                else if tl s' = [] then Some (bs', Some (length bs'), [])
                else ipv6_loop (tl s') bs' (Some (length bs')))
             else ipv6_loop s' bs' ell)))"
  by pat_completeness auto
termination
  by (relation "measure (\<lambda>(s, bs, ell). 16 - length bs)") auto

declare ipv6_loop.simps [simp del]

definition ipv6_expand :: "ip \<times> nat option \<times> string \<Rightarrow> ip option" where
  "ipv6_expand r =
    (case r of (bs, ell, rest) \<Rightarrow>
      if rest \<noteq> [] then None
      else if length bs < 16 then
        (case ell of
           None \<Rightarrow> None
         | Some e \<Rightarrow> Some (take e bs @ replicate (16 - length bs) 0 @ drop e bs))
      else (if ell = None then Some bs else None))"

definition parse_ipv6 :: "string \<Rightarrow> ip option" where
  "parse_ipv6 s =
    (if has_prefix s ''::'' then
       (if drop 2 s = [] then Some (replicate 16 0)
        else Option.bind (ipv6_loop (drop 2 s) [] (Some 0)) ipv6_expand)
     else Option.bind (ipv6_loop s [] None) ipv6_expand)"

text \<open>
  \<^verbatim>\<open>netip.ParseAddr\<close>: the first of dot, colon or percent sign decides; the zone of an IPv6
  address is what follows the first percent sign and must not be empty.
\<close>

definition parse_addr :: "string \<Rightarrow> (addr \<times> string) option" where
  "parse_addr s =
    (case find (\<lambda>c. c \<in> set ''.:%'') s of
       None \<Rightarrow> None
     | Some c \<Rightarrow>
         if c = CHR ''.'' then map_option (\<lambda>a. (V4 a, [])) (parse_ipv4 s)
         else if c = CHR ''%'' then None
         else (let (body, zone) = cut_at CHR ''%'' s
               in if CHR ''%'' \<in> set s \<and> zone = [] then None
                  else map_option (\<lambda>a. (V6 a, zone)) (parse_ipv6 body)))"

declare parse_ipv4_def [go_defs] hex_val_def [go_defs] ipv6_expand_def [go_defs]
  parse_ipv6_def [go_defs] parse_addr_def [go_defs] ipv6_loop.simps [go_defs]

subsection \<open>net.IP, net.ParseIP and IP.Equal\<close>

definition v4_prefix :: ip where
  "v4_prefix = replicate 10 0 @ [255, 255]"

definition addr_as16 :: "addr \<Rightarrow> ip" where
  "addr_as16 a = (case a of V4 b \<Rightarrow> v4_prefix @ b | V6 b \<Rightarrow> b)"

definition addr_bits :: "addr \<Rightarrow> nat" where
  "addr_bits a = (case a of V4 _ \<Rightarrow> 32 | V6 _ \<Rightarrow> 128)"

definition parse_ip :: "string \<Rightarrow> ip option" where
  "parse_ip s =
    (case parse_addr s of
       None \<Rightarrow> None
     | Some (a, zone) \<Rightarrow> if zone \<noteq> [] then None else Some (addr_as16 a))"

definition ip_to4 :: "ip \<Rightarrow> ip option" where
  "ip_to4 b =
    (if length b = 4 then Some b
     else if length b = 16 \<and> take 12 b = v4_prefix then Some (drop 12 b)
     else None)"

definition ip_equal :: "ip \<Rightarrow> ip \<Rightarrow> bool" where
  "ip_equal a b =
    (if length a = length b then a = b
     else if length a = 4 \<and> length b = 16 then take 12 b = v4_prefix \<and> a = drop 12 b
     else if length a = 16 \<and> length b = 4 then take 12 a = v4_prefix \<and> drop 12 a = b
     else False)"

subsection \<open>Subnets\<close>

record ipnet =
  net_ip :: ip
  net_mask :: ip

text \<open>\<^verbatim>\<open>net.CIDRMask(ones, bits)\<close>.\<close>

definition cidr_mask :: "nat \<Rightarrow> nat \<Rightarrow> ip" where
  "cidr_mask ones bits =
    map (\<lambda>i. if 8 * (i + 1) \<le> ones then 255
             else if ones \<le> 8 * i then 0
             else NOT (mask (8 * (i + 1) - ones)))
      [0 ..< bits div 8]"

definition ip_mask :: "ip \<Rightarrow> ip \<Rightarrow> ip option" where
  "ip_mask b m =
    (let m1 = (if length m = 16 \<and> length b = 4 \<and> list_all (\<lambda>x. x = 255) (take 12 m)
               then drop 12 m else m);
         b1 = (if length m1 = 4 \<and> length b = 16 \<and> take 12 b = v4_prefix then drop 12 b else b)
     in if length b1 \<noteq> length m1 then None else Some (map2 (AND) b1 m1))"

text \<open>The decimal prefix length: at most 0xFFFFFE, digits only.\<close>

definition dtoi :: "string \<Rightarrow> nat option" where
  "dtoi s =
    (if s = [] then None
     else case digits_val s 0 of None \<Rightarrow> None | Some n \<Rightarrow> if n < 0xFFFFFF then Some n else None)"

definition parse_cidr :: "string \<Rightarrow> ipnet option" where
  "parse_cidr s =
    (if CHR ''/'' \<notin> set s then None
     else (let (a, m) = cut_at CHR ''/'' s in
       case parse_addr a of
         None \<Rightarrow> None
       | Some (ad, zone) \<Rightarrow>
           if zone \<noteq> [] then None
           else case dtoi m of
             None \<Rightarrow> None
           | Some n \<Rightarrow>
               if n > addr_bits ad then None
               else (let mk = cidr_mask n (addr_bits ad) in
                 case ip_mask (addr_as16 ad) mk of
                   None \<Rightarrow> Some \<lparr>net_ip = [], net_mask = mk\<rparr>
                 | Some b \<Rightarrow> Some \<lparr>net_ip = b, net_mask = mk\<rparr>)))"

definition network_and_mask :: "ipnet \<Rightarrow> (ip \<times> ip) option" where
  "network_and_mask n =
    (let b = (case ip_to4 (net_ip n) of Some x \<Rightarrow> x | None \<Rightarrow> net_ip n) in
     if length b \<noteq> 4 \<and> length b \<noteq> 16 then None
     else if length (net_mask n) = 4 then (if length b = 4 then Some (b, net_mask n) else None)
     else if length (net_mask n) = 16 then
       Some (b, if length b = 4 then drop 12 (net_mask n) else net_mask n)
     else None)"

definition ipnet_contains :: "ipnet \<Rightarrow> ip \<Rightarrow> bool" where
  "ipnet_contains n b =
    (case network_and_mask n of
       None \<Rightarrow> b = []
     | Some (nn, m) \<Rightarrow>
         (let x = (case ip_to4 b of Some y \<Rightarrow> y | None \<Rightarrow> b)
          in length x = length nn \<and> map2 (AND) nn m = map2 (AND) x m))"

declare v4_prefix_def [go_defs] addr_as16_def [go_defs] addr_bits_def [go_defs]
  parse_ip_def [go_defs] ip_to4_def [go_defs] ip_equal_def [go_defs] cidr_mask_def [go_defs]
  ip_mask_def [go_defs] dtoi_def [go_defs] parse_cidr_def [go_defs]
  network_and_mask_def [go_defs] ipnet_contains_def [go_defs]

subsection \<open>net.SplitHostPort\<close>

text \<open>Only the host is used by the program; \<^const>\<open>None\<close> is an error.\<close>

definition split_host_port :: "string \<Rightarrow> (string \<times> string) option" where
  "split_host_port hp =
    (if CHR '':'' \<notin> set hp then None
     else (let (host, port) = rcut_at CHR '':'' hp in
       if take 1 hp = ''['' then
         (if CHR '']'' \<notin> set hp then None
          else (let (h, after) = cut_at CHR '']'' (tl hp) in
            if after \<noteq> CHR '':'' # port then None
            else if CHR ''['' \<in> set (tl hp) then None
            else if CHR '']'' \<in> set after then None
            else Some (h, port)))
       else if CHR '':'' \<in> set host then None
       else if CHR ''['' \<in> set hp \<or> CHR '']'' \<in> set hp then None
       else Some (host, port)))"

declare split_host_port_def [go_defs]

subsection \<open>Shapes of parsed addresses\<close>

lemma ipv4_loop_length:
  "ipv4_loop s fs val dl = Some b \<Longrightarrow> length fs \<le> 3 \<Longrightarrow> length b = 4"
  by (induction s fs val dl rule: ipv4_loop.induct) (auto split: if_splits simp: Let_def)

lemma parse_ipv4_length: "parse_ipv4 s = Some b \<Longrightarrow> length b = 4"
  by (auto simp: parse_ipv4_def dest: ipv4_loop_length)

definition ipv6_inv :: "ip \<Rightarrow> nat option \<Rightarrow> bool" where
  "ipv6_inv bs ell \<longleftrightarrow> length bs \<le> 16 \<and> (case ell of None \<Rightarrow> True | Some k \<Rightarrow> k \<le> length bs)"

lemma ipv6_loop_inv:
  "ipv6_loop s bs ell = Some (b, e, rest) \<Longrightarrow> even (length bs) \<Longrightarrow> ipv6_inv bs ell \<Longrightarrow>
    ipv6_inv b e"
proof (induction s bs ell rule: ipv6_loop.induct)
  case (1 s bs ell)
  show ?case
  proof (cases "length bs \<ge> 16")
    case True
    with "1.prems" show ?thesis by (simp add: ipv6_loop.simps [of s])
  next
    case False
    with \<open>even (length bs)\<close> have short: "length bs \<le> 14" by presburger
    from "1.prems"(1) False obtain acc off rest' where hg: "hex_group s 0 0 = Some (acc, off, rest')"
      by (auto simp: ipv6_loop.simps [of s] split: option.splits)
    define bs' where "bs' = bs @ [of_nat (acc div 256), of_nat (acc mod 256) :: octet]"
    have inv': "ipv6_inv bs' ell" "ipv6_inv bs' (Some (length bs'))" "even (length bs')"
      using "1.prems"(2,3) short by (auto simp: ipv6_inv_def bs'_def split: option.splits)
    note IH = "1.IH" [OF False hg refl refl _ _ bs'_def]
    show ?thesis
      using "1.prems" False hg short inv' IH
      by (auto simp: ipv6_loop.simps [of s] Let_def bs'_def [symmetric] ipv6_inv_def
          dest: parse_ipv4_length split: if_splits option.splits)
  qed
qed

lemma ipv6_expand_length: "ipv6_inv bs e \<Longrightarrow> ipv6_expand (bs, e, rest) = Some b \<Longrightarrow> length b = 16"
  by (auto simp: ipv6_expand_def ipv6_inv_def split: if_splits option.splits)

lemma parse_ipv6_length: "parse_ipv6 s = Some b \<Longrightarrow> length b = 16"
proof -
  have "ipv6_expand r = Some b \<Longrightarrow> ipv6_loop t [] e = Some r \<Longrightarrow> e = None \<or> e = Some 0 \<Longrightarrow> length b = 16"
    for r t e
    by (cases r) (auto intro: ipv6_expand_length dest!: ipv6_loop_inv simp: ipv6_inv_def)
  then show "parse_ipv6 s = Some b \<Longrightarrow> length b = 16"
    by (auto simp: parse_ipv6_def bind_eq_Some_conv split: if_splits)
qed

lemma parse_addr_length:
  "parse_addr s = Some (V4 b, z) \<Longrightarrow> length b = 4"
  "parse_addr s = Some (V6 b, z) \<Longrightarrow> length b = 16"
  by (auto simp: parse_addr_def split: option.splits if_splits prod.splits
      dest: parse_ipv4_length parse_ipv6_length)

lemma addr_as16_length: "parse_addr s = Some (a, z) \<Longrightarrow> length (addr_as16 a) = 16"
  by (cases a) (simp_all add: addr_as16_def v4_prefix_def parse_addr_length)

lemma parse_ip_length: "parse_ip s = Some b \<Longrightarrow> length b = 16"
  by (auto simp: parse_ip_def addr_as16_length split: option.splits if_splits)

lemma ip_equal_parsed:
  "parse_ip s = Some a \<Longrightarrow> parse_ip t = Some b \<Longrightarrow> ip_equal a b \<longleftrightarrow> a = b"
  by (simp add: ip_equal_def parse_ip_length)

subsection \<open>A subnet is a common prefix of bits\<close>

text \<open>The number a list of octets spells, most significant first.\<close>

fun be_nat :: "ip \<Rightarrow> nat" where
  "be_nat [] = 0"
| "be_nat (x # xs) = unat x * 2 ^ (8 * length xs) + be_nat xs"

lemma be_nat_less: "be_nat xs < 2 ^ (8 * length xs)"
proof (induction xs)
  case Nil
  show ?case by simp
next
  case (Cons x xs)
  have "unat x < 2 ^ 8" by (rule order_less_le_trans [OF unsigned_less]) simp
  then have "(unat x + 1) * 2 ^ (8 * length xs) \<le> 2 ^ 8 * 2 ^ (8 * length xs)"
    by (intro mult_right_mono) simp_all
  moreover have "2 ^ (8 * length (x # xs)) = 2 ^ 8 * (2 ^ (8 * length xs) :: nat)"
    by (simp add: power_add)
  ultimately show ?case using Cons.IH unfolding be_nat.simps add_mult_distrib by linarith
qed

definition byte_mask :: "nat \<Rightarrow> octet" where
  "byte_mask n = (if n \<ge> 8 then 255 else if n = 0 then 0 else NOT (mask (8 - n)))"

lemma cidr_mask_Suc:
  "cidr_mask n (8 * Suc k) = byte_mask n # cidr_mask (n - 8) (8 * k)"
proof -
  have "[0 ..< Suc k] = 0 # map Suc [0 ..< k]" by (simp add: map_Suc_upt upt_conv_Cons del: upt_Suc)
  then show ?thesis
    by (auto simp: cidr_mask_def byte_mask_def diff_diff_eq simp del: upt_Suc
        intro!: arg_cong [where f = "\<lambda>k. NOT (mask k)"])
qed

lemma cidr_mask_0: "cidr_mask n 0 = []"
  by (simp add: cidr_mask_def)

lemma and_not_mask_eq_iff:
  "x AND NOT (mask k) = y AND NOT (mask k) \<longleftrightarrow> drop_bit k x = drop_bit k (y :: octet)"
proof
  assume "x AND NOT (mask k) = y AND NOT (mask k)"
  then have "drop_bit k (x AND NOT (mask k)) = drop_bit k (y AND NOT (mask k))" by simp
  moreover have "drop_bit k (z AND NOT (mask k)) = drop_bit k z" for z :: octet
    by (rule bit_eqI) (auto simp: bit_simps dest: bit_imp_le_length)
  ultimately show "drop_bit k x = drop_bit k y" by simp
next
  assume eq: "drop_bit k x = drop_bit k y"
  have "z AND NOT (mask k) = push_bit k (drop_bit k z)" for z :: octet
    by (rule bit_eqI) (auto simp: bit_simps)
  with eq show "x AND NOT (mask k) = y AND NOT (mask k)" by simp
qed

lemma byte_mask_eq:
  assumes "n \<le> 8"
  shows "x AND byte_mask n = y AND byte_mask n \<longleftrightarrow> unat x div 2 ^ (8 - n) = unat y div 2 ^ (8 - n)"
proof (cases "n = 8")
  case True
  have "(255 :: octet) = - 1" by simp
  then have "z AND 255 = z" for z :: octet by (metis and.right_neutral)
  with True show ?thesis by (simp add: byte_mask_def word_unat_eq_iff)
next
  case False
  have "mask 8 = (- 1 :: octet)" by (simp add: mask_eq_exp_minus_1)
  then have m: "byte_mask n = NOT (mask (8 - n))"
    using assms False by (auto simp: byte_mask_def)
  have "drop_bit k x = drop_bit k y \<longleftrightarrow> unat x div 2 ^ k = unat y div 2 ^ k" for k
    by (metis drop_bit_eq_div unat_drop_bit_eq unsigned_word_eqI word_unat_eq_iff)
  then show ?thesis by (simp add: m and_not_mask_eq_iff)
qed

text \<open>Masking with a prefix length compares the leading bits of the spelled numbers.\<close>

lemma mask_eq_iff_prefix:
  assumes "length xs = k" and "length ys = k" and "n \<le> 8 * k"
  shows "map2 (AND) xs (cidr_mask n (8 * k)) = map2 (AND) ys (cidr_mask n (8 * k)) \<longleftrightarrow>
    be_nat xs div 2 ^ (8 * k - n) = be_nat ys div 2 ^ (8 * k - n)"
  using assms
proof (induction k arbitrary: xs ys n)
  case 0
  then show ?case by (simp add: cidr_mask_0)
next
  case (Suc k)
  obtain x xs' y ys' where xy: "xs = x # xs'" "ys = y # ys'" and len: "length xs' = k" "length ys' = k"
    using Suc.prems by (auto simp: length_Suc_conv)
  let ?M = "2 ^ (8 * k) :: nat"
  have less: "be_nat xs' < ?M" "be_nat ys' < ?M"
    using be_nat_less [of xs'] be_nat_less [of ys'] len by simp_all
  show ?case
  proof (cases "n \<ge> 8")
    case True
    define j where "j = n - 8"
    with True Suc.prems have n: "n = j + 8" and j: "j \<le> 8 * k" by auto
    define d where "d = 8 * k - j"
    have M: "?M = 2 ^ j * 2 ^ d" using j by (simp add: d_def flip: power_add)
    have exp: "8 * Suc k - n = d" using n by (simp add: d_def)
    have q: "(unat z * ?M + r) div 2 ^ d = unat z * 2 ^ j + r div 2 ^ d" for z :: octet and r
      unfolding M by (metis div_mult_self3 mult.assoc power_not_zero zero_neq_numeral)
    have b: "be_nat xs' div 2 ^ d < 2 ^ j" "be_nat ys' div 2 ^ d < 2 ^ j"
      using less unfolding M by (simp_all add: less_mult_imp_div_less)
    have split: "unat x * 2 ^ j + be_nat xs' div 2 ^ d = unat y * 2 ^ j + be_nat ys' div 2 ^ d \<longleftrightarrow>
        x = y \<and> be_nat xs' div 2 ^ d = be_nat ys' div 2 ^ d"
      using b by (auto simp: word_unat_eq_iff dest: sextet_split)
    have "byte_mask n = 255" using True by (simp add: byte_mask_def)
    moreover have "z AND 255 = z" for z :: octet
    proof -
      have "(255 :: octet) = - 1" by simp
      then show ?thesis by (metis and.right_neutral)
    qed
    ultimately show ?thesis
      using Suc.IH [OF len j] len
      unfolding xy cidr_mask_Suc exp n by (simp add: q split d_def [symmetric])
  next
    case False
    then have n: "n - 8 = 0" "n \<le> 8" by auto
    have exp: "(2 :: nat) ^ (8 * Suc k - n) = ?M * 2 ^ (8 - n)"
      using False by (simp flip: power_add)
    have q: "(unat z * ?M + r) div 2 ^ (8 * Suc k - n) = unat z div 2 ^ (8 - n)"
      if "r < ?M" for z :: octet and r
      unfolding exp div_mult2_eq using that by simp
    show ?thesis
      using Suc.IH [OF len, of 0] len less byte_mask_eq [OF n(2), of x y]
      unfolding xy cidr_mask_Suc n(1) be_nat.simps len q [OF less(1)] q [OF less(2)] by simp
  qed
qed

end
