(* ===== verification/GoURL.thy ===== *)
theory GoURL
  imports GoNet "HOL-Library.Char_ord" "HOL-Library.List_Lexorder"
begin

text \<open>
  The part of Go's \<^verbatim>\<open>net/url\<close> that the program calls: \<^verbatim>\<open>url.Parse\<close>,
  \<^verbatim>\<open>URL.Hostname\<close>, \<^verbatim>\<open>url.ParseQuery\<close>, \<^verbatim>\<open>Values.Get\<close> and \<^verbatim>\<open>Values.Encode\<close>, and the
  rewriting of non-ASCII bytes that \<^verbatim>\<open>http.Redirect\<close> does. The parser is that of the Go
  version \<^verbatim>\<open>go.mod\<close> names (1.25.11): brackets only around an IPv6 literal at the start of
  the host, at most 10000 query parameters.
\<close>

subsection \<open>Escaping\<close>

datatype esc_mode = EncodeHost | EncodeZone | EncodePath | EncodeUserPassword
  | EncodeQueryComponent | EncodeFragment

definition is_letter :: "char \<Rightarrow> bool" where
  "is_letter c \<longleftrightarrow> 97 \<le> ord_of c \<and> ord_of c \<le> 122 \<or> 65 \<le> ord_of c \<and> ord_of c \<le> 90"

definition is_digit :: "char \<Rightarrow> bool" where
  "is_digit c \<longleftrightarrow> 48 \<le> ord_of c \<and> ord_of c \<le> 57"

definition should_escape :: "char \<Rightarrow> esc_mode \<Rightarrow> bool" where
  "should_escape c m =
    (if is_letter c \<or> is_digit c then False
     else if (m = EncodeHost \<or> m = EncodeZone) \<and> c \<in> set (''!$&()*+,;=:[]<>'' @ [CHR 0x27, CHR 0x22])
     then False
     else if c \<in> set ''-_.~'' then False
     else if c \<in> set ''$&+,/:;=?@'' \<and> m \<noteq> EncodeHost \<and> m \<noteq> EncodeZone then
       (case m of
          EncodePath \<Rightarrow> c = CHR ''?''
        | EncodeUserPassword \<Rightarrow> c \<in> set ''@/?:''
        | EncodeQueryComponent \<Rightarrow> True
        | _ \<Rightarrow> False)
     else if m = EncodeFragment \<and> c \<in> set ''!()*'' then False
     else True)"

fun unescape :: "esc_mode \<Rightarrow> string \<Rightarrow> string option" where
  "unescape m [] = Some []"
| "unescape m (c # cs) =
    (if c = CHR ''%'' then
       (if length cs < 2 then None
        else case (hex_val (cs ! 0), hex_val (cs ! 1)) of
          (Some a, Some b) \<Rightarrow>
            (let v = char_of (16 * a + b); is25 = (take 2 cs = ''25'')
             in if m = EncodeHost \<and> a < 8 \<and> \<not> is25 then None
                else if m = EncodeZone \<and> \<not> is25 \<and> v \<noteq> CHR '' '' \<and> should_escape v EncodeHost then None
                else map_option ((#) v) (unescape m (drop 2 cs)))
        | _ \<Rightarrow> None)
     else if c = CHR ''+'' then
       map_option ((#) (if m = EncodeQueryComponent then CHR '' '' else c)) (unescape m cs)
     else if (m = EncodeHost \<or> m = EncodeZone) \<and> ord_of c < 128 \<and> should_escape c m then None
     else map_option ((#) c) (unescape m cs))"

definition upper_hex :: "nat \<Rightarrow> char" where
  "upper_hex n = (if n < 10 then char_of (48 + n) else char_of (55 + n))"

definition query_escape_byte :: "char \<Rightarrow> string" where
  "query_escape_byte c =
    (if c = CHR '' '' then ''+''
     else if should_escape c EncodeQueryComponent
     then [CHR ''%'', upper_hex (ord_of c div 16), upper_hex (ord_of c mod 16)]
     else [c])"

definition query_escape :: "string \<Rightarrow> string" where
  "query_escape s = concat (map query_escape_byte s)"

declare is_letter_def [go_defs] is_digit_def [go_defs] should_escape_def [go_defs]
  upper_hex_def [go_defs] query_escape_byte_def [go_defs] query_escape_def [go_defs]

subsection \<open>url.Parse\<close>

record url =
  url_scheme :: string
  url_opaque :: string
  url_host :: string
  url_path :: string
  url_raw_query :: string
  url_fragment :: string

definition empty_url :: url where
  "empty_url = \<lparr>url_scheme = [], url_opaque = [], url_host = [], url_path = [],
     url_raw_query = [], url_fragment = []\<rparr>"

fun get_scheme_loop :: "string \<Rightarrow> string \<Rightarrow> string \<Rightarrow> (string \<times> string) option" where
  "get_scheme_loop whole acc [] = Some ([], whole)"
| "get_scheme_loop whole acc (c # cs) =
    (if is_letter c then get_scheme_loop whole (acc @ [c]) cs
     else if is_digit c \<or> c \<in> set ''+-.'' then
       (if acc = [] then Some ([], whole) else get_scheme_loop whole (acc @ [c]) cs)
     else if c = CHR '':'' then (if acc = [] then None else Some (acc, cs))
     else Some ([], whole))"

definition get_scheme :: "string \<Rightarrow> (string \<times> string) option" where
  "get_scheme s = get_scheme_loop s [] s"

definition valid_optional_port :: "string \<Rightarrow> bool" where
  "valid_optional_port p \<longleftrightarrow> p = [] \<or> hd p = CHR '':'' \<and> list_all is_digit (tl p)"

definition valid_userinfo :: "string \<Rightarrow> bool" where
  "valid_userinfo s \<longleftrightarrow>
    list_all (\<lambda>c. is_letter c \<or> is_digit c \<or> c \<in> set (''-._:~!$&()*+,;=%@'' @ [CHR 0x27])) s"

text \<open>The escaped text of an IPv6 literal, with its zone after the first \<^verbatim>\<open>%25\<close>.\<close>

fun cut_zone :: "string \<Rightarrow> string \<times> string" where
  "cut_zone [] = ([], [])"
| "cut_zone (c # cs) =
    (if has_prefix (c # cs) ''%25'' then ([], c # cs)
     else (let (h, z) = cut_zone cs in (c # h, z)))"

definition parse_bracket_host :: "string \<Rightarrow> string option" where
  "parse_bracket_host h =
    (if CHR '']'' \<notin> set h then None
     else (let (inner, port) = rcut_at CHR '']'' h; literal = tl inner; (hp, zp) = cut_zone literal in
       if \<not> valid_optional_port port then None
       else case (unescape EncodeHost port, unescape EncodeHost hp, unescape EncodeZone zp) of
         (Some p, Some a, Some z) \<Rightarrow>
           (case parse_addr (a @ z) of
              Some (V6 _, _) \<Rightarrow> Some (CHR ''['' # (a @ z) @ CHR '']'' # p)
            | _ \<Rightarrow> None)
       | _ \<Rightarrow> None))"

definition parse_host :: "string \<Rightarrow> string option" where
  "parse_host h =
    (if CHR ''['' \<in> set h then
       (if hd h = CHR ''['' \<and> CHR ''['' \<notin> set (tl h) then parse_bracket_host h else None)
     else if CHR '':'' \<in> set h \<and> \<not> valid_optional_port (CHR '':'' # snd (rcut_at CHR '':'' h)) then None
     else unescape EncodeHost h)"

definition valid_user :: "string \<Rightarrow> bool" where
  "valid_user u \<longleftrightarrow>
    valid_userinfo u \<and>
    (let (name, pw) = cut_at CHR '':'' u
     in unescape EncodeUserPassword name \<noteq> None \<and> unescape EncodeUserPassword pw \<noteq> None)"

text \<open>The host of an authority: what follows the last at sign.\<close>

definition parse_authority :: "string \<Rightarrow> string option" where
  "parse_authority a =
    (if CHR ''@'' \<notin> set a then parse_host a
     else (let (user, host) = rcut_at CHR ''@'' a in
       case parse_host host of
         None \<Rightarrow> None
       | Some h \<Rightarrow> if valid_user user then Some h else None))"

definition has_ctl_byte :: "string \<Rightarrow> bool" where
  "has_ctl_byte s \<longleftrightarrow> list_ex (\<lambda>c. ord_of c < 32 \<or> ord_of c = 127) s"

definition cut_query :: "string \<Rightarrow> string \<times> string" where
  "cut_query rest =
    (if has_suffix rest ''?'' \<and> length (filter (\<lambda>c. c = CHR ''?'') rest) = 1
     then (butlast rest, []) else cut_at CHR ''?'' rest)"

text \<open>The authority and path of a hierarchical URL; \<open>u\<close> holds scheme and query.\<close>

definition parse_hier :: "url \<Rightarrow> string \<Rightarrow> url option" where
  "parse_hier u rest =
    (let (authority, path) =
       (if (url_scheme u \<noteq> [] \<or> \<not> has_prefix rest ''///'') \<and> has_prefix rest ''//''
        then (let r = drop 2 rest in (Some (takeWhile (\<lambda>c. c \<noteq> CHR ''/'') r), dropWhile (\<lambda>c. c \<noteq> CHR ''/'') r))
        else (None, rest))
     in case (case authority of None \<Rightarrow> Some [] | Some a \<Rightarrow> parse_authority a) of
          None \<Rightarrow> None
        | Some h \<Rightarrow>
            (case unescape EncodePath path of
               None \<Rightarrow> None
             | Some p \<Rightarrow> Some (u\<lparr>url_host := h, url_path := p\<rparr>)))"

definition parse_no_frag :: "string \<Rightarrow> url option" where
  "parse_no_frag raw =
    (if has_ctl_byte raw then None
     else if raw = ''*'' then Some (empty_url\<lparr>url_path := ''*''\<rparr>)
     else case get_scheme raw of
       None \<Rightarrow> None
     | Some (sch, rest0) \<Rightarrow>
         (let (rest, q) = cut_query rest0;
              u = empty_url\<lparr>url_scheme := to_lower sch, url_raw_query := q\<rparr>
          in if \<not> has_prefix rest ''/'' then
               (if url_scheme u \<noteq> [] then Some (u\<lparr>url_opaque := rest\<rparr>)
                else if CHR '':'' \<in> set (fst (cut_at CHR ''/'' rest)) then None
                else parse_hier u rest)
             else parse_hier u rest))"

definition url_parse :: "string \<Rightarrow> url option" where
  "url_parse raw =
    (let (u, frag) = cut_at CHR ''#'' raw in
     case parse_no_frag u of
       None \<Rightarrow> None
     | Some r \<Rightarrow> map_option (\<lambda>f. r\<lparr>url_fragment := f\<rparr>) (unescape EncodeFragment frag))"

definition hostname :: "url \<Rightarrow> string" where
  "hostname u =
    (let hp = url_host u;
         h = (if CHR '':'' \<in> set hp \<and> valid_optional_port (CHR '':'' # snd (rcut_at CHR '':'' hp))
              then fst (rcut_at CHR '':'' hp) else hp)
     in if has_prefix h ''['' \<and> has_suffix h '']'' then butlast (tl h) else h)"

declare empty_url_def [go_defs] get_scheme_def [go_defs] valid_optional_port_def [go_defs]
  valid_userinfo_def [go_defs] parse_bracket_host_def [go_defs] parse_host_def [go_defs]
  valid_user_def [go_defs] parse_authority_def [go_defs] has_ctl_byte_def [go_defs]
  cut_query_def [go_defs] parse_hier_def [go_defs] parse_no_frag_def [go_defs]
  url_parse_def [go_defs] hostname_def [go_defs]

subsection \<open>Query strings\<close>

type_synonym url_values = "(string \<times> string) list"

text \<open>One \<^verbatim>\<open>key=value\<close> part: skipped without an error, skipped with one, or a pair.\<close>

datatype query_part = PartEmpty | PartBad | PartPair string string

definition parse_part :: "string \<Rightarrow> query_part" where
  "parse_part p =
    (if CHR '';'' \<in> set p then PartBad
     else if p = [] then PartEmpty
     else (let (k, v) = cut_at CHR ''='' p in
       case (unescape EncodeQueryComponent k, unescape EncodeQueryComponent v) of
         (Some k', Some v') \<Rightarrow> PartPair k' v'
       | _ \<Rightarrow> PartBad))"

fun collect_parts :: "query_part list \<Rightarrow> url_values" where
  "collect_parts [] = []"
| "collect_parts (PartPair k v # ps) = (k, v) # collect_parts ps"
| "collect_parts (_ # ps) = collect_parts ps"

definition max_query_params :: nat where
  "max_query_params = 10000"

text \<open>\<^verbatim>\<open>url.ParseQuery\<close>: the pairs in order of appearance and whether an error was met.\<close>

definition parse_query :: "string \<Rightarrow> url_values \<times> bool" where
  "parse_query q =
    (let parts = map parse_part (split_on CHR ''&'' q)
     in if length parts > max_query_params then ([], True)
        else (collect_parts parts, PartBad \<in> set parts))"

definition values_get :: "url_values \<Rightarrow> string \<Rightarrow> string" where
  "values_get vs k = (case map_of vs k of None \<Rightarrow> [] | Some v \<Rightarrow> v)"

definition encode_pair :: "string \<times> string \<Rightarrow> string" where
  "encode_pair kv = query_escape (fst kv) @ ''='' @ query_escape (snd kv)"

text \<open>\<^verbatim>\<open>Values.Encode\<close>: keys in byte order, values of a key in the order they were added.\<close>

definition values_encode :: "url_values \<Rightarrow> string" where
  "values_encode vs = join_with ''&'' (map encode_pair (sort_key fst vs))"

text \<open>\<^verbatim>\<open>hexEscapeNonASCII\<close> of \<^verbatim>\<open>net/http\<close>, applied to the \<^verbatim>\<open>Location\<close> of a redirect.\<close>

definition hex_escape_non_ascii :: "string \<Rightarrow> string" where
  "hex_escape_non_ascii s =
    concat (map (\<lambda>c. if ord_of c \<ge> 128
                      then CHR ''%'' # [hex_digit (ord_of c div 16), hex_digit (ord_of c mod 16)]
                      else [c]) s)"

declare parse_part_def [go_defs] parse_query_def [go_defs] values_get_def [go_defs]
  encode_pair_def [go_defs] values_encode_def [go_defs] hex_escape_non_ascii_def [go_defs]
  max_query_params_def [go_defs]

subsection \<open>What escaping produces\<close>

definition query_safe :: "char set" where
  "query_safe = {c. is_letter c \<or> is_digit c \<or> c \<in> set ''-_.~%+''}"

lemma upper_hex_safe: "n < 16 \<Longrightarrow> upper_hex n \<in> query_safe"
  by (auto simp: upper_hex_def query_safe_def is_letter_def is_digit_def)

lemma unescaped_query_safe: "\<not> should_escape c EncodeQueryComponent \<Longrightarrow> c \<in> query_safe"
  by (auto simp: should_escape_def query_safe_def split: if_splits)

lemma special_query_safe: "CHR ''%'' \<in> query_safe" "CHR ''+'' \<in> query_safe"
  by (simp_all add: query_safe_def)

lemma query_escape_byte_safe: "set (query_escape_byte c) \<subseteq> query_safe"
  by (simp add: query_escape_byte_def upper_hex_safe special_query_safe unescaped_query_safe)

lemma query_escape_safe: "set (query_escape s) \<subseteq> query_safe"
  using query_escape_byte_safe by (auto simp: query_escape_def)

lemma query_safe_excludes:
  "CHR ''&'' \<notin> query_safe" "CHR '';'' \<notin> query_safe" "CHR ''='' \<notin> query_safe"
  "CHR ''#'' \<notin> query_safe" "CHR ''?'' \<notin> query_safe" "CHR ''/'' \<notin> query_safe"
  by (simp_all add: query_safe_def is_letter_def is_digit_def)

lemma query_escape_excludes:
  "CHR ''&'' \<notin> set (query_escape s)" "CHR '';'' \<notin> set (query_escape s)"
  "CHR ''='' \<notin> set (query_escape s)" "CHR ''#'' \<notin> set (query_escape s)"
  "CHR ''?'' \<notin> set (query_escape s)"
  using query_escape_safe [of s] query_safe_excludes by blast+

lemma query_safe_printable: "c \<in> query_safe \<Longrightarrow> 32 \<le> ord_of c \<and> ord_of c < 127"
  by (auto simp: query_safe_def is_letter_def is_digit_def)

lemma hex_val_upper_hex: "n < 16 \<Longrightarrow> hex_val (upper_hex n) = Some n"
  by (auto simp: upper_hex_def hex_val_def)

lemma unescape_query_escape_byte:
  "unescape EncodeQueryComponent (query_escape_byte c @ t) =
    map_option ((#) c) (unescape EncodeQueryComponent t)"
proof -
  have "16 * (ord_of c div 16) + ord_of c mod 16 = ord_of c" by (rule mult_div_mod_eq)
  then have "char_of (16 * (ord_of c div 16) + ord_of c mod 16) = c"
    by (simp only: char_of_char)
  moreover have "\<not> should_escape c EncodeQueryComponent \<Longrightarrow> c \<noteq> CHR ''%'' \<and> c \<noteq> CHR ''+''"
    by (auto simp: should_escape_def is_letter_def is_digit_def)
  ultimately show ?thesis
    by (auto simp: query_escape_byte_def hex_val_upper_hex div_ord_less_16 Let_def)
qed

lemma unescape_query_escape: "unescape EncodeQueryComponent (query_escape s) = Some s"
proof (induction s)
  case Nil
  show ?case by (simp add: query_escape_def)
next
  case (Cons c s)
  have "query_escape (c # s) = query_escape_byte c @ query_escape s"
    by (simp add: query_escape_def)
  with Cons.IH show ?case by (simp add: unescape_query_escape_byte)
qed

lemma parse_part_encode_pair: "parse_part (encode_pair (k, v)) = PartPair k v"
  using query_escape_excludes
  by (simp add: parse_part_def encode_pair_def unescape_query_escape)

lemma collect_parts_pairs: "collect_parts (map (\<lambda>kv. PartPair (fst kv) (snd kv)) vs) = vs"
  by (induction vs) auto

lemma parse_query_encode_pairs:
  assumes "vs \<noteq> []" and "length vs \<le> max_query_params"
  shows "parse_query (join_with ''&'' (map encode_pair vs)) = (vs, False)"
proof -
  have "CHR ''&'' \<notin> set (encode_pair kv)" for kv
    using query_escape_excludes by (simp add: encode_pair_def)
  then have "split_on CHR ''&'' (join_with ''&'' (map encode_pair vs)) = map encode_pair vs"
    using assms(1) by (intro split_join) auto
  moreover have parts: "map parse_part (map encode_pair vs) = map (\<lambda>kv. PartPair (fst kv) (snd kv)) vs"
    by (auto simp: parse_part_encode_pair split_paired_all)
  ultimately show ?thesis
    using assms(2) by (auto simp: parse_query_def Let_def collect_parts_pairs simp del: map_map)
qed

lemma parse_query_values_encode:
  assumes "vs \<noteq> []" and "length vs \<le> max_query_params"
  shows "parse_query (values_encode vs) = (sort_key fst vs, False)"
proof -
  have "sort_key fst vs \<noteq> []" using assms(1) by (metis set_empty set_sort)
  with assms(2) show ?thesis by (simp add: values_encode_def parse_query_encode_pairs)
qed

subsection \<open>What a successful parse says about the text\<close>

lemma unescape_plain:
  "list_all (\<lambda>c. c \<noteq> CHR ''%'' \<and> (c = CHR ''+'' \<longrightarrow> m \<noteq> EncodeQueryComponent) \<and>
      (m = EncodeHost \<or> m = EncodeZone \<longrightarrow> \<not> should_escape c m)) s \<Longrightarrow> unescape m s = Some s"
  by (induction s) auto

definition scheme_char :: "char \<Rightarrow> bool" where
  "scheme_char c \<longleftrightarrow> is_letter c \<or> is_digit c \<or> c \<in> set ''+-.''"

lemma get_scheme_loop_Some:
  "get_scheme_loop w acc s = Some (sch, rest) \<Longrightarrow> sch \<noteq> [] \<Longrightarrow>
    \<exists>x. sch = acc @ x \<and> s = x @ CHR '':'' # rest \<and> list_all scheme_char x"
proof (induction w acc s rule: get_scheme_loop.induct)
  case (1 w acc)
  then show ?case by simp
next
  case (2 w acc c cs)
  show ?case
  proof (cases "is_letter c \<or> is_digit c \<or> c \<in> set ''+-.''")
    case True
    with "2.prems" have rec: "get_scheme_loop w (acc @ [c]) cs = Some (sch, rest)"
      by (auto split: if_splits)
    have "\<exists>x. sch = (acc @ [c]) @ x \<and> cs = x @ CHR '':'' # rest \<and> list_all scheme_char x"
      using "2.IH" "2.prems" rec True by (auto split: if_splits)
    then obtain x where "sch = (acc @ [c]) @ x" "cs = x @ CHR '':'' # rest" "list_all scheme_char x"
      by blast
    then show ?thesis
      using True by (intro exI [of _ "c # x"]) (simp add: scheme_char_def [of c])
  next
    case False
    with "2.prems" show ?thesis by (auto split: if_splits)
  qed
qed

lemma get_scheme_loop_append:
  "get_scheme_loop w acc s = Some (sch, rest) \<Longrightarrow> sch \<noteq> [] \<Longrightarrow>
    get_scheme_loop w' acc (s @ t) = Some (sch, rest @ t)"
  by (induction w acc s rule: get_scheme_loop.induct) (auto split: if_splits)

lemma cut_at_parts:
  "cut_at c s = (a, b) \<Longrightarrow> c \<notin> set a \<and> (s = a \<and> b = [] \<or> s = a @ c # b)"
proof -
  assume *: "cut_at c s = (a, b)"
  have "c \<notin> set (takeWhile (\<lambda>x. x \<noteq> c) s)" by (auto dest: set_takeWhileD)
  moreover have "s = takeWhile (\<lambda>x. x \<noteq> c) s @ dropWhile (\<lambda>x. x \<noteq> c) s" by simp
  moreover have "dropWhile (\<lambda>x. x \<noteq> c) s = [] \<or> hd (dropWhile (\<lambda>x. x \<noteq> c) s) = c"
    using hd_dropWhile [of "\<lambda>x. x \<noteq> c" s] by auto
  ultimately show ?thesis
    using * unfolding cut_at_def
    by (metis append_Nil2 list.collapse list.sel(2) prod.inject)
qed

lemma rcut_at_parts:
  assumes "c \<in> set s" and "rcut_at c s = (a, b)"
  shows "s = a @ c # b \<and> c \<notin> set b"
proof -
  obtain x y where s: "s = x @ c # y" "c \<notin> set y"
    using split_list_last [OF assms(1)] by blast
  with assms(2) show ?thesis by simp
qed

lemma cut_query_parts:
  assumes "cut_query s = (rest, q)"
  shows "CHR ''?'' \<notin> set rest \<and> (\<exists>t. s = rest @ t \<and> (t = [] \<or> hd t = CHR ''?''))"
proof (cases "has_suffix s ''?'' \<and> length (filter (\<lambda>c. c = CHR ''?'') s) = 1")
  case True
  then obtain x where x: "s = x @ ''?''" by (auto simp: has_suffix_iff)
  with True have "filter (\<lambda>c. c = CHR ''?'') x = []" by simp
  then have "CHR ''?'' \<notin> set x" by (auto simp: filter_empty_conv)
  with True assms x show ?thesis by (auto simp: cut_query_def)
next
  case False
  with assms have "cut_at CHR ''?'' s = (rest, q)" by (auto simp: cut_query_def split: if_splits)
  then show ?thesis by (fastforce dest: cut_at_parts)
qed

lemma cut_query_none: "CHR ''?'' \<notin> set rest \<Longrightarrow> cut_query rest = (rest, [])"
  by (auto simp: cut_query_def cut_at_none has_suffix_iff)

text \<open>The authority part of an absolute URL that names a host.\<close>

definition at_authority :: "string \<Rightarrow> string \<Rightarrow> string \<Rightarrow> string \<Rightarrow> bool" where
  "at_authority uri sch auth tail \<longleftrightarrow>
    uri = sch @ ''://'' @ auth @ tail \<and> list_all scheme_char sch \<and>
    set auth \<inter> set ''/?#'' = {} \<and> (tail = [] \<or> hd tail \<in> set ''/?#'')"

lemma parse_hier_authority:
  assumes "parse_hier u rest = Some r" and "url_host u = []" and "url_host r \<noteq> []"
  shows "\<exists>auth path. rest = ''//'' @ auth @ path \<and> CHR ''/'' \<notin> set auth \<and>
    (path = [] \<or> hd path = CHR ''/'') \<and> parse_authority auth = Some (url_host r)"
proof -
  have pre: "has_prefix rest ''//''"
    using assms by (auto simp: parse_hier_def Let_def split: if_splits option.splits)
  then obtain x where x: "rest = ''//'' @ x" by (auto simp: has_prefix_iff)
  define auth where "auth = takeWhile (\<lambda>c. c \<noteq> CHR ''/'') x"
  define path where "path = dropWhile (\<lambda>c. c \<noteq> CHR ''/'') x"
  have "rest = ''//'' @ auth @ path" by (simp add: x auth_def path_def)
  moreover have "CHR ''/'' \<notin> set auth" by (auto simp: auth_def dest: set_takeWhileD)
  moreover have "path = [] \<or> hd path = CHR ''/''"
    using hd_dropWhile [of "\<lambda>c. c \<noteq> CHR ''/''" x] by (auto simp: path_def)
  moreover have "parse_authority auth = Some (url_host r)"
    using assms pre
    by (auto simp: parse_hier_def Let_def x auth_def split: if_splits option.splits)
  ultimately show ?thesis by blast
qed

lemma parse_no_frag_authority:
  assumes "parse_no_frag raw = Some r" and "url_scheme r \<noteq> []" and "url_host r \<noteq> []"
    and "CHR ''#'' \<notin> set raw"
  shows "\<exists>sch auth tail. at_authority raw sch auth tail \<and> CHR ''#'' \<notin> set raw \<and>
    url_scheme r = to_lower sch \<and> parse_authority auth = Some (url_host r)"
proof -
  from assms(1,2) obtain sch rest0 where gs: "get_scheme raw = Some (sch, rest0)"
    by (auto simp: parse_no_frag_def empty_url_def split: if_splits option.splits)
  obtain rest q where cq: "cut_query rest0 = (rest, q)" by fastforce
  define u where "u = empty_url\<lparr>url_scheme := to_lower sch, url_raw_query := q\<rparr>"
  have hier: "parse_hier u rest = Some r"
    using assms gs cq
    by (auto simp: parse_no_frag_def Let_def u_def empty_url_def split: if_splits)
  then have "url_scheme r = to_lower sch"
    by (auto simp: parse_hier_def Let_def u_def split: option.splits if_splits)
  with assms(2) have "sch \<noteq> []" by auto
  with gs have raw: "raw = sch @ CHR '':'' # rest0" and scc: "list_all scheme_char sch"
    by (auto simp: get_scheme_def dest!: get_scheme_loop_Some)
  obtain auth path where rest: "rest = ''//'' @ auth @ path" and noslash: "CHR ''/'' \<notin> set auth"
    and path: "path = [] \<or> hd path = CHR ''/''" and auth: "parse_authority auth = Some (url_host r)"
    using parse_hier_authority [OF hier] assms(3) by (auto simp: u_def empty_url_def)
  obtain t where t: "rest0 = rest @ t" "t = [] \<or> hd t = CHR ''?''" and noq: "CHR ''?'' \<notin> set rest"
    using cut_query_parts [OF cq] by blast
  have "at_authority raw sch auth (path @ t)"
    using raw rest t scc noslash path noq assms(4)
    by (auto simp: at_authority_def hd_append)
  with assms(4) \<open>url_scheme r = to_lower sch\<close> auth show ?thesis by blast
qed

lemma url_parse_authority:
  assumes "url_parse uri = Some r" and "url_scheme r \<noteq> []" and "url_host r \<noteq> []"
  shows "\<exists>sch auth tail. at_authority uri sch auth tail \<and>
    url_scheme r = to_lower sch \<and> parse_authority auth = Some (url_host r)"
proof -
  obtain u frag where cut: "cut_at CHR ''#'' uri = (u, frag)" by fastforce
  with assms obtain r0 where r0: "parse_no_frag u = Some r0" "url_scheme r0 = url_scheme r"
    "url_host r0 = url_host r"
    by (auto simp: url_parse_def split: option.splits)
  from cut have u: "CHR ''#'' \<notin> set u" and uri: "uri = u \<or> uri = u @ CHR ''#'' # frag"
    by (auto dest: cut_at_parts)
  obtain sch auth tail where "at_authority u sch auth tail" "url_scheme r0 = to_lower sch"
    "parse_authority auth = Some (url_host r0)"
    using parse_no_frag_authority [OF r0(1) _ _ u] assms r0 by auto
  moreover from this(1) uri have "\<exists>tail'. at_authority uri sch auth tail'"
    by (auto simp: at_authority_def hd_append)
  ultimately show ?thesis using r0 by metis
qed

lemma parse_authority_host:
  assumes "parse_authority auth = Some h"
  shows "\<exists>hp. (auth = hp \<or> (\<exists>user. auth = user @ CHR ''@'' # hp)) \<and> CHR ''@'' \<notin> set hp \<and> parse_host hp = Some h"
proof (cases "CHR ''@'' \<in> set auth")
  case True
  obtain user hp where rc: "rcut_at CHR ''@'' auth = (user, hp)" by fastforce
  from rcut_at_parts [OF True rc] assms True rc show ?thesis
    by (auto simp: parse_authority_def split: option.splits if_splits)
next
  case False
  with assms show ?thesis by (auto simp: parse_authority_def)
qed

subsection \<open>Parsing absolute URLs with a plain host\<close>

definition plain_host_char :: "char \<Rightarrow> bool" where
  "plain_host_char c \<longleftrightarrow> is_letter c \<or> is_digit c \<or> c = CHR ''-'' \<or> c = CHR ''.''"

definition plain_path_char :: "char \<Rightarrow> bool" where
  "plain_path_char c \<longleftrightarrow> 32 \<le> ord_of c \<and> ord_of c \<noteq> 127 \<and> c \<notin> set ''%?#''"

lemma plain_host_char_facts:
  assumes "plain_host_char c"
  shows "c \<notin> set ''/?#@:[]%+''" "\<not> should_escape c EncodeHost" "32 \<le> ord_of c" "ord_of c < 127"
  using assms by (auto simp: plain_host_char_def is_letter_def is_digit_def should_escape_def)

lemma parse_authority_plain:
  assumes "list_all plain_host_char h"
  shows "parse_authority h = Some h"
proof -
  have no: "CHR ''@'' \<notin> set h" "CHR ''['' \<notin> set h" "CHR '':'' \<notin> set h"
    using assms plain_host_char_facts(1) by (fastforce simp: list_all_iff)+
  have "unescape EncodeHost h = Some h"
    using assms plain_host_char_facts
    by (intro unescape_plain) (fastforce simp: list_all_iff)
  with no show ?thesis by (simp add: parse_authority_def parse_host_def)
qed

lemma hostname_plain: "list_all plain_host_char (url_host u) \<Longrightarrow> hostname u = url_host u"
proof -
  assume h: "list_all plain_host_char (url_host u)"
  then have "CHR '':'' \<notin> set (url_host u)" and "CHR ''['' \<notin> set (url_host u)"
    using plain_host_char_facts(1) by (fastforce simp: list_all_iff)+
  then show ?thesis by (auto simp: hostname_def Let_def has_prefix_iff)
qed

lemma url_parse_plain:
  assumes "list_all plain_host_char h" and "list_all plain_path_char p" and "p = [] \<or> hd p = CHR ''/''"
  shows "url_parse (''https://'' @ h @ p) =
    Some (empty_url\<lparr>url_scheme := ''https'', url_host := h, url_path := p\<rparr>)"
proof -
  let ?rest = "''//'' @ h @ p"
  have chars: "CHR ''#'' \<notin> set ?rest" "CHR ''?'' \<notin> set ?rest"
    using assms(1,2) plain_host_char_facts(1)
    by (fastforce simp: list_all_iff plain_path_char_def)+
  have slash: "CHR ''/'' \<notin> set h"
    using assms(1) plain_host_char_facts(1) by (fastforce simp: list_all_iff)
  have split: "takeWhile (\<lambda>c. c \<noteq> CHR ''/'') (h @ p) = h" "dropWhile (\<lambda>c. c \<noteq> CHR ''/'') (h @ p) = p"
    using slash assms(3) by (cases p; auto simp: takeWhile_neq_all dropWhile_neq_all)+
  have ctl: "\<not> has_ctl_byte (''https:'' @ ?rest)"
    using assms(1,2) plain_host_char_facts(3,4)
    by (fastforce simp: has_ctl_byte_def list_ex_iff list_all_iff plain_path_char_def)
  have gs: "get_scheme (''https:'' @ ?rest) = Some (''https'', ?rest)"
    by (simp add: get_scheme_def is_letter_def is_digit_def)
  have cq: "cut_query ?rest = (?rest, [])"
    using chars by (intro cut_query_none)
  have "unescape EncodePath p = Some p"
    using assms(2) by (intro unescape_plain) (auto simp: list_all_iff plain_path_char_def)
  then have "parse_hier u ?rest = Some (u\<lparr>url_host := h, url_path := p\<rparr>)" if "url_scheme u \<noteq> []" for u
    using that split parse_authority_plain [OF assms(1)]
    by (simp add: parse_hier_def Let_def has_prefix_def)
  then have "parse_no_frag (''https:'' @ ?rest) =
      Some (empty_url\<lparr>url_scheme := ''https'', url_host := h, url_path := p\<rparr>)"
    using ctl gs cq
    by (simp add: parse_no_frag_def Let_def has_prefix_def empty_url_def lower_byte_def)
  then show ?thesis
    using chars by (simp add: url_parse_def cut_at_none empty_url_def)
qed

text \<open>Adding a query to a URL that has neither query nor fragment.\<close>

lemma has_ctl_byte_append [simp]: "has_ctl_byte (s @ t) \<longleftrightarrow> has_ctl_byte s \<or> has_ctl_byte t"
  by (simp add: has_ctl_byte_def)

lemma parse_hier_query:
  "parse_hier (u\<lparr>url_raw_query := q\<rparr>) rest = map_option (\<lambda>r. r\<lparr>url_raw_query := q\<rparr>) (parse_hier u rest)"
  by (auto simp: parse_hier_def Let_def split: option.splits if_splits)

lemma parse_no_frag_fragment: "parse_no_frag raw = Some u \<Longrightarrow> url_fragment u = []"
  by (auto simp: parse_no_frag_def Let_def empty_url_def parse_hier_def
      split: if_splits option.splits prod.splits)

lemma parse_no_frag_scheme:
  "parse_no_frag raw = Some u \<Longrightarrow> url_scheme u \<noteq> [] \<Longrightarrow>
    \<exists>s rest. get_scheme raw = Some (s, rest) \<and> to_lower s = url_scheme u"
  by (auto simp: parse_no_frag_def Let_def empty_url_def parse_hier_def
      split: if_splits option.splits prod.splits)

lemma url_parse_no_frag: "CHR ''#'' \<notin> set uri \<Longrightarrow> url_parse uri = parse_no_frag uri"
  by (auto simp: url_parse_def cut_at_none dest: parse_no_frag_fragment split: option.splits)

lemma url_parse_add_query:
  assumes u: "url_parse uri = Some u" and sch: "url_scheme u \<noteq> []"
    and uri: "CHR ''?'' \<notin> set uri" "CHR ''#'' \<notin> set uri"
    and q: "q \<noteq> []" "last q \<noteq> CHR ''?''" "CHR ''#'' \<notin> set q" "\<not> has_ctl_byte q"
  shows "url_parse (uri @ ''?'' @ q) = Some (u\<lparr>url_raw_query := q\<rparr>)"
proof -
  from u uri(2) have u': "parse_no_frag uri = Some u" by (simp add: url_parse_no_frag)
  from u' sch obtain s rest where gs: "get_scheme uri = Some (s, rest)" and "to_lower s \<noteq> []"
    by (metis parse_no_frag_scheme)
  then have s: "s \<noteq> []" by auto
  from gs s have gs': "get_scheme (uri @ ''?'' @ q) = Some (s, rest @ ''?'' @ q)"
    by (auto simp: get_scheme_def intro: get_scheme_loop_append)
  from gs s have "uri = s @ CHR '':'' # rest" by (auto simp: get_scheme_def dest!: get_scheme_loop_Some)
  with uri(1) have noq: "CHR ''?'' \<notin> set rest" by auto
  have cq: "cut_query rest = (rest, [])"
    using noq by (rule cut_query_none)
  have "\<not> has_suffix (rest @ ''?'' @ q) ''?''"
  proof
    assume "has_suffix (rest @ ''?'' @ q) ''?''"
    then obtain t where "rest @ ''?'' @ q = t @ ''?''" by (auto simp only: has_suffix_iff)
    then have "last (rest @ ''?'' @ q) = last (t @ ''?'')" by (rule arg_cong)
    then have "last (rest @ ''?'' @ q) = CHR ''?''" by simp
    with q(1,2) show False by simp
  qed
  then have cq': "cut_query (rest @ ''?'' @ q) = (rest, q)"
    using noq by (simp add: cut_query_def)
  have star: "uri @ ''?'' @ q \<noteq> ''*''" "uri \<noteq> ''*''"
    using gs s q(1) by (auto simp: append_eq_Cons_conv get_scheme_def is_letter_def is_digit_def)
  have noctl: "\<not> has_ctl_byte uri" using u' by (auto simp: parse_no_frag_def split: if_splits)
  have "parse_no_frag (uri @ ''?'' @ q) = Some (u\<lparr>url_raw_query := q\<rparr>)"
    using u' gs gs' cq cq' star q(4) noctl
      parse_hier_query [where u = "empty_url\<lparr>url_scheme := to_lower s\<rparr>" and q = q and rest = rest]
    by (auto simp: parse_no_frag_def Let_def empty_url_def has_ctl_byte_def split: if_splits)
  moreover have "CHR ''#'' \<notin> set (uri @ ''?'' @ q)"
    using uri(2) q(3) by auto
  ultimately show ?thesis by (simp add: url_parse_no_frag)
qed

end
