(* ===== verification/GoJSON.thy ===== *)
theory GoJSON
  imports GoURL Complex_Main
begin

text \<open>
  The part of Go's \<^verbatim>\<open>encoding/json\<close> and \<^verbatim>\<open>unicode/utf8\<close> that the program calls: the
  scanner as the byte-by-byte state machine it is (structural recursion on the input, an
  explicit stack of open containers, nesting at most 10000), string unquoting with
  surrogates and replacement of invalid UTF-8, float64 rounding and shortest formatting, and
  the encoder with HTML escaping and sorted object keys.

  Object fields keep their order and their duplicates, because Go's decoder reads them in
  order and the program's meaning depends on it. Numbers keep their text.
\<close>

datatype json = JNull | JBool bool | JNum string | JStr string | JArr "json list"
  | JObj "(string \<times> json) list"

subsection \<open>UTF-8\<close>

definition utf8_encode :: "nat \<Rightarrow> string" where
  "utf8_encode r =
    (let r = (if r > 0x10FFFF \<or> 0xD800 \<le> r \<and> r < 0xE000 then 0xFFFD else r) in
     if r < 0x80 then [char_of r]
     else if r < 0x800 then [char_of (0xC0 + r div 64), char_of (0x80 + r mod 64)]
     else if r < 0x10000 then
       [char_of (0xE0 + r div 4096), char_of (0x80 + r div 64 mod 64), char_of (0x80 + r mod 64)]
     else
       [char_of (0xF0 + r div 262144), char_of (0x80 + r div 4096 mod 64),
        char_of (0x80 + r div 64 mod 64), char_of (0x80 + r mod 64)])"

definition cont_byte :: "string \<Rightarrow> nat \<Rightarrow> nat \<Rightarrow> nat \<Rightarrow> bool" where
  "cont_byte s i lo hi \<longleftrightarrow> i < length s \<and> lo \<le> ord_of (s ! i) \<and> ord_of (s ! i) \<le> hi"

text \<open>First rune and its size; an invalid start is U+FFFD of size 1.\<close>

definition utf8_decode :: "string \<Rightarrow> nat \<times> nat" where
  "utf8_decode s =
    (let b = (\<lambda>i. ord_of (s ! i)); b0 = b 0; c = (\<lambda>i. b i - 0x80) in
     if b0 < 0x80 then (b0, 1)
     else if 0xC2 \<le> b0 \<and> b0 \<le> 0xDF \<and> cont_byte s 1 0x80 0xBF then ((b0 - 0xC0) * 64 + c 1, 2)
     else if 0xE0 \<le> b0 \<and> b0 \<le> 0xEF
       \<and> cont_byte s 1 (if b0 = 0xE0 then 0xA0 else 0x80) (if b0 = 0xED then 0x9F else 0xBF)
       \<and> cont_byte s 2 0x80 0xBF then ((b0 - 0xE0) * 4096 + c 1 * 64 + c 2, 3)
     else if 0xF0 \<le> b0 \<and> b0 \<le> 0xF4
       \<and> cont_byte s 1 (if b0 = 0xF0 then 0x90 else 0x80) (if b0 = 0xF4 then 0x8F else 0xBF)
       \<and> cont_byte s 2 0x80 0xBF \<and> cont_byte s 3 0x80 0xBF
       then ((b0 - 0xF0) * 262144 + c 1 * 4096 + c 2 * 64 + c 3, 4)
     else (0xFFFD, 1))"

subsection \<open>Unquoting\<close>

definition hex4 :: "string \<Rightarrow> nat option" where
  "hex4 s =
    (if length s < 4 then None
     else case (hex_val (s ! 0), hex_val (s ! 1), hex_val (s ! 2), hex_val (s ! 3)) of
       (Some a, Some b, Some c, Some d) \<Rightarrow> Some (((a * 16 + b) * 16 + c) * 16 + d)
     | _ \<Rightarrow> None)"

definition simple_escape :: "char \<Rightarrow> char" where
  "simple_escape c =
    (if c = CHR ''b'' then CHR 0x08 else if c = CHR ''f'' then CHR 0x0C
     else if c = CHR ''n'' then CHR 0x0A else if c = CHR ''r'' then CHR 0x0D
     else if c = CHR ''t'' then CHR 0x09 else c)"

fun unquote :: "string \<Rightarrow> string" where
  "unquote [] = []"
| "unquote (c # cs) =
    (if c = CHR 0x5C then
       (if take 1 cs = ''u'' then
          (case hex4 (drop 1 cs) of
             None \<Rightarrow> []
           | Some r \<Rightarrow>
               if 0xD800 \<le> r \<and> r < 0xE000 then
                 (case (if take 2 (drop 5 cs) = [CHR 0x5C, CHR ''u''] then hex4 (drop 7 cs) else None) of
                    Some r2 \<Rightarrow>
                      if r < 0xDC00 \<and> 0xDC00 \<le> r2 \<and> r2 < 0xE000
                      then utf8_encode (0x10000 + (r - 0xD800) * 1024 + (r2 - 0xDC00)) @ unquote (drop 11 cs)
                      else utf8_encode 0xFFFD @ unquote (drop 5 cs)
                  | None \<Rightarrow> utf8_encode 0xFFFD @ unquote (drop 5 cs))
               else utf8_encode r @ unquote (drop 5 cs))
        else map simple_escape (take 1 cs) @ unquote (drop 1 cs))
     else if ord_of c < 0x80 then c # unquote cs
     else (let (r, n) = utf8_decode (c # cs) in utf8_encode r @ unquote (drop (n - 1) cs)))"

subsection \<open>The scanner\<close>

datatype num_state = NNeg | NZero | NInt | NDot | NFrac | NExp | NExpSign | NExpDigits

fun num_step :: "num_state \<Rightarrow> char \<Rightarrow> num_state option" where
  "num_step NNeg c = (if c = CHR ''0'' then Some NZero else if is_digit c then Some NInt else None)"
| "num_step NZero c =
    (if c = CHR ''.'' then Some NDot else if c = CHR ''e'' \<or> c = CHR ''E'' then Some NExp else None)"
| "num_step NInt c =
    (if is_digit c then Some NInt else if c = CHR ''.'' then Some NDot
     else if c = CHR ''e'' \<or> c = CHR ''E'' then Some NExp else None)"
| "num_step NDot c = (if is_digit c then Some NFrac else None)"
| "num_step NFrac c =
    (if is_digit c then Some NFrac else if c = CHR ''e'' \<or> c = CHR ''E'' then Some NExp else None)"
| "num_step NExp c =
    (if c = CHR ''+'' \<or> c = CHR ''-'' then Some NExpSign else if is_digit c then Some NExpDigits else None)"
| "num_step NExpSign c = (if is_digit c then Some NExpDigits else None)"
| "num_step NExpDigits c = (if is_digit c then Some NExpDigits else None)"

definition num_final :: "num_state \<Rightarrow> bool" where
  "num_final ns \<longleftrightarrow> ns \<in> {NZero, NInt, NFrac, NExpDigits}"

datatype frame = FArr "json list" | FObj "(string \<times> json) list" "string option"

datatype mode = MValue | MArrFirst | MObjFirst | MKey | MColon | MAfter
  | MStr string | MEsc string | MHex nat string | MNum num_state string | MLit string json

datatype scan = Bad | More mode "frame list" | Done json | DoneBefore json

definition json_space :: "char \<Rightarrow> bool" where
  "json_space c \<longleftrightarrow> c \<in> {CHR 0x20, CHR 0x09, CHR 0x0A, CHR 0x0D}"

definition max_nesting :: nat where
  "max_nesting = 10000"

fun complete :: "json \<Rightarrow> frame list \<Rightarrow> scan" where
  "complete v [] = Done v"
| "complete v (FArr vs # st) = More MAfter (FArr (v # vs) # st)"
| "complete v (FObj fs (Some k) # st) = More MAfter (FObj ((k, v) # fs) None # st)"
| "complete v (FObj fs None # st) = Bad"

definition open_frame :: "mode \<Rightarrow> frame \<Rightarrow> frame list \<Rightarrow> scan" where
  "open_frame m f st = (if length st < max_nesting then More m (f # st) else Bad)"

definition begin_value :: "char \<Rightarrow> frame list \<Rightarrow> scan" where
  "begin_value c st =
    (if c = CHR ''{'' then open_frame MObjFirst (FObj [] None) st
     else if c = CHR ''['' then open_frame MArrFirst (FArr []) st
     else if c = CHR 0x22 then More (MStr []) st
     else if c = CHR ''-'' then More (MNum NNeg [c]) st
     else if c = CHR ''0'' then More (MNum NZero [c]) st
     else if is_digit c then More (MNum NInt [c]) st
     else if c = CHR ''t'' then More (MLit ''rue'' (JBool True)) st
     else if c = CHR ''f'' then More (MLit ''alse'' (JBool False)) st
     else if c = CHR ''n'' then More (MLit ''ull'' JNull) st
     else Bad)"

fun after_value :: "char \<Rightarrow> frame list \<Rightarrow> scan" where
  "after_value c (FArr vs # st) =
    (if json_space c then More MAfter (FArr vs # st)
     else if c = CHR '','' then More MValue (FArr vs # st)
     else if c = CHR '']'' then complete (JArr (rev vs)) st
     else Bad)"
| "after_value c (FObj fs None # st) =
    (if json_space c then More MAfter (FObj fs None # st)
     else if c = CHR '','' then More MKey (FObj fs None # st)
     else if c = CHR ''}'' then complete (JObj (rev fs)) st
     else Bad)"
| "after_value c _ = Bad"

fun end_string :: "string \<Rightarrow> frame list \<Rightarrow> scan" where
  "end_string s (FObj fs None # st) = More MColon (FObj fs (Some s) # st)"
| "end_string s st = complete (JStr s) st"

text \<open>A number ends at the first byte that is not part of it; that byte is then looked at.\<close>

definition end_number :: "string \<Rightarrow> char \<Rightarrow> frame list \<Rightarrow> scan" where
  "end_number t c st =
    (case complete (JNum t) st of
       Done v \<Rightarrow> DoneBefore v
     | More m st' \<Rightarrow> after_value c st'
     | r \<Rightarrow> r)"

fun scan_step :: "mode \<Rightarrow> frame list \<Rightarrow> char \<Rightarrow> scan" where
  "scan_step MValue st c = (if json_space c then More MValue st else begin_value c st)"
| "scan_step MArrFirst st c =
    (if json_space c then More MArrFirst st
     else if c = CHR '']'' then after_value c st
     else begin_value c st)"
| "scan_step MObjFirst st c =
    (if json_space c then More MObjFirst st
     else if c = CHR ''}'' then after_value c st
     else if c = CHR 0x22 then More (MStr []) st
     else Bad)"
| "scan_step MKey st c =
    (if json_space c then More MKey st else if c = CHR 0x22 then More (MStr []) st else Bad)"
| "scan_step MColon st c =
    (if json_space c then More MColon st else if c = CHR '':'' then More MValue st else Bad)"
| "scan_step MAfter st c = after_value c st"
| "scan_step (MStr raw) st c =
    (if c = CHR 0x22 then end_string (unquote (rev raw)) st
     else if c = CHR 0x5C then More (MEsc (c # raw)) st
     else if ord_of c < 0x20 then Bad
     else More (MStr (c # raw)) st)"
| "scan_step (MEsc raw) st c =
    (if c \<in> set (''bfnrt/'' @ [CHR 0x5C, CHR 0x22]) then More (MStr (c # raw)) st
     else if c = CHR ''u'' then More (MHex 4 (c # raw)) st
     else Bad)"
| "scan_step (MHex k raw) st c =
    (if hex_val c = None then Bad
     else if k \<le> 1 then More (MStr (c # raw)) st
     else More (MHex (k - 1) (c # raw)) st)"
| "scan_step (MNum ns raw) st c =
    (case num_step ns c of
       Some ns' \<Rightarrow> More (MNum ns' (c # raw)) st
     | None \<Rightarrow> if num_final ns then end_number (rev raw) c st else Bad)"
| "scan_step (MLit xs v) st c =
    (if take 1 xs = [c] then (if length xs = 1 then complete v st else More (MLit (tl xs) v) st)
     else Bad)"

text \<open>Run to the end of the first value; the result carries the unread input.\<close>

fun json_run :: "mode \<Rightarrow> frame list \<Rightarrow> string \<Rightarrow> (json \<times> string) option" where
  "json_run m st [] =
    (case m of
       MNum ns raw \<Rightarrow> if num_final ns \<and> st = [] then Some (JNum (rev raw), []) else None
     | _ \<Rightarrow> None)"
| "json_run m st (c # cs) =
    (case scan_step m st c of
       Bad \<Rightarrow> None
     | More m' st' \<Rightarrow> json_run m' st' cs
     | Done v \<Rightarrow> Some (v, cs)
     | DoneBefore v \<Rightarrow> Some (v, c # cs))"

text \<open>\<^verbatim>\<open>Unmarshal\<close> wants one value and white space; \<^verbatim>\<open>Decoder.Decode\<close> reads the first value only.\<close>

definition json_parse :: "string \<Rightarrow> json option" where
  "json_parse s =
    (case json_run MValue [] s of
       None \<Rightarrow> None
     | Some (v, rest) \<Rightarrow> if list_all json_space rest then Some v else None)"

definition json_parse_first :: "string \<Rightarrow> json option" where
  "json_parse_first s = map_option fst (json_run MValue [] s)"

declare utf8_encode_def [go_defs] cont_byte_def [go_defs] utf8_decode_def [go_defs]
  hex4_def [go_defs] simple_escape_def [go_defs] num_final_def [go_defs] json_space_def [go_defs]
  max_nesting_def [go_defs] open_frame_def [go_defs] begin_value_def [go_defs]
  end_number_def [go_defs] json_parse_def [go_defs] json_parse_first_def [go_defs]

end
