(* ===== verification/GoFloat.thy ===== *)
theory GoFloat
  imports GoURL Complex_Main
begin

text \<open>
  Finite float64 values as the rationals they are: rounding to nearest with ties to even, the
  conversions to and from 64-bit integers, \<^verbatim>\<open>strconv.ParseFloat\<close> on a JSON number and the
  shortest decimal text that \<^verbatim>\<open>encoding/json\<close> prints for a float64.
\<close>

type_synonym f64 = rat

definition pow2 :: "int \<Rightarrow> rat" where
  "pow2 e = (if e \<ge> 0 then 2 ^ nat e else 1 / 2 ^ nat (- e))"

definition pow10 :: "int \<Rightarrow> rat" where
  "pow10 e = (if e \<ge> 0 then 10 ^ nat e else 1 / 10 ^ nat (- e))"

definition round_half_even :: "rat \<Rightarrow> int" where
  "round_half_even q =
    (let f = \<lfloor>q\<rfloor>; d = q - of_int f
     in if d < 1 / 2 then f else if d > 1 / 2 then f + 1 else if even f then f else f + 1)"

text \<open>The exponent of the last place of a positive value: normal, or the subnormal -1074.\<close>

definition f64_ulp_exp :: "rat \<Rightarrow> int" where
  "f64_ulp_exp a =
    (case find (\<lambda>e. pow2 (e + 52) \<le> a) (rev [-1074 .. 971]) of Some e \<Rightarrow> e | None \<Rightarrow> -1074)"

definition f64_round :: "rat \<Rightarrow> f64 option" where
  "f64_round x =
    (let a = \<bar>x\<bar>; e = f64_ulp_exp a;
         r = of_int (round_half_even (a / pow2 e)) * pow2 e
     in if r \<ge> pow2 1024 then None else Some (if x < 0 then - r else r))"

text \<open>\<^verbatim>\<open>float64(i)\<close> of a 64-bit integer never overflows.\<close>

definition f64_of_int :: "int \<Rightarrow> f64" where
  "f64_of_int i = (case f64_round (of_int i) of Some r \<Rightarrow> r | None \<Rightarrow> 0)"

text \<open>\<^verbatim>\<open>int64(f)\<close>: truncation; out of range it is the smallest integer, as amd64 gives.\<close>

definition f64_to_int64 :: "f64 \<Rightarrow> int" where
  "f64_to_int64 f =
    (let t = (if f < 0 then - \<lfloor>- f\<rfloor> else \<lfloor>f\<rfloor>)
     in if - (2 ^ 63) \<le> t \<and> t < 2 ^ 63 then t else - (2 ^ 63))"

subsection \<open>Reading a JSON number\<close>

definition digits_nat :: "string \<Rightarrow> nat" where
  "digits_nat s = (case digits_val s 0 of Some n \<Rightarrow> n | None \<Rightarrow> 0)"

definition exp_val :: "string \<Rightarrow> int" where
  "exp_val s =
    (if take 1 s = ''-'' then - int (digits_nat (tl s))
     else if take 1 s = ''+'' then int (digits_nat (tl s)) else int (digits_nat s))"

definition lit_abs :: "string \<Rightarrow> rat" where
  "lit_abs s =
    (let b = (if take 1 s = ''-'' then tl s else s);
         ip = takeWhile is_digit b; r1 = dropWhile is_digit b;
         fp = (if take 1 r1 = ''.'' then takeWhile is_digit (tl r1) else []);
         r2 = (if take 1 r1 = ''.'' then dropWhile is_digit (tl r1) else r1);
         ex = (if r2 = [] then 0 else exp_val (tl r2))
     in of_nat (digits_nat (ip @ fp)) * pow10 (ex - int (length fp)))"

definition lit_neg :: "string \<Rightarrow> bool" where
  "lit_neg s \<longleftrightarrow> take 1 s = ''-''"

definition parse_float :: "string \<Rightarrow> f64 option" where
  "parse_float s = f64_round (if lit_neg s then - lit_abs s else lit_abs s)"

subsection \<open>Printing a float64\<close>

definition dec_exp :: "rat \<Rightarrow> int" where
  "dec_exp a = (case find (\<lambda>k. pow10 k \<le> a) (rev [-324 .. 308]) of Some k \<Rightarrow> k | None \<Rightarrow> -324)"

text \<open>The \<open>n\<close>-digit decimals next to the value that read back as it; the nearer one is taken.\<close>

definition digit_candidate :: "rat \<Rightarrow> int \<Rightarrow> nat \<Rightarrow> int option" where
  "digit_candidate a k n =
    (let sc = pow10 (k - int n + 1); lo = \<lfloor>a / sc\<rfloor>; hi = lo + 1;
         ok = (\<lambda>c. f64_round (of_int c * sc) = Some a)
     in if ok lo \<and> (\<not> ok hi \<or> a - of_int lo * sc \<le> of_int hi * sc - a) then Some lo
        else if ok hi then Some hi else None)"

fun shortest_from :: "rat \<Rightarrow> int \<Rightarrow> nat list \<Rightarrow> (int \<times> int) option" where
  "shortest_from a k [] = None"
| "shortest_from a k (n # ns) =
    (case digit_candidate a k n of
       Some c \<Rightarrow> Some (c, k - int n + 1)
     | None \<Rightarrow> shortest_from a k ns)"

definition strip_zeros :: "string \<Rightarrow> string" where
  "strip_zeros s = rev (dropWhile (\<lambda>c. c = CHR ''0'') (rev s))"

definition format_digits :: "string \<Rightarrow> int \<Rightarrow> rat \<Rightarrow> string" where
  "format_digits ds ex a =
    (if 1 / 1000000 \<le> a \<and> a < 10 ^ 21 then
       (if ex < 0 then ''0.'' @ replicate (nat (- ex - 1)) CHR ''0'' @ ds
        else if int (length ds) \<le> ex + 1 then ds @ replicate (nat (ex + 1) - length ds) CHR ''0''
        else take (nat (ex + 1)) ds @ ''.'' @ drop (nat (ex + 1)) ds)
     else take 1 ds @ (if length ds > 1 then ''.'' @ drop 1 ds else []) @ ''e''
       @ (if ex < 0 then ''-'' else ''+'') @ show_nat (nat \<bar>ex\<bar>))"

definition format_f64 :: "f64 \<Rightarrow> string" where
  "format_f64 a =
    (if a = 0 then ''0''
     else (case shortest_from a (dec_exp a) [1 ..< 18] of
       None \<Rightarrow> ''0''
     | Some (c, sc) \<Rightarrow>
         (let ds = show_nat (nat c)
          in format_digits (strip_zeros ds) (int (length ds) - 1 + sc) a)))"

definition f64_text :: "f64 \<Rightarrow> string" where
  "f64_text f = (if f < 0 then CHR ''-'' # format_f64 (- f) else format_f64 f)"

text \<open>A JSON number read as a float64 and printed again; the sign of zero is kept.\<close>

definition num_text :: "string \<Rightarrow> string option" where
  "num_text s =
    (case parse_float s of
       None \<Rightarrow> None
     | Some r \<Rightarrow> Some ((if lit_neg s then ''-'' else []) @ format_f64 \<bar>r\<bar>))"

subsection \<open>Integers up to two to the 53 are exact\<close>

lemma pow2_pos [simp]: "0 < pow2 e"
  by (simp add: pow2_def)

lemma pow10_pos [simp]: "0 < pow10 e"
  by (simp add: pow10_def)

lemma round_half_even_of_int [simp]: "round_half_even (of_int i) = i"
  by (simp add: round_half_even_def)

lemma find_rev_upto:
  assumes "find P (rev [lo .. hi]) = Some e"
  shows "P e \<and> lo \<le> e \<and> e \<le> hi"
proof -
  from assms have "P e" and "e \<in> set (rev [lo .. hi])"
    by (auto simp: find_Some_iff simp del: set_rev dest: nth_mem)
  then show ?thesis by simp
qed

lemma f64_ulp_exp_cases:
  "f64_ulp_exp a = -1074 \<or> -1074 \<le> f64_ulp_exp a \<and> pow2 (f64_ulp_exp a + 52) \<le> a"
proof (cases "find (\<lambda>e. pow2 (e + 52) \<le> a) (rev [-1074 .. 971])")
  case None
  then show ?thesis by (simp only: f64_ulp_exp_def option.case simp_thms)
next
  case (Some e)
  from find_rev_upto [OF Some] Some show ?thesis by (simp only: f64_ulp_exp_def option.case simp_thms)
qed

lemma f64_round_nat:
  assumes n: "n \<le> 2 ^ 53"
  shows "f64_round (of_nat n) = Some (of_nat n)"
proof -
  define e where "e = f64_ulp_exp (of_nat n)"
  have n': "(of_nat n :: rat) \<le> 2 ^ 53"
    using n by (metis of_nat_le_iff of_nat_numeral of_nat_power)
  have "e \<le> 1"
  proof (rule ccontr)
    assume "\<not> e \<le> 1"
    then have e2: "2 \<le> e" by simp
    then have "pow2 (e + 52) \<le> of_nat n"
      using f64_ulp_exp_cases [of "of_nat n"] by (auto simp: e_def)
    moreover have "(2 :: rat) ^ 54 \<le> 2 ^ nat (e + 52)"
      by (rule power_increasing) (use e2 in auto)
    then have "(2 :: rat) ^ 54 \<le> pow2 (e + 52)" using e2 by (simp add: pow2_def)
    moreover have "(2 :: rat) ^ 53 < 2 ^ 54" by simp
    ultimately show False using n' by linarith
  qed
  have "of_int (round_half_even (of_nat n / pow2 e)) * pow2 e = (of_nat n :: rat)"
  proof (cases "e = 1")
    case True
    then have "pow2 53 \<le> of_nat n"
      using f64_ulp_exp_cases [of "of_nat n"] by (auto simp: e_def)
    with n' have "(of_nat n :: rat) = 2 ^ 53" by (simp add: pow2_def)
    moreover have "round_half_even 4503599627370496 = 4503599627370496"
      using round_half_even_of_int [of 4503599627370496] by simp
    ultimately show ?thesis using True by (simp add: pow2_def)
  next
    case False
    with \<open>e \<le> 1\<close> have "e \<le> 0" by simp
    then have p: "pow2 e = 1 / 2 ^ nat (- e)" by (cases "e = 0") (auto simp: pow2_def)
    have "(of_nat n / pow2 e :: rat) = of_int (int n * 2 ^ nat (- e))" by (simp add: p)
    then show ?thesis by (simp only: round_half_even_of_int) (simp add: p)
  qed
  moreover have "(of_nat n :: rat) < pow2 1024"
  proof -
    have "(2 :: rat) ^ 53 < 2 ^ 1024" by (rule power_strict_increasing) simp_all
    with n' have "(of_nat n :: rat) < 2 ^ 1024" by (rule order_le_less_trans)
    then show ?thesis by (simp only: pow2_def) simp
  qed
  ultimately show ?thesis by (simp add: f64_round_def Let_def e_def)
qed

lemma f64_of_int_exact: "0 \<le> i \<Longrightarrow> i \<le> 2 ^ 53 \<Longrightarrow> f64_of_int i = of_int i"
proof -
  assume i: "0 \<le> i" "i \<le> 2 ^ 53"
  then have "nat i \<le> 2 ^ 53" by (simp add: nat_le_iff)
  from f64_round_nat [OF this] i show ?thesis by (simp add: f64_of_int_def)
qed

lemma f64_to_int64_exact: "0 \<le> i \<Longrightarrow> i \<le> 2 ^ 53 \<Longrightarrow> f64_to_int64 (of_int i) = i"
  by (simp add: f64_to_int64_def)

end
