(* ===== verification/GoJSONCodec.thy ===== *)
theory GoJSONCodec
  imports GoJSON GoFloat
begin

text \<open>
  The encoding half of Go's \<^verbatim>\<open>encoding/json\<close> (HTML escaping on, compact, and the two-space
  indentation \<^verbatim>\<open>MarshalIndent\<close> uses for a flat object), the view of a value as
  \<^verbatim>\<open>interface{}\<close> (objects become maps: the last duplicate wins, keys are printed in byte
  order, numbers become float64), and the case-insensitive match of object keys with struct
  fields.
\<close>

definition json_escape_ascii :: "char \<Rightarrow> string" where
  "json_escape_ascii c =
    (if c = CHR 0x22 \<or> c = CHR 0x5C then [CHR 0x5C, c]
     else if c = CHR 0x08 then [CHR 0x5C, CHR ''b''] else if c = CHR 0x0C then [CHR 0x5C, CHR ''f'']
     else if c = CHR 0x0A then [CHR 0x5C, CHR ''n''] else if c = CHR 0x0D then [CHR 0x5C, CHR ''r'']
     else if c = CHR 0x09 then [CHR 0x5C, CHR ''t'']
     else if ord_of c < 0x20 \<or> c \<in> set ''<>&'' then
       [CHR 0x5C] @ ''u00'' @ [hex_digit (ord_of c div 16), hex_digit (ord_of c mod 16)]
     else [c])"

fun json_escape :: "string \<Rightarrow> string" where
  "json_escape [] = []"
| "json_escape (c # cs) =
    (if ord_of c < 0x80 then json_escape_ascii c @ json_escape cs
     else (let (r, n) = utf8_decode (c # cs) in
       if r = 0xFFFD \<and> n = 1 then [CHR 0x5C] @ ''ufffd'' @ json_escape cs
       else if r = 0x2028 \<or> r = 0x2029 then
         [CHR 0x5C] @ ''u202'' @ [hex_digit (r mod 16)] @ json_escape (drop (n - 1) cs)
       else take n (c # cs) @ json_escape (drop (n - 1) cs)))"

definition json_quote :: "string \<Rightarrow> string" where
  "json_quote s = [CHR 0x22] @ json_escape s @ [CHR 0x22]"

primrec json_encode :: "json \<Rightarrow> string" where
  "json_encode JNull = ''null''"
| "json_encode (JBool b) = (if b then ''true'' else ''false'')"
| "json_encode (JNum s) = s"
| "json_encode (JStr s) = json_quote s"
| "json_encode (JArr vs) = ''['' @ join_with '','' (map json_encode vs) @ '']''"
| "json_encode (JObj fs) =
    ''{'' @ join_with '','' (map (\<lambda>kv. json_quote (fst kv) @ '':'' @ snd kv) (map (map_prod id json_encode) fs)) @ ''}''"

text \<open>\<^verbatim>\<open>MarshalIndent(v, "", "  ")\<close> of an object whose values are not containers.\<close>

definition json_indent_flat :: "(string \<times> json) list \<Rightarrow> string" where
  "json_indent_flat fs =
    (if fs = [] then ''{}''
     else ''{'' @ [CHR 0x0A]
       @ join_with ('','' @ [CHR 0x0A])
           (map (\<lambda>kv. ''  '' @ json_quote (fst kv) @ '': '' @ json_encode (snd kv)) fs)
       @ [CHR 0x0A] @ ''}'')"

definition last_wins :: "(string \<times> 'a) list \<Rightarrow> (string \<times> 'a) list" where
  "last_wins fs = foldl (\<lambda>m kv. AList.update (fst kv) (snd kv) m) [] fs"

text \<open>Every number in the value is in the range of float64.\<close>

primrec json_in_range :: "json \<Rightarrow> bool" where
  "json_in_range JNull = True"
| "json_in_range (JBool b) = True"
| "json_in_range (JNum s) = (num_text s \<noteq> None)"
| "json_in_range (JStr s) = True"
| "json_in_range (JArr vs) = list_all id (map json_in_range vs)"
| "json_in_range (JObj fs) = list_all (\<lambda>kv. snd kv) (map (map_prod id json_in_range) fs)"

primrec json_norm :: "json \<Rightarrow> json" where
  "json_norm JNull = JNull"
| "json_norm (JBool b) = JBool b"
| "json_norm (JNum s) = JNum (case num_text s of Some t \<Rightarrow> t | None \<Rightarrow> s)"
| "json_norm (JStr s) = JStr s"
| "json_norm (JArr vs) = JArr (map json_norm vs)"
| "json_norm (JObj fs) = JObj (sort_key fst (last_wins (map (map_prod id json_norm) fs)))"

text \<open>\<^verbatim>\<open>json.Unmarshal(data, &v)\<close> with \<open>v\<close> an empty interface.\<close>

definition unmarshal_interface :: "string \<Rightarrow> json option" where
  "unmarshal_interface s =
    (case json_parse s of
       None \<Rightarrow> None
     | Some v \<Rightarrow> if json_in_range v then Some (json_norm v) else None)"

text \<open>\<^verbatim>\<open>foldName\<close>: like \<^const>\<open>to_lower\<close>, up to the runes that fold to ASCII.\<close>

definition upper_byte :: "char \<Rightarrow> char" where
  "upper_byte c = (if 97 \<le> ord_of c \<and> ord_of c \<le> 122 then char_of (ord_of c - 32) else c)"

fun fold_name :: "string \<Rightarrow> string" where
  "fold_name [] = []"
| "fold_name (a # cs) =
    (if take 2 (a # cs) = [CHR 0xC5, CHR 0xBF] then CHR ''S'' # fold_name (drop 1 cs)
     else if take 3 (a # cs) = [CHR 0xE2, CHR 0x84, CHR 0xAA] then CHR ''K'' # fold_name (drop 2 cs)
     else upper_byte a # fold_name cs)"

definition field_key :: "string \<Rightarrow> string \<Rightarrow> bool" where
  "field_key key name \<longleftrightarrow> fold_name key = fold_name name"

declare json_escape_ascii_def [go_defs] json_quote_def [go_defs] json_indent_flat_def [go_defs]
  last_wins_def [go_defs] unmarshal_interface_def [go_defs] upper_byte_def [go_defs]
  field_key_def [go_defs]

lemma field_key_refl [simp]: "field_key name name"
  by (simp add: field_key_def)

lemma gomap_ok_foldl_update:
  "gomap_ok m \<Longrightarrow> gomap_ok (foldl (\<lambda>m kv. AList.update (fst kv) (snd kv) m) m fs)"
  by (induction fs arbitrary: m) auto

lemma gomap_ok_last_wins [simp]: "gomap_ok (last_wins fs)"
  by (simp add: last_wins_def gomap_ok_foldl_update)

lemma map_of_last_wins: "map_of (last_wins fs) k = map_of (rev fs) k"
proof -
  have "map_of (foldl (\<lambda>m kv. AList.update (fst kv) (snd kv) m) m fs) k =
      (case map_of (rev fs) k of None \<Rightarrow> map_of m k | Some v \<Rightarrow> Some v)" for m
    by (induction fs arbitrary: m) (auto simp: map_add_def update_conv split: option.splits)
  then show ?thesis by (simp add: last_wins_def split: option.splits)
qed

lemma map_of_sort_key:
  assumes "gomap_ok m"
  shows "map_of (sort_key fst m) = map_of m"
proof -
  have d: "distinct (map fst m)" "distinct (map fst (sort_key fst m))"
    using assms by (simp_all add: gomap_ok_def distinct_map)
  have "map_of (sort_key fst m) k = Some v \<longleftrightarrow> map_of m k = Some v" for k v
    by (simp add: map_of_eq_Some_iff d)
  then show ?thesis by (metis not_Some_eq ext)
qed

end
