(* ===== verification/OAuthCore.thy ===== *)
theory OAuthCore
  imports GoCrypto GoJSONCodec
begin

text \<open>
  \<^verbatim>\<open>internal/oauthcore\<close>: the OAuth data model (\<^verbatim>\<open>models.go\<close>, \<^verbatim>\<open>config.go\<close>), the metadata
  documents (\<^verbatim>\<open>metadata.go\<close>), the error mapping (\<^verbatim>\<open>errors.go\<close>), token hashing
  (\<^verbatim>\<open>tokens.go\<close>) and the access list of the anonymous MCP mode (\<^verbatim>\<open>mcp_acl.go\<close>).

  Instants are nanoseconds since the Unix epoch. A \<^verbatim>\<open>json.RawMessage\<close> is a part of a body
  that has already been parsed, so the model carries its tree: parsing the bytes again gives
  the same tree.
\<close>

subsection \<open>models.go, config.go\<close>

record AuthCode =
  ac_RedirectURI :: string
  ac_ExpiresAt :: int
  ac_CodeChallenge :: string
  ac_CodeChallengeMethod :: string

record TokenResponse =
  AccessToken :: string
  TokenType :: string
  ExpiresIn :: int
  Scope :: string

record RegistrationRequest =
  rr_RedirectURIs :: "string list"

record RegistrationResponse =
  ClientID :: string
  ClientIDIssuedAt :: int
  RedirectURIs :: "string list"
  GrantTypes :: "string list"
  ResponseTypes :: "string list"
  TokenEndpointAuthMethod :: string
  CodeChallengeMethodsSupported :: "string list"
  rsp_Scope :: string

record AuthorizeRequest =
  ar_ResponseType :: string
  ar_ClientID :: string
  ar_RedirectURI :: string
  ar_State :: string
  ar_CodeChallenge :: string
  ar_CodeChallengeMethod :: string

record TokenExchangeRequest =
  tr_GrantType :: string
  tr_ClientID :: string
  tr_ClientSecret :: string
  tr_RedirectURI :: string
  tr_Code :: string
  tr_CodeVerifier :: string

record CoreConfig =
  Issuer :: string
  Resource :: string
  ScopesSupported :: "string list"

text \<open>The \<^verbatim>\<open>json\<close> tags: member names, order, and \<^verbatim>\<open>omitempty\<close>.\<close>

definition json_strings :: "string list \<Rightarrow> json" where
  "json_strings ss = JArr (map JStr ss)"

definition token_response_json :: "TokenResponse \<Rightarrow> json" where
  "token_response_json r =
    JObj ([(''access_token'', JStr (AccessToken r)), (''token_type'', JStr (TokenType r))]
      @ (if ExpiresIn r = 0 then [] else [(''expires_in'', JNum (show_int (ExpiresIn r)))])
      @ (if Scope r = [] then [] else [(''scope'', JStr (Scope r))]))"

definition registration_response_json :: "RegistrationResponse \<Rightarrow> json" where
  "registration_response_json r =
    JObj [(''client_id'', JStr (ClientID r)),
      (''client_id_issued_at'', JNum (show_int (ClientIDIssuedAt r))),
      (''redirect_uris'', json_strings (RedirectURIs r)),
      (''grant_types'', json_strings (GrantTypes r)),
      (''response_types'', json_strings (ResponseTypes r)),
      (''token_endpoint_auth_method'', JStr (TokenEndpointAuthMethod r)),
      (''code_challenge_methods_supported'', json_strings (CodeChallengeMethodsSupported r)),
      (''scope'', JStr (rsp_Scope r))]"

text \<open>
  Decoding \<^verbatim>\<open>redirect_uris\<close>. A repeated member decodes into the slice the first one left:
  a null element keeps what the backing array holds, an empty array makes a new slice and a
  null array drops it. The state is the visible slice and the backing array.
\<close>

fun decode_string_elems :: "json list \<Rightarrow> string list \<Rightarrow> string list option" where
  "decode_string_elems [] old = Some []"
| "decode_string_elems (v # vs) old =
    (case (case v of JStr s \<Rightarrow> Some s | JNull \<Rightarrow> Some (if old = [] then [] else hd old) | _ \<Rightarrow> None) of
       None \<Rightarrow> None
     | Some s \<Rightarrow> map_option ((#) s) (decode_string_elems vs (tl old)))"

fun decode_registration_fields ::
    "(string \<times> json) list \<Rightarrow> string list \<Rightarrow> string list \<Rightarrow> string list option" where
  "decode_registration_fields [] cur backing = Some cur"
| "decode_registration_fields ((k, v) # fs) cur backing =
    (if field_key k ''redirect_uris'' then
       (case v of
          JNull \<Rightarrow> decode_registration_fields fs [] []
        | JArr [] \<Rightarrow> decode_registration_fields fs [] []
        | JArr vs \<Rightarrow>
            (case decode_string_elems vs backing of
               None \<Rightarrow> None
             | Some ss \<Rightarrow> decode_registration_fields fs ss (ss @ drop (length ss) backing))
        | _ \<Rightarrow> None)
     else decode_registration_fields fs cur backing)"

definition decode_registration :: "json \<Rightarrow> RegistrationRequest option" where
  "decode_registration v =
    (case v of
       JNull \<Rightarrow> Some \<lparr>rr_RedirectURIs = []\<rparr>
     | JObj fs \<Rightarrow> map_option (\<lambda>us. \<lparr>rr_RedirectURIs = us\<rparr>) (decode_registration_fields fs [] [])
     | _ \<Rightarrow> None)"

subsection \<open>tokens.go\<close>

definition HashToken :: "string \<Rightarrow> string" where
  "HashToken token = hex_encode (sha256 token)"

subsection \<open>metadata.go\<close>

definition AuthorizationServerMetadata :: "CoreConfig \<Rightarrow> (string, json) gomap" where
  "AuthorizationServerMetadata cfg =
    [(''issuer'', JStr (Issuer cfg)),
     (''authorization_endpoint'', JStr (Issuer cfg @ ''/authorize'')),
     (''token_endpoint'', JStr (Issuer cfg @ ''/token'')),
     (''registration_endpoint'', JStr (Issuer cfg @ ''/register'')),
     (''response_types_supported'', json_strings [''code'']),
     (''grant_types_supported'', json_strings [''authorization_code'']),
     (''code_challenge_methods_supported'', json_strings [''S256'']),
     (''token_endpoint_auth_methods_supported'', json_strings [''none'', ''client_secret_post'']),
     (''scopes_supported'', json_strings (ScopesSupported cfg)),
     (''service_documentation'', JStr (Resource cfg))]"

definition ProtectedResourceMetadata :: "CoreConfig \<Rightarrow> (string, json) gomap" where
  "ProtectedResourceMetadata cfg =
    [(''resource'', JStr (Resource cfg)),
     (''authorization_servers'', json_strings [Issuer cfg]),
     (''bearer_methods_supported'', json_strings [''header'']),
     (''scopes_supported'', json_strings (ScopesSupported cfg)),
     (''resource_documentation'', JStr (Resource cfg))]"

subsection \<open>errors.go\<close>

definition MapAuthorizeError :: "string \<Rightarrow> string \<times> string" where
  "MapAuthorizeError msg =
    (if has_prefix msg ''unsupported_response_type'' then (''unsupported_response_type'', [])
     else if has_prefix msg ''invalid_request'' then (''invalid_request'', trim_prefix msg ''invalid_request: '')
     else (''invalid_request'', msg))"

definition MapTokenError :: "string \<Rightarrow> string \<times> nat" where
  "MapTokenError msg =
    (if has_prefix msg ''unsupported_grant_type'' then (''unsupported_grant_type'', 400)
     else if has_prefix msg ''invalid_client'' then (''invalid_client'', 401)
     else if has_prefix msg ''invalid_grant'' then (''invalid_grant'', 400)
     else if has_prefix msg ''server_error'' then (''server_error'', 500)
     else (''invalid_request'', 400))"

subsection \<open>mcp\_acl.go\<close>

record AnonymousMCPPolicy =
  PublicTools :: "string list"

record jsonRPCRequest =
  rpc_Method :: string
  rpc_Params :: "json option"

text \<open>
  \<^verbatim>\<open>json.Unmarshal\<close> into the struct: members in order, names matched up to case, a later
  one overwrites, null leaves a string as it is, a value of another kind is an error.
\<close>

fun rpc_fields :: "(string \<times> json) list \<Rightarrow> jsonRPCRequest \<Rightarrow> jsonRPCRequest option" where
  "rpc_fields [] msg = Some msg"
| "rpc_fields ((k, v) # fs) msg =
    (if field_key k ''method'' then
       (case v of
          JStr s \<Rightarrow> rpc_fields fs (msg\<lparr>rpc_Method := s\<rparr>)
        | JNull \<Rightarrow> rpc_fields fs msg
        | _ \<Rightarrow> None)
     else if field_key k ''params'' then rpc_fields fs (msg\<lparr>rpc_Params := Some v\<rparr>)
     else rpc_fields fs msg)"

definition decode_rpc :: "json \<Rightarrow> jsonRPCRequest option" where
  "decode_rpc raw =
    (case raw of
       JNull \<Rightarrow> Some \<lparr>rpc_Method = [], rpc_Params = None\<rparr>
     | JObj fs \<Rightarrow> rpc_fields fs \<lparr>rpc_Method = [], rpc_Params = None\<rparr>
     | _ \<Rightarrow> None)"

fun name_fields :: "(string \<times> json) list \<Rightarrow> string \<Rightarrow> string option" where
  "name_fields [] n = Some n"
| "name_fields ((k, v) # fs) n =
    (if field_key k ''name'' then
       (case v of JStr s \<Rightarrow> name_fields fs s | JNull \<Rightarrow> name_fields fs n | _ \<Rightarrow> None)
     else name_fields fs n)"

definition decode_tool_params :: "json option \<Rightarrow> string option" where
  "decode_tool_params params =
    (case params of
       None \<Rightarrow> None
     | Some JNull \<Rightarrow> Some []
     | Some (JObj fs) \<Rightarrow> name_fields fs []
     | Some _ \<Rightarrow> None)"

fun public_loop :: "string list \<Rightarrow> string \<Rightarrow> bool" where
  "public_loop [] name = False"
| "public_loop (tool # tools) name = (if tool = name then True else public_loop tools name)"

definition IsPublicTool :: "AnonymousMCPPolicy \<Rightarrow> string \<Rightarrow> bool" where
  "IsPublicTool p name = public_loop (PublicTools p) name"

definition messageAllowed :: "AnonymousMCPPolicy \<Rightarrow> json option \<Rightarrow> bool \<times> bool \<times> string" where
  "messageAllowed p raw =
    (case Option.bind raw decode_rpc of
       None \<Rightarrow> (False, False, ''invalid_json'')
     | Some msg \<Rightarrow>
         if rpc_Method msg \<in> set [''initialize'', ''notifications/initialized'', ''ping''] then (True, False, [])
         else if rpc_Method msg = ''tools/list'' then (True, True, [])
         else if rpc_Method msg = ''tools/call'' then
           (case decode_tool_params (rpc_Params msg) of
              None \<Rightarrow> (False, False, ''invalid_tool_call_params'')
            | Some name \<Rightarrow>
                if name = [] then (False, False, ''missing_tool_name'')
                else if IsPublicTool p name then (True, False, [])
                else (False, False, ''tool_not_public''))
         else (False, False, ''method_not_public''))"

fun batch_loop :: "AnonymousMCPPolicy \<Rightarrow> json list \<Rightarrow> bool \<Rightarrow> bool \<times> bool \<times> string" where
  "batch_loop p [] containsToolsList = (True, containsToolsList, [])"
| "batch_loop p (raw # batch) containsToolsList =
    (let (ok, isToolsList, reason) = messageAllowed p (Some raw) in
     if \<not> ok then (False, False, reason)
     else batch_loop p batch (containsToolsList \<or> isToolsList))"

text \<open>\<^verbatim>\<open>json.Unmarshal(body, &batch)\<close>: an array, or null for a nil slice.\<close>

definition decode_batch :: "string \<Rightarrow> json list option" where
  "decode_batch body =
    (case json_parse body of Some (JArr vs) \<Rightarrow> Some vs | Some JNull \<Rightarrow> Some [] | _ \<Rightarrow> None)"

definition PayloadAllowed :: "AnonymousMCPPolicy \<Rightarrow> string \<Rightarrow> bool \<times> bool \<times> string" where
  "PayloadAllowed p body =
    (case decode_batch body of
       Some batch \<Rightarrow>
         if batch = [] then (False, False, ''empty_batch'') else batch_loop p batch False
     | None \<Rightarrow> messageAllowed p (json_parse body))"

declare json_strings_def [model_defs] token_response_json_def [model_defs]
  registration_response_json_def [model_defs] decode_registration_def [model_defs]
  HashToken_def [model_defs] AuthorizationServerMetadata_def [model_defs]
  ProtectedResourceMetadata_def [model_defs] MapAuthorizeError_def [model_defs]
  MapTokenError_def [model_defs] decode_rpc_def [model_defs] decode_tool_params_def [model_defs]
  IsPublicTool_def [model_defs] messageAllowed_def [model_defs] decode_batch_def [model_defs]
  PayloadAllowed_def [model_defs]

subsection \<open>Token hashes\<close>

lemma length_HashToken [simp]: "length (HashToken t) = 64"
  by (simp add: HashToken_def)

lemma HashToken_eq_iff: "HashToken t = HashToken u \<longleftrightarrow> sha256 t = sha256 u"
  by (auto simp: HashToken_def dest: hex_encode_inj)

subsection \<open>The access list\<close>

lemma IsPublicTool_iff [simp]: "IsPublicTool p name \<longleftrightarrow> name \<in> set (PublicTools p)"
proof -
  have "public_loop ts name \<longleftrightarrow> name \<in> set ts" for ts by (induction ts) auto
  then show ?thesis by (simp add: IsPublicTool_def)
qed

text \<open>What a message must decode to in order to be public, and the messages of a body.\<close>

definition public_message :: "AnonymousMCPPolicy \<Rightarrow> json \<Rightarrow> bool" where
  "public_message p raw \<longleftrightarrow>
    (\<exists>msg. decode_rpc raw = Some msg \<and>
      (rpc_Method msg \<in> {''initialize'', ''notifications/initialized'', ''ping'', ''tools/list''} \<or>
       rpc_Method msg = ''tools/call'' \<and>
       (\<exists>name. decode_tool_params (rpc_Params msg) = Some name \<and> name \<noteq> [] \<and> name \<in> set (PublicTools p))))"

definition lists_tools :: "json \<Rightarrow> bool" where
  "lists_tools raw \<longleftrightarrow> (\<exists>msg. decode_rpc raw = Some msg \<and> rpc_Method msg = ''tools/list'')"

definition body_messages :: "string \<Rightarrow> json list option" where
  "body_messages body = (case json_parse body of None \<Rightarrow> None | Some (JArr vs) \<Rightarrow> Some vs
     | Some JNull \<Rightarrow> Some [] | Some v \<Rightarrow> Some [v])"

lemma messageAllowed_iff:
  "messageAllowed p (Some raw) = (True, lst, r) \<longleftrightarrow>
    public_message p raw \<and> lst = lists_tools raw \<and> r = []"
  by (auto simp: messageAllowed_def public_message_def lists_tools_def split: option.splits)

lemma messageAllowed_False: "messageAllowed p raw = (False, lst, r) \<Longrightarrow> lst = False \<and> r \<noteq> []"
  by (auto simp: messageAllowed_def split: option.splits if_splits)

lemma batch_loop_iff:
  "batch_loop p ms acc = (True, lst, r) \<longleftrightarrow>
    (\<forall>m\<in>set ms. public_message p m) \<and> lst = (acc \<or> (\<exists>m\<in>set ms. lists_tools m)) \<and> r = []"
proof (induction ms arbitrary: acc)
  case Nil
  show ?case by auto
next
  case (Cons m ms)
  obtain ok il rs where mm: "messageAllowed p (Some m) = (ok, il, rs)" by (metis prod_cases3)
  show ?case
  proof (cases ok)
    case True
    with mm messageAllowed_iff [of p m il rs] show ?thesis by (auto simp: Cons.IH)
  next
    case False
    with mm have "\<not> public_message p m" using messageAllowed_iff [of p m] by auto
    with mm False show ?thesis by auto
  qed
qed

lemma payload_allowed_iff_helper:
  "PayloadAllowed p body = (True, lst, r) \<longleftrightarrow>
    (\<exists>ms. body_messages body = Some ms \<and> ms \<noteq> [] \<and> (\<forall>m\<in>set ms. public_message p m) \<and>
      lst = (\<exists>m\<in>set ms. lists_tools m) \<and> r = [])"
proof (cases "json_parse body")
  case None
  then show ?thesis
    by (simp add: PayloadAllowed_def decode_batch_def body_messages_def messageAllowed_def)
next
  case (Some v)
  then show ?thesis
    by (cases v)
      (simp_all add: PayloadAllowed_def decode_batch_def body_messages_def messageAllowed_iff
        batch_loop_iff)
qed

text \<open>
  C11. The anonymous access list. A body is let through, with flag \<^verbatim>\<open>toolsList\<close>, exactly when
  it is well-formed JSON with at least one message, every message (the elements of a batch, or
  the value itself) decodes to a protocol-setup method, \<^verbatim>\<open>tools/list\<close>, or a \<^verbatim>\<open>tools/call\<close> of
  a non-empty name on the allowlist, and the flag says whether one of them is \<^verbatim>\<open>tools/list\<close>.
\<close>

theorem payload_allowed_iff:
  "PayloadAllowed p body = (True, lst, r) \<longleftrightarrow>
    (\<exists>ms. body_messages body = Some ms \<and> ms \<noteq> [] \<and> (\<forall>m\<in>set ms. public_message p m) \<and>
      lst = (\<exists>m\<in>set ms. lists_tools m) \<and> r = [])"
  by (rule payload_allowed_iff_helper)

text \<open>The list is accepted on a concrete batch, evaluated by the model.\<close>

definition sample_batch :: string where
  "sample_batch = ''[{'' @ json_quote ''method'' @ '':'' @ json_quote ''tools/list'' @ ''},{''
     @ json_quote ''method'' @ '':'' @ json_quote ''tools/call'' @ '','' @ json_quote ''params'' @ '':{''
     @ json_quote ''name'' @ '':'' @ json_quote ''search'' @ ''}}]''"

lemma sample_batch_allowed:
  "PayloadAllowed \<lparr>PublicTools = [''search'']\<rparr> sample_batch = (True, True, [])"
  by code_simp

lemma payload_allowed_iff_witness:
  "\<exists>ms. body_messages sample_batch = Some ms \<and> ms \<noteq> [] \<and>
    (\<forall>m\<in>set ms. public_message \<lparr>PublicTools = [''search'']\<rparr> m)"
  using payload_allowed_iff [of "\<lparr>PublicTools = [''search'']\<rparr>" sample_batch True "[]"]
    sample_batch_allowed by auto

text \<open>
  The gate decodes a message into Go structs, which match member names up to case. The
  backend reads the same bytes with its own parser. If no member is a case variant of the
  names the gate looks for, the two readings agree.
\<close>

definition no_alias :: "string \<Rightarrow> (string \<times> json) list \<Rightarrow> bool" where
  "no_alias name fs \<longleftrightarrow> list_all (\<lambda>kv. field_key (fst kv) name \<longrightarrow> fst kv = name) fs"

lemma no_alias_Cons [simp]:
  "no_alias name (kv # fs) \<longleftrightarrow> (field_key (fst kv) name \<longrightarrow> fst kv = name) \<and> no_alias name fs"
  by (simp add: no_alias_def)

text \<open>What a case-sensitive reader of the bytes takes a message to call.\<close>

definition exact_tool_call :: "json \<Rightarrow> string \<Rightarrow> bool" where
  "exact_tool_call m name \<longleftrightarrow>
    (case m of JObj fs \<Rightarrow> map_of (rev fs) ''method'' = Some (JStr ''tools/call'') \<and>
       (case map_of (rev fs) ''params'' of
          Some (JObj ps) \<Rightarrow> map_of (rev ps) ''name'' = Some (JStr name)
        | _ \<Rightarrow> False)
     | _ \<Rightarrow> False)"

definition alias_free_message :: "json \<Rightarrow> bool" where
  "alias_free_message m \<longleftrightarrow>
    (case m of JObj fs \<Rightarrow> no_alias ''method'' fs \<and> no_alias ''params'' fs \<and>
       (case map_of (rev fs) ''params'' of Some (JObj ps) \<Rightarrow> no_alias ''name'' ps | _ \<Rightarrow> True)
     | _ \<Rightarrow> True)"

lemma field_key_method_params: "field_key ''params'' ''method'' = False"
  by code_simp

lemma rpc_fields_exact:
  assumes "rpc_fields fs m0 = Some m" and "no_alias ''method'' fs" and "no_alias ''params'' fs"
  shows "(\<forall>s. map_of (rev fs) ''method'' = Some (JStr s) \<longrightarrow> rpc_Method m = s) \<and>
    (map_of (rev fs) ''method'' = None \<longrightarrow> rpc_Method m = rpc_Method m0) \<and>
    rpc_Params m = (case map_of (rev fs) ''params'' of None \<Rightarrow> rpc_Params m0 | Some v \<Rightarrow> Some v)"
  using assms
proof (induction fs arbitrary: m0)
  case Nil
  then show ?case by simp
next
  case (Cons kv fs)
  obtain k v where kv: "kv = (k, v)" by (cases kv)
  consider (meth) "k = ''method''" | (params) "k = ''params''"
    | (other) "\<not> field_key k ''method''" "\<not> field_key k ''params''" "k \<noteq> ''method''" "k \<noteq> ''params''"
    using Cons.prems kv by auto
  then show ?case
  proof cases
    case meth
    with Cons.prems kv obtain m1 where "rpc_fields fs m1 = Some m" "rpc_Params m1 = rpc_Params m0"
      "\<forall>s. v = JStr s \<longrightarrow> rpc_Method m1 = s"
      by (auto split: json.splits)
    with Cons.IH [of m1] Cons.prems meth kv show ?thesis
      by (cases "map_of (rev fs) ''method''") (auto split: option.splits simp: map_add_def)
  next
    case params
    with Cons.prems kv have "rpc_fields fs (m0\<lparr>rpc_Params := Some v\<rparr>) = Some m"
      by (simp add: field_key_method_params)
    from Cons.IH [OF this] Cons.prems params kv show ?thesis
      by (auto split: option.splits simp: map_add_def)
  next
    case other
    with Cons.prems kv Cons.IH [of m0] show ?thesis
      by (auto split: option.splits simp: map_add_def)
  qed
qed

lemma name_fields_exact:
  assumes "name_fields ps n0 = Some n" and "no_alias ''name'' ps"
  shows "(\<forall>s. map_of (rev ps) ''name'' = Some (JStr s) \<longrightarrow> n = s) \<and>
    (map_of (rev ps) ''name'' = None \<longrightarrow> n = n0)"
  using assms
proof (induction ps arbitrary: n0)
  case Nil
  then show ?case by simp
next
  case (Cons kv ps)
  obtain k v where kv: "kv = (k, v)" by (cases kv)
  show ?case
  proof (cases "k = ''name''")
    case True
    with Cons.prems kv obtain n1 where "name_fields ps n1 = Some n" "\<forall>s. v = JStr s \<longrightarrow> n1 = s"
      by (auto split: json.splits)
    with Cons.IH [of n1] Cons.prems True kv show ?thesis
      by (cases "map_of (rev ps) ''name''") (auto simp: map_add_def)
  next
    case False
    with Cons.prems kv Cons.IH [of n0] show ?thesis
      by (auto simp: map_add_def split: option.splits)
  qed
qed

lemma public_message_exact:
  assumes "public_message p m" and "alias_free_message m" and "exact_tool_call m name"
  shows "name \<in> set (PublicTools p)"
proof -
  obtain fs where m: "m = JObj fs" using assms(3) by (cases m) (simp_all add: exact_tool_call_def)
  obtain v where v: "map_of (rev fs) ''params'' = Some v"
    using assms(3) m by (cases "map_of (rev fs) ''params''") (simp_all add: exact_tool_call_def)
  obtain ps where ps: "v = JObj ps" using assms(3) m v by (cases v) (simp_all add: exact_tool_call_def)
  have meth: "map_of (rev fs) ''method'' = Some (JStr ''tools/call'')"
    and par: "map_of (rev fs) ''params'' = Some (JObj ps)" and nm: "map_of (rev ps) ''name'' = Some (JStr name)"
    using assms(3) m v ps by (simp_all add: exact_tool_call_def)
  from assms(1) m obtain msg where msg: "rpc_fields fs \<lparr>rpc_Method = [], rpc_Params = None\<rparr> = Some msg"
    and pub: "rpc_Method msg \<in> {''initialize'', ''notifications/initialized'', ''ping'', ''tools/list''} \<or>
       rpc_Method msg = ''tools/call'' \<and>
       (\<exists>name. decode_tool_params (rpc_Params msg) = Some name \<and> name \<noteq> [] \<and> name \<in> set (PublicTools p))"
    by (auto simp: public_message_def decode_rpc_def)
  have na: "no_alias ''method'' fs" "no_alias ''params'' fs" "no_alias ''name'' ps"
    using assms(2) m par by (simp_all add: alias_free_message_def)
  from rpc_fields_exact [OF msg na(1,2)] meth par
  have "rpc_Method msg = ''tools/call''" "rpc_Params msg = Some (JObj ps)" by simp_all
  with pub obtain n where "name_fields ps [] = Some n" "n \<in> set (PublicTools p)"
    by (auto simp: decode_tool_params_def)
  with name_fields_exact [OF _ na(3)] nm show ?thesis by blast
qed

text \<open>
No smuggling without aliases: when the gate lets a body through and a message of it has
  no member that is a case variant of \<^verbatim>\<open>method\<close>, \<^verbatim>\<open>params\<close> or \<^verbatim>\<open>name\<close>, then a tool that a
  case-sensitive, last-member-wins reader sees that message call is on the allowlist.
\<close>

theorem allowed_tool_call_is_public:
  assumes "PayloadAllowed p body = (True, lst, r)"
    and "body_messages body = Some ms" and "m \<in> set ms"
    and "alias_free_message m" and "exact_tool_call m name"
  shows "name \<in> set (PublicTools p)"
  using assms payload_allowed_iff_helper public_message_exact by fastforce

definition sample_call :: json where
  "sample_call = JObj [(''method'', JStr ''tools/call''),
     (''params'', JObj [(''name'', JStr ''search'')])]"

lemma sample_batch_messages:
  "body_messages sample_batch = Some [JObj [(''method'', JStr ''tools/list'')], sample_call]"
  by code_simp

lemma sample_call_exact: "alias_free_message sample_call" "exact_tool_call sample_call ''search''"
  by code_simp+

lemma allowed_tool_call_is_public_witness:
  "''search'' \<in> set (PublicTools \<lparr>PublicTools = [''search'']\<rparr>)"
  using allowed_tool_call_is_public
    [OF sample_batch_allowed sample_batch_messages _ sample_call_exact] by simp

text \<open>
  A body with two spellings of one member: the gate keeps the last, a case-sensitive reader
  the only one it knows.
\<close>

definition aliased_call :: json where
  "aliased_call = JObj [(''method'', JStr ''tools/call''),
     (''params'', JObj [(''name'', JStr ''admin'')]), (''Method'', JStr ''ping'')]"

text \<open>
  C39. The agreement needs its premise. For every allowlist, the body
  \<^verbatim>\<open>{"method":"tools/call","params":{"name":"admin"},"Method":"ping"}\<close> is let through as a
  \<^verbatim>\<open>ping\<close>, and a case-sensitive reader of it sees a call of the tool \<^verbatim>\<open>admin\<close>.
\<close>

theorem aliased_call_is_let_through:
  "PayloadAllowed p (json_encode aliased_call) = (True, False, []) \<and>
    body_messages (json_encode aliased_call) = Some [aliased_call] \<and>
    exact_tool_call aliased_call ''admin''"
proof -
  have parse: "json_parse (json_encode aliased_call) = Some aliased_call" by code_simp
  have "messageAllowed p (Some aliased_call) = (True, False, [])"
  proof -
    have "decode_rpc aliased_call =
        Some \<lparr>rpc_Method = ''ping'', rpc_Params = Some (JObj [(''name'', JStr ''admin'')])\<rparr>"
      by code_simp
    then show ?thesis by (simp add: messageAllowed_def)
  qed
  with parse show ?thesis
    by (simp add: PayloadAllowed_def decode_batch_def body_messages_def aliased_call_def
        exact_tool_call_def)
qed

end
