(* ===== verification/Context.thy ===== *)
theory Context
  imports Prelude
begin

text \<open>
  \<^verbatim>\<open>internal/context\<close>: the request-scoped values. A Go context is a chain of
  \<^verbatim>\<open>WithValue\<close> nodes searched from the newest; the model is the list of nodes. The keys of
  the program are typed, so the model's keys are one constructor each; the last two are the
  private keys of \<^verbatim>\<open>internal/oauthproxy\<close>.
\<close>

datatype contextKey = RequestIDKey | ClientRequestIDKey | subPathContextKey
  | anonymousToolsListContextKey

datatype ctx_value = CtxString string | CtxBool bool

type_synonym ctx = "(contextKey \<times> ctx_value) list"

definition WithValue :: "ctx \<Rightarrow> contextKey \<Rightarrow> ctx_value \<Rightarrow> ctx" where
  "WithValue ctx k v = (k, v) # ctx"

definition WithRequestID :: "ctx \<Rightarrow> string \<Rightarrow> ctx" where
  "WithRequestID ctx rid = WithValue ctx RequestIDKey (CtxString rid)"

definition WithClientRequestID :: "ctx \<Rightarrow> string \<Rightarrow> ctx" where
  "WithClientRequestID ctx rid = WithValue ctx ClientRequestIDKey (CtxString rid)"

definition GetRequestID :: "ctx \<Rightarrow> string" where
  "GetRequestID ctx =
    (case map_of ctx RequestIDKey of Some (CtxString rid) \<Rightarrow> rid | _ \<Rightarrow> ''missing'')"

definition GetClientRequestID :: "ctx \<Rightarrow> string" where
  "GetClientRequestID ctx =
    (case map_of ctx ClientRequestIDKey of Some (CtxString rid) \<Rightarrow> rid | _ \<Rightarrow> [])"

declare WithValue_def [model_defs] WithRequestID_def [model_defs]
  WithClientRequestID_def [model_defs] GetRequestID_def [model_defs]
  GetClientRequestID_def [model_defs]

lemma GetRequestID_With [simp]:
  "GetRequestID (WithRequestID ctx rid) = rid"
  "GetRequestID (WithClientRequestID ctx rid) = GetRequestID ctx"
  "GetClientRequestID (WithClientRequestID ctx rid) = rid"
  "GetClientRequestID (WithRequestID ctx rid) = GetClientRequestID ctx"
  by (simp_all add: model_defs)

end
