(* ===== verification/GoHTTP.thy ===== *)
theory GoHTTP
  imports GoURL Context
begin

text \<open>
  The part of Go's \<^verbatim>\<open>net/http\<close> the handlers see: an incoming request, the header map with
  canonical keys, and a \<^verbatim>\<open>ResponseWriter\<close> as the response recorded so far.

  The body of a request is what reading it yields: all its bytes, or the error that reading
  met (\<^term>\<open>Inl\<close>). A written status is kept as \<^term>\<open>Some\<close>; the first \<^verbatim>\<open>WriteHeader\<close>
  wins, and a \<^verbatim>\<open>Write\<close> before any sets 200.
\<close>

type_synonym headers = "(string, string list) gomap"

record request =
  Method :: string
  RemoteAddr :: string
  Header :: headers
  URL_Path :: string
  URL_RawPath :: string
  URL_RawQuery :: string
  Body :: "string result"
  Context :: ctx

definition header_get :: "headers \<Rightarrow> string \<Rightarrow> string" where
  "header_get h k = (case map_of h k of Some (v # _) \<Rightarrow> v | _ \<Rightarrow> [])"

definition header_set :: "headers \<Rightarrow> string \<Rightarrow> string \<Rightarrow> headers" where
  "header_set h k v = AList.update k [v] h"

definition header_del :: "headers \<Rightarrow> string \<Rightarrow> headers" where
  "header_del h k = AList.delete k h"

lemma header_get_set [simp]: "header_get (header_set h k v) k = v"
  by (simp add: header_get_def header_set_def)

lemma header_get_set_other: "k \<noteq> k' \<Longrightarrow> header_get (header_set h k v) k' = header_get h k'"
  by (simp add: header_get_def header_set_def map_of_update_neq)

lemma header_get_del [simp]: "header_get (header_del h k) k = []"
  by (simp add: header_get_def header_del_def)

lemma header_get_del_other: "k \<noteq> k' \<Longrightarrow> header_get (header_del h k) k' = header_get h k'"
  by (simp add: header_get_def header_del_def map_of_delete_neq)

record response =
  status :: "nat option"
  resp_headers :: headers
  resp_body :: string

definition fresh_response :: response where
  "fresh_response = \<lparr>status = None, resp_headers = [], resp_body = []\<rparr>"

text \<open>Headers set after the status line has been written are not sent.\<close>

definition set_header :: "string \<Rightarrow> string \<Rightarrow> response \<Rightarrow> response" where
  "set_header k v w =
    (if status w = None then w\<lparr>resp_headers := header_set (resp_headers w) k v\<rparr> else w)"

definition WriteHeader :: "nat \<Rightarrow> response \<Rightarrow> response" where
  "WriteHeader code w = (if status w = None then w\<lparr>status := Some code\<rparr> else w)"

definition Write :: "string \<Rightarrow> response \<Rightarrow> response" where
  "Write b w = (let w' = WriteHeader 200 w in w'\<lparr>resp_body := resp_body w' @ b\<rparr>)"

text \<open>
  \<^verbatim>\<open>http.Error\<close>: drops the headers that described another body, then text and a newline.
\<close>

definition http_Error :: "string \<Rightarrow> nat \<Rightarrow> response \<Rightarrow> response" where
  "http_Error msg code w =
    (let h0 = foldl header_del (resp_headers w)
                [''Content-Length'', ''Content-Encoding'', ''Etag'', ''Last-Modified'', ''Cache-Control''];
         h = header_set (header_set h0 ''Content-Type'' ''text/plain; charset=utf-8'')
               ''X-Content-Type-Options'' ''nosniff'';
         w1 = (if status w = None then w\<lparr>resp_headers := h\<rparr> else w)
     in Write (msg @ [CHR 0x0A]) (WriteHeader code w1))"

definition html_escape :: "string \<Rightarrow> string" where
  "html_escape s =
    concat (map (\<lambda>c. if c = CHR ''&'' then ''&amp;'' else if c = CHR ''<'' then ''&lt;''
                      else if c = CHR ''>'' then ''&gt;'' else if c = CHR 0x22 then ''&#34;''
                      else if c = CHR 0x27 then ''&#39;'' else [c]) s)"

text \<open>
  \<^verbatim>\<open>http.Redirect\<close> with status 302 to a URL that has a scheme (the only kind the program
  passes), answering a GET request: the \<^verbatim>\<open>Location\<close> header and a short HTML body.
\<close>

definition http_Redirect :: "string \<Rightarrow> nat \<Rightarrow> response \<Rightarrow> response" where
  "http_Redirect loc code w =
    Write (''<a href='' @ [CHR 0x22] @ html_escape loc @ [CHR 0x22] @ ''>Found</a>.'' @ [CHR 0x0A, CHR 0x0A])
      (WriteHeader code
        (set_header ''Content-Type'' ''text/html; charset=utf-8''
          (set_header ''Location'' (hex_escape_non_ascii loc) w)))"

declare header_get_def [go_defs] header_set_def [go_defs] header_del_def [go_defs]
  fresh_response_def [go_defs] set_header_def [go_defs] WriteHeader_def [go_defs]
  Write_def [go_defs] http_Error_def [go_defs] http_Redirect_def [go_defs]

lemma status_simps [simp]:
  "status fresh_response = None"
  "status (set_header k v w) = status w"
  "status (WriteHeader c w) = (case status w of None \<Rightarrow> Some c | Some s \<Rightarrow> Some s)"
  "status (Write b w) = (case status w of None \<Rightarrow> Some 200 | Some s \<Rightarrow> Some s)"
  "status (http_Error m c w) = (case status w of None \<Rightarrow> Some c | Some s \<Rightarrow> Some s)"
  "status (http_Redirect l c w) = (case status w of None \<Rightarrow> Some c | Some s \<Rightarrow> Some s)"
  by (auto simp: go_defs Let_def split: option.splits)

end
