(* ===== verification/Security.thy ===== *)
theory Security
  imports GoCrypto GoHTTP
begin

text \<open>
  \<^verbatim>\<open>internal/security\<close>: PKCE verification (\<^verbatim>\<open>pkce.go\<close>), random strings (\<^verbatim>\<open>rand.go\<close>), the
  redirect allowlist (\<^verbatim>\<open>redirect_uri.go\<close>) and the resolution of the client address behind
  trusted proxies with the CIDR check of \<^verbatim>\<open>/authorize\<close> (\<^verbatim>\<open>requestinfo.go\<close>).
\<close>

subsection \<open>pkce.go, rand.go\<close>

definition ValidatePKCE :: "string \<Rightarrow> string \<Rightarrow> bool" where
  "ValidatePKCE codeChallenge codeVerifier \<longleftrightarrow>
    (let hashed = sha256 codeVerifier;
         expected = b64url_encode hashed
     in constant_time_compare expected codeChallenge = 1)"

text \<open>
  The bytes read from \<^verbatim>\<open>crypto/rand\<close> are an input of the model: \<^term>\<open>Inl\<close> is a failing
  reader, on which the code panics. A read of fewer than \<open>n\<close> bytes is a failing read.
\<close>

definition GenerateRandomString :: "nat \<Rightarrow> string result \<Rightarrow> string result" where
  "GenerateRandomString n rnd =
    (case rnd of
       Inl e \<Rightarrow> Inl (''failed to generate secure random string: '' @ e)
     | Inr b \<Rightarrow>
         if length b < n then Inl ''failed to generate secure random string: unexpected EOF''
         else Inr (b64url_encode (take n b)))"

subsection \<open>redirect\_uri.go\<close>

definition allowedRedirectHostSuffixes :: "string list" where
  "allowedRedirectHostSuffixes = [''.claude.ai'', ''.anthropic.com'']"

definition allowedRedirectHostsExact :: "string list" where
  "allowedRedirectHostsExact = [''claude.ai'', ''anthropic.com'']"

fun suffix_loop :: "string list \<Rightarrow> string \<Rightarrow> bool" where
  "suffix_loop [] host = False"
| "suffix_loop (suffix # rest) host = (if has_suffix host suffix then True else suffix_loop rest host)"

definition IsAllowedRedirect :: "string \<Rightarrow> bool" where
  "IsAllowedRedirect uri =
    (case url_parse uri of
       None \<Rightarrow> False
     | Some u \<Rightarrow>
         if url_scheme u \<noteq> ''https'' then False
         else (let host = to_lower (hostname u) in
           if host = [] then False
           else if host \<in> set allowedRedirectHostsExact then True
           else suffix_loop allowedRedirectHostSuffixes host))"

subsection \<open>requestinfo.go\<close>

record RequestInfo =
  SourceIP :: string

text \<open>One entry of a list of addresses and subnets against an address.\<close>

definition trusted_entry :: "ip \<Rightarrow> string \<Rightarrow> bool" where
  "trusted_entry remoteIP tp =
    (if contains tp ''/'' then
       (case parse_cidr tp of None \<Rightarrow> False | Some subnet \<Rightarrow> ipnet_contains subnet remoteIP)
     else (case parse_ip tp of None \<Rightarrow> False | Some trustedIP \<Rightarrow> ip_equal trustedIP remoteIP))"

fun trusted_loop :: "string list \<Rightarrow> ip \<Rightarrow> bool" where
  "trusted_loop [] remoteIP = False"
| "trusted_loop (tp # tps) remoteIP =
    (if trusted_entry remoteIP tp then True else trusted_loop tps remoteIP)"

definition GetRequestInfo :: "request \<Rightarrow> string list \<Rightarrow> RequestInfo" where
  "GetRequestInfo r trustedProxies =
    (let host = (case split_host_port (RemoteAddr r) of
                   None \<Rightarrow> RemoteAddr r
                 | Some (h, _) \<Rightarrow> h)
     in case parse_ip host of
          None \<Rightarrow> \<lparr>SourceIP = host\<rparr>
        | Some remoteIP \<Rightarrow>
            if trusted_loop trustedProxies remoteIP then
              (let xff = header_get (Header r) ''X-Forwarded-For'' in
               if xff \<noteq> [] then
                 (let parts = split_on CHR '','' xff in
                  if length parts = 1 then
                    (let clientIPStr = trim_space (hd parts) in
                     case parse_ip clientIPStr of
                       Some _ \<Rightarrow> \<lparr>SourceIP = clientIPStr\<rparr>
                     | None \<Rightarrow> \<lparr>SourceIP = host\<rparr>)
                  else \<lparr>SourceIP = host\<rparr>)
               else \<lparr>SourceIP = host\<rparr>)
            else \<lparr>SourceIP = host\<rparr>)"

fun allowed_loop :: "string list \<Rightarrow> ip \<Rightarrow> bool" where
  "allowed_loop [] b = False"
| "allowed_loop (cidr # cidrs) b =
    (if \<not> contains cidr ''/'' then
       (case parse_ip cidr of
          Some allowedIP \<Rightarrow> if ip_equal allowedIP b then True else allowed_loop cidrs b
        | None \<Rightarrow> allowed_loop cidrs b)
     else (case parse_cidr cidr of
          Some subnet \<Rightarrow> if ipnet_contains subnet b then True else allowed_loop cidrs b
        | None \<Rightarrow> allowed_loop cidrs b))"

definition IsIPAllowed :: "string \<Rightarrow> string list \<Rightarrow> bool" where
  "IsIPAllowed ipStr allowedCIDRs =
    (case parse_ip ipStr of None \<Rightarrow> False | Some b \<Rightarrow> allowed_loop allowedCIDRs b)"

declare ValidatePKCE_def [model_defs] GenerateRandomString_def [model_defs]
  allowedRedirectHostSuffixes_def [model_defs] allowedRedirectHostsExact_def [model_defs]
  IsAllowedRedirect_def [model_defs] trusted_entry_def [model_defs]
  GetRequestInfo_def [model_defs] IsIPAllowed_def [model_defs]

subsection \<open>PKCE and random strings\<close>

lemma ValidatePKCE_iff: "ValidatePKCE ch v \<longleftrightarrow> ch = b64url_encode (sha256 v)"
  by (auto simp: ValidatePKCE_def Let_def)

lemma ValidatePKCE_length: "ValidatePKCE ch v \<Longrightarrow> length ch = 43"
  by (simp add: ValidatePKCE_iff)

lemma GenerateRandomString_Inr:
  "GenerateRandomString n rnd = Inr s \<Longrightarrow>
    \<exists>b. rnd = Inr b \<and> n \<le> length b \<and> s = b64url_encode (take n b)"
  by (auto simp: GenerateRandomString_def split: sum.splits if_splits)

text \<open>
  C30. PKCE binding. A verifier passes against a stored challenge only if the challenge is the
  43-byte unpadded URL-safe base64 text of a SHA-256 digest, and any two verifiers that pass
  against the same challenge have the same SHA-256 digest: redeeming a code with another
  verifier needs a SHA-256 collision.
\<close>

theorem pkce_binding:
  assumes "ValidatePKCE ch v"
  shows "length ch = 43 \<and> set ch \<subseteq> b64_alphabet \<and> (\<forall>w. ValidatePKCE ch w \<longleftrightarrow> sha256 w = sha256 v)"
  using assms b64url_encode_alphabet by (auto simp: ValidatePKCE_iff dest: b64url_encode_inj)

theorem pkce_binding_witness:
  "ValidatePKCE (b64url_encode (sha256 ''verifier'')) ''verifier'' \<and>
   length (b64url_encode (sha256 ''verifier'')) = 43"
proof -
  have "ValidatePKCE (b64url_encode (sha256 ''verifier'')) ''verifier''"
    by (simp add: ValidatePKCE_iff)
  from this pkce_binding [OF this] show ?thesis by blast
qed

subsection \<open>The redirect allowlist\<close>

text \<open>The host test of \<^const>\<open>IsAllowedRedirect\<close>, on the lowered host.\<close>

definition allowed_host :: "string \<Rightarrow> bool" where
  "allowed_host h \<longleftrightarrow>
    h \<in> {''claude.ai'', ''anthropic.com''} \<or> has_suffix h ''.claude.ai'' \<or> has_suffix h ''.anthropic.com''"

lemma IsAllowedRedirect_eq:
  "IsAllowedRedirect uri \<longleftrightarrow>
    (\<exists>u. url_parse uri = Some u \<and> url_scheme u = ''https'' \<and> allowed_host (to_lower (hostname u)))"
proof -
  have "\<not> allowed_host []" by (simp add: allowed_host_def has_suffix_def)
  then show ?thesis
    by (auto simp: IsAllowedRedirect_def allowed_host_def Let_def allowedRedirectHostsExact_def
        allowedRedirectHostSuffixes_def split: option.splits)
qed

text \<open>
  C31. Redirect allowlist, soundness on the text of the URI. Whatever userinfo, port, path,
  query or fragment an accepted URI carries, its scheme is \<^verbatim>\<open>https\<close> in some case, and the
  text between the last at sign of the authority and the first slash, question mark or hash
  parses as a host whose lower-cased name is an allowed host or ends in a dot and one.
\<close>

theorem redirect_authority_sound:
  assumes "IsAllowedRedirect uri"
  shows "\<exists>sch auth hp tail h. uri = sch @ ''://'' @ auth @ tail \<and> map lower_byte sch = ''https'' \<and>
    set auth \<inter> set ''/?#'' = {} \<and> (tail = [] \<or> hd tail \<in> set ''/?#'') \<and>
    (auth = hp \<or> (\<exists>user. auth = user @ ''@'' @ hp)) \<and> CHR ''@'' \<notin> set hp \<and>
    parse_host hp = Some h \<and> allowed_host (to_lower (hostname (empty_url\<lparr>url_host := h\<rparr>)))"
proof -
  from assms obtain u where u: "url_parse uri = Some u" "url_scheme u = ''https''"
    "allowed_host (to_lower (hostname u))"
    by (auto simp: IsAllowedRedirect_eq)
  from u(3) have "url_host u \<noteq> []"
    by (auto simp: hostname_def allowed_host_def has_suffix_def has_prefix_def Let_def)
  with u obtain sch auth tail where a: "at_authority uri sch auth tail"
    "to_lower sch = ''https''" "parse_authority auth = Some (url_host u)"
    by (metis url_parse_authority list.distinct(1))
  obtain hp where hp: "auth = hp \<or> (\<exists>user. auth = user @ ''@'' @ hp)" "CHR ''@'' \<notin> set hp"
    "parse_host hp = Some (url_host u)"
    using parse_authority_host [OF a(3)] by auto
  have "ascii sch"
    using a(1) by (auto simp: at_authority_def ascii_def list_all_iff scheme_char_def is_letter_def is_digit_def)
  with a(2) have "map lower_byte sch = ''https''" by (simp add: to_lower_ascii)
  moreover have "hostname (empty_url\<lparr>url_host := url_host u\<rparr>) = hostname u"
    by (simp add: hostname_def)
  ultimately show ?thesis
    using a(1) hp u(3) unfolding at_authority_def by metis
qed

lemma redirect_example: "IsAllowedRedirect ''https://claude.ai/cb''"
proof -
  have "url_parse (''https://'' @ ''claude.ai'' @ ''/cb'') =
      Some (empty_url\<lparr>url_scheme := ''https'', url_host := ''claude.ai'', url_path := ''/cb''\<rparr>)"
    by (rule url_parse_plain)
       (simp_all add: plain_host_char_def plain_path_char_def is_letter_def is_digit_def)
  then show ?thesis
    by (simp add: IsAllowedRedirect_eq hostname_plain plain_host_char_def is_letter_def is_digit_def
        lower_byte_def allowed_host_def)
qed

theorem redirect_authority_sound_witness:
  "\<exists>sch auth tail. ''https://claude.ai/cb'' = sch @ ''://'' @ auth @ tail \<and> map lower_byte sch = ''https''"
  using redirect_authority_sound [OF redirect_example] by (elim exE conjE) (intro exI conjI)

lemma plain_host_ascii: "list_all plain_host_char h \<Longrightarrow> ascii h"
  by (auto simp: ascii_def list_all_iff plain_host_char_def is_letter_def is_digit_def)

text \<open>
Redirect allowlist, exact on ordinary URIs. For a host of letters, digits, dots and
  hyphens and a path without escapes, query or fragment, the URI is accepted if and only if
  the host, in any letter case, is an allowed host or a subdomain of one: nothing that merely
  starts or ends with the name, without the dot, passes.
\<close>

theorem redirect_plain_iff:
  assumes "list_all plain_host_char h" and "list_all plain_path_char p" and "p = [] \<or> hd p = CHR ''/''"
  shows "IsAllowedRedirect (''https://'' @ h @ p) \<longleftrightarrow> allowed_host (map lower_byte h)"
  using url_parse_plain [OF assms] assms(1)
  by (simp add: IsAllowedRedirect_eq hostname_plain to_lower_ascii plain_host_ascii)

theorem redirect_plain_iff_witness:
  "IsAllowedRedirect ''https://api.Claude.ai/cb'' \<and> \<not> IsAllowedRedirect ''https://evilclaude.ai/cb''"
proof -
  have "IsAllowedRedirect (''https://'' @ ''api.Claude.ai'' @ ''/cb'') \<longleftrightarrow> allowed_host (map lower_byte ''api.Claude.ai'')"
    by (rule redirect_plain_iff)
       (simp_all add: plain_host_char_def plain_path_char_def is_letter_def is_digit_def)
  moreover have "IsAllowedRedirect (''https://'' @ ''evilclaude.ai'' @ ''/cb'') \<longleftrightarrow> allowed_host (map lower_byte ''evilclaude.ai'')"
    by (rule redirect_plain_iff)
       (simp_all add: plain_host_char_def plain_path_char_def is_letter_def is_digit_def)
  ultimately show ?thesis
    by (simp add: allowed_host_def has_suffix_def lower_byte_def char_of_def bit_0)
qed

definition dotted_i_uri :: string where
  "dotted_i_uri = ''https://anthrop'' @ [CHR 0xC4, CHR 0xB0] @ ''c.com/cb''"

text \<open>
The lower-casing is Unicode-aware, so the allowlist is not the ASCII one: an IDN host
  spelled with U+0130 (capital I with dot above, bytes C4 B0) lowers to a plain \<^verbatim>\<open>i\<close> and is
  taken for an allowed host, although it names another domain.
\<close>

theorem redirect_accepts_dotted_i:
  "IsAllowedRedirect dotted_i_uri \<and>
   (\<exists>u. url_parse dotted_i_uri = Some u \<and> \<not> allowed_host (map lower_byte (hostname u)))"
proof -
  have "url_parse dotted_i_uri = Some (empty_url\<lparr>url_scheme := ''https'',
      url_host := ''anthrop'' @ [CHR 0xC4, CHR 0xB0] @ ''c.com'', url_path := ''/cb''\<rparr>)"
    by (simp add: dotted_i_uri_def go_defs Let_def)
  moreover have "hostname (empty_url\<lparr>url_scheme := ''https'',
      url_host := ''anthrop'' @ [CHR 0xC4, CHR 0xB0] @ ''c.com'', url_path := ''/cb''\<rparr>) =
      ''anthrop'' @ [CHR 0xC4, CHR 0xB0] @ ''c.com''"
    by (simp add: hostname_def has_prefix_def)
  ultimately show ?thesis
    by (simp add: IsAllowedRedirect_eq allowed_host_def has_suffix_def lower_byte_def empty_url_def)
qed

subsection \<open>The client address\<close>

text \<open>The peer's host as \<^const>\<open>GetRequestInfo\<close> reads it from the connection.\<close>

definition peer_host :: "request \<Rightarrow> string" where
  "peer_host r = (case split_host_port (RemoteAddr r) of None \<Rightarrow> RemoteAddr r | Some (h, _) \<Rightarrow> h)"

definition peer_trusted :: "request \<Rightarrow> string list \<Rightarrow> bool" where
  "peer_trusted r tps = (case parse_ip (peer_host r) of None \<Rightarrow> False | Some b \<Rightarrow> trusted_loop tps b)"

lemma length_split_on_1: "length (split_on c s) = 1 \<longleftrightarrow> c \<notin> set s"
proof
  assume "length (split_on c s) = 1"
  then obtain y where y: "split_on c s = [y]" by (auto simp: length_Suc_conv)
  then have "s = y" using join_split [of c s] by simp
  with split_on_no_sep [of y c s] y show "c \<notin> set s" by simp
qed (simp add: split_on_single)

lemma GetRequestInfo_eq:
  "SourceIP (GetRequestInfo r tps) =
    (let xff = header_get (Header r) ''X-Forwarded-For''; cand = trim_space xff
     in if peer_trusted r tps \<and> CHR '','' \<notin> set xff \<and> xff \<noteq> [] \<and> parse_ip cand \<noteq> None
        then cand else peer_host r)"
proof -
  let ?xff = "header_get (Header r) ''X-Forwarded-For''"
  show ?thesis
  proof (cases "CHR '','' \<in> set ?xff")
    case True
    then have "length (split_on CHR '','' ?xff) \<noteq> 1" by (simp only: length_split_on_1) simp
    with True show ?thesis
      by (auto simp: GetRequestInfo_def peer_trusted_def peer_host_def Let_def split: option.splits)
  next
    case False
    then have "split_on CHR '','' ?xff = [?xff]" by (rule split_on_single)
    with False show ?thesis
      by (auto simp: GetRequestInfo_def peer_trusted_def peer_host_def Let_def split: option.splits)
  qed
qed

text \<open>
  C32. Forwarded addresses come from trusted proxies only. If the peer is not a trusted proxy,
  no header changes the address the request is attributed to: it is the peer's. If the
  address differs from the peer's, the peer is trusted and the single
  \<^verbatim>\<open>X-Forwarded-For\<close> entry, trimmed, is a well-formed IP address and is the result.
\<close>

theorem source_ip_from_trusted_proxy:
  assumes "SourceIP (GetRequestInfo r tps) \<noteq> peer_host r"
  shows "peer_trusted r tps \<and> CHR '','' \<notin> set (header_get (Header r) ''X-Forwarded-For'') \<and>
    SourceIP (GetRequestInfo r tps) = trim_space (header_get (Header r) ''X-Forwarded-For'') \<and>
    parse_ip (SourceIP (GetRequestInfo r tps)) \<noteq> None"
  using assms by (auto simp: GetRequestInfo_eq Let_def split: if_splits)

definition proxied_request :: request where
  "proxied_request =
    \<lparr>Method = ''GET'', RemoteAddr = ''127.0.0.1:4711'',
     Header = [(''X-Forwarded-For'', ['' 10.0.0.7''])], URL_Path = ''/authorize'',
     URL_RawPath = [], URL_RawQuery = [], Body = Inr [], Context = []\<rparr>"

lemma proxied_request_source:
  "SourceIP (GetRequestInfo proxied_request [''127.0.0.1'']) = ''10.0.0.7''"
  by code_simp

theorem source_ip_from_trusted_proxy_witness:
  "SourceIP (GetRequestInfo proxied_request [''127.0.0.1'']) \<noteq> peer_host proxied_request \<and>
   peer_trusted proxied_request [''127.0.0.1'']"
proof -
  have "peer_host proxied_request = ''127.0.0.1''" by code_simp
  then have "SourceIP (GetRequestInfo proxied_request [''127.0.0.1'']) \<noteq> peer_host proxied_request"
    by (simp add: proxied_request_source)
  from this source_ip_from_trusted_proxy [OF this] show ?thesis by blast
qed

lemma trusted_loop_iff: "trusted_loop tps b \<longleftrightarrow> (\<exists>tp\<in>set tps. trusted_entry b tp)"
  by (induction tps) auto

lemma allowed_loop_iff: "allowed_loop cs b \<longleftrightarrow> (\<exists>c\<in>set cs. trusted_entry b c)"
  by (induction cs) (auto simp: trusted_entry_def split: option.splits if_splits)

text \<open>
  C33. The two address checks of the code agree. The loop that decides whether a peer is a
  trusted proxy and the loop that gates \<^verbatim>\<open>/authorize\<close> are written separately; on the same
  list and a parsed address they give the same answer, and malformed entries match nothing.
\<close>

theorem ip_checks_agree:
  "IsIPAllowed s cidrs \<longleftrightarrow> (case parse_ip s of None \<Rightarrow> False | Some b \<Rightarrow> trusted_loop cidrs b)"
  by (auto simp: IsIPAllowed_def allowed_loop_iff trusted_loop_iff split: option.splits)

lemma ip_to4_v4: "length b = 4 \<Longrightarrow> ip_to4 (v4_prefix @ b) = Some b"
  by (simp add: ip_to4_def v4_prefix_def)

lemma length_v4_prefix [simp]: "length v4_prefix = 12"
  by (simp add: v4_prefix_def)

lemma length_cidr_mask: "length (cidr_mask n (8 * k)) = k"
  by (simp add: cidr_mask_def)

lemma parse_cidr_v4:
  assumes "parse_addr a = Some (V4 net, [])" and "CHR ''/'' \<notin> set a" and "dtoi m = Some n" and "n \<le> 32"
  shows "parse_cidr (a @ ''/'' @ m) =
    Some \<lparr>net_ip = map2 (AND) net (cidr_mask n 32), net_mask = cidr_mask n 32\<rparr>"
proof -
  have len: "length (cidr_mask n 32) = 4" using length_cidr_mask [of n 4] by simp
  moreover have "length net = 4" using assms(1) by (rule parse_addr_length)
  ultimately have "ip_mask (v4_prefix @ net) (cidr_mask n 32) = Some (map2 (AND) net (cidr_mask n 32))"
    by (simp add: ip_mask_def v4_prefix_def)
  with assms show ?thesis
    by (simp add: parse_cidr_def addr_bits_def addr_as16_def Let_def)
qed

lemma map2_AND_idem: "length xs = length m \<Longrightarrow> map2 (AND) (map2 (AND) xs m) m = map2 (AND) xs (m :: ip)"
  by (induction xs m rule: list_induct2) (auto simp: and.assoc)

text \<open>
What a CIDR entry allows. For an IPv4 entry \<^verbatim>\<open>a/n\<close> and an IPv4 client address, the
  check passes exactly when the two addresses, read as 32-bit numbers, agree in their leading
  \<open>n\<close> bits.
\<close>

theorem ip_allowed_ipv4_prefix:
  assumes a: "parse_addr a = Some (V4 net, [])" "CHR ''/'' \<notin> set a"
    and m: "dtoi m = Some n" "n \<le> 32"
    and s: "parse_addr s = Some (V4 x, [])"
  shows "IsIPAllowed s [a @ ''/'' @ m] \<longleftrightarrow> be_nat net div 2 ^ (32 - n) = be_nat x div 2 ^ (32 - n)"
proof -
  have len: "length net = 4" "length x = 4" "length (cidr_mask n 32) = 4"
    using parse_addr_length(1) [OF a(1)] parse_addr_length(1) [OF s] length_cidr_mask [of n 4] by simp_all
  have "contains (a @ ''/'' @ m) ''/''" by (simp add: contains_single)
  then have "IsIPAllowed s [a @ ''/'' @ m] \<longleftrightarrow>
      ipnet_contains \<lparr>net_ip = map2 (AND) net (cidr_mask n 32), net_mask = cidr_mask n 32\<rparr> (v4_prefix @ x)"
    using s parse_cidr_v4 [OF a m]
    by (simp add: IsIPAllowed_def parse_ip_def addr_as16_def)
  also have "\<dots> \<longleftrightarrow> map2 (AND) net (cidr_mask n 32) = map2 (AND) x (cidr_mask n 32)"
    using len by (simp add: ipnet_contains_def network_and_mask_def ip_to4_v4 map2_AND_idem)
      (simp add: ip_to4_def map2_AND_idem)
  also have "\<dots> \<longleftrightarrow> be_nat net div 2 ^ (32 - n) = be_nat x div 2 ^ (32 - n)"
    using mask_eq_iff_prefix [of net 4 x n] len m by simp
  finally show ?thesis .
qed

theorem ip_allowed_ipv4_prefix_witness:
  "IsIPAllowed ''10.200.1.2'' [''10.0.0.0'' @ ''/'' @ ''8''] \<and> \<not> IsIPAllowed ''11.0.0.1'' [''10.0.0.0'' @ ''/'' @ ''8'']"
proof -
  have a: "parse_addr ''10.0.0.0'' = Some (V4 [10, 0, 0, 0], [])" by code_simp
  have m: "dtoi ''8'' = Some 8" by (simp add: dtoi_def)
  have s: "parse_addr ''10.200.1.2'' = Some (V4 [10, 200, 1, 2], [])" by code_simp
  have t: "parse_addr ''11.0.0.1'' = Some (V4 [11, 0, 0, 1], [])" by code_simp
  have c: "CHR ''/'' \<notin> set ''10.0.0.0''" and n: "(8 :: nat) \<le> 32" by simp_all
  have "IsIPAllowed ''10.200.1.2'' [''10.0.0.0'' @ ''/'' @ ''8'']"
    unfolding ip_allowed_ipv4_prefix [OF a c m n s] by simp
  moreover have "\<not> IsIPAllowed ''11.0.0.1'' [''10.0.0.0'' @ ''/'' @ ''8'']"
    unfolding ip_allowed_ipv4_prefix [OF a c m n t] by simp
  ultimately show ?thesis by (rule conjI)
qed

end
