(* ===== verification/Config.thy ===== *)
theory Config
  imports GoURL Prelude
begin

text \<open>
  \<^verbatim>\<open>internal/config\<close>: the configuration record, the binder that fills it from the
  environment (the reflection over struct tags is a table of fields: setter, variable, alias,
  default) and its validation. The environment is a partial map. The iteration order of the
  map of URLs in \<^verbatim>\<open>Validate\<close> is an argument, because Go leaves it open. The wording of an
  error of \<^verbatim>\<open>strconv\<close> or \<^verbatim>\<open>url.Parse\<close> after the program's own prefix is left out.
\<close>

record OAuthProxyConfig =
  cfg_HugoMCPURL :: string
  cfg_HugoHost :: string
  cfg_HugoToken :: string
  cfg_ClientID :: string
  cfg_ClientSecret :: string
  cfg_ProxyBaseURL :: string
  cfg_TokensFile :: string
  cfg_TokensDB :: string
  cfg_UseSQLite :: bool
  cfg_AuditLogFile :: string
  cfg_MCPCACert :: string
  cfg_AuthCodeTTL :: int
  cfg_AccessTokenTTL :: int
  cfg_TrustedProxies :: "string list"
  cfg_TrustedAuthorizeCIDRs :: "string list"
  cfg_MandatoryPKCE :: bool
  cfg_AllowTokenStoreRecovery :: bool
  cfg_AnonymousEnabled :: bool
  cfg_AnonymousPublicTools :: "string list"

record RuntimeConfig =
  cfg_ListenHost :: string
  cfg_ListenPort :: int
  cfg_LogLevel :: string

record Config =
  OAuthProxy :: OAuthProxyConfig
  Runtime :: RuntimeConfig

definition zero_oauth :: OAuthProxyConfig where
  "zero_oauth = \<lparr>cfg_HugoMCPURL = [], cfg_HugoHost = [], cfg_HugoToken = [], cfg_ClientID = [],
     cfg_ClientSecret = [], cfg_ProxyBaseURL = [], cfg_TokensFile = [], cfg_TokensDB = [],
     cfg_UseSQLite = False, cfg_AuditLogFile = [], cfg_MCPCACert = [], cfg_AuthCodeTTL = 0,
     cfg_AccessTokenTTL = 0, cfg_TrustedProxies = [], cfg_TrustedAuthorizeCIDRs = [],
     cfg_MandatoryPKCE = False, cfg_AllowTokenStoreRecovery = False, cfg_AnonymousEnabled = False,
     cfg_AnonymousPublicTools = []\<rparr>"

definition zero_runtime :: RuntimeConfig where
  "zero_runtime = \<lparr>cfg_ListenHost = [], cfg_ListenPort = 0, cfg_LogLevel = []\<rparr>"

type_synonym env = "string \<Rightarrow> string option"

subsection \<open>The fields and their tags\<close>

datatype 'c setter = FString "string \<Rightarrow> 'c \<Rightarrow> 'c" | FInt "int \<Rightarrow> 'c \<Rightarrow> 'c"
  | FBool "bool \<Rightarrow> 'c \<Rightarrow> 'c" | FSlice "string list \<Rightarrow> 'c \<Rightarrow> 'c"

record 'c field =
  setter :: "'c setter"
  env_key :: string
  env_alias :: string
  env_default :: string

definition tag :: "'c setter \<Rightarrow> string \<Rightarrow> string \<Rightarrow> string \<Rightarrow> 'c field" where
  "tag s k a d = \<lparr>setter = s, env_key = k, env_alias = a, env_default = d\<rparr>"

definition oauth_fields :: "OAuthProxyConfig field list" where
  "oauth_fields =
    [tag (FString (\<lambda>v c. c\<lparr>cfg_HugoMCPURL := v\<rparr>)) ''HUGO_MCP_URL'' ''GRAV_MCP_URL'' ''http://127.0.0.1/api/mcp'',
     tag (FString (\<lambda>v c. c\<lparr>cfg_HugoHost := v\<rparr>)) ''HUGO_HOST'' ''GRAV_HOST'' ''www.arleo.eu'',
     tag (FString (\<lambda>v c. c\<lparr>cfg_HugoToken := v\<rparr>)) ''HUGO_TOKEN'' ''GRAV_TOKEN'' [],
     tag (FString (\<lambda>v c. c\<lparr>cfg_ClientID := v\<rparr>)) ''CLIENT_ID'' ''MCP_CLIENT_ID'' [],
     tag (FString (\<lambda>v c. c\<lparr>cfg_ClientSecret := v\<rparr>)) ''CLIENT_SECRET'' ''MCP_CLIENT_SECRET'' [],
     tag (FString (\<lambda>v c. c\<lparr>cfg_ProxyBaseURL := v\<rparr>)) ''PROXY_BASE_URL'' ''MCP_PROXY_BASE_URL'' ''https://www.arleo.eu'',
     tag (FString (\<lambda>v c. c\<lparr>cfg_TokensFile := v\<rparr>)) ''TOKENS_FILE'' ''MCP_TOKEN_STORE'' ''/opt/mcp-oauth-proxy/tokens.json'',
     tag (FString (\<lambda>v c. c\<lparr>cfg_TokensDB := v\<rparr>)) ''TOKENS_DB'' ''MCP_TOKEN_DB'' ''/opt/mcp-oauth-proxy/tokens.db'',
     tag (FBool (\<lambda>v c. c\<lparr>cfg_UseSQLite := v\<rparr>)) ''USE_SQLITE'' [] ''true'',
     tag (FString (\<lambda>v c. c\<lparr>cfg_AuditLogFile := v\<rparr>)) ''AUDIT_LOG_FILE'' ''MCP_AUDIT_LOG'' ''/var/log/mcp-oauth/audit.log'',
     tag (FString (\<lambda>v c. c\<lparr>cfg_MCPCACert := v\<rparr>)) ''MCP_CA_CERT'' ''MCP_CA_CERT'' [],
     tag (FInt (\<lambda>v c. c\<lparr>cfg_AuthCodeTTL := v\<rparr>)) ''AUTH_CODE_TTL'' [] ''300'',
     tag (FInt (\<lambda>v c. c\<lparr>cfg_AccessTokenTTL := v\<rparr>)) ''ACCESS_TOKEN_TTL'' [] ''86400'',
     tag (FSlice (\<lambda>v c. c\<lparr>cfg_TrustedProxies := v\<rparr>)) ''TRUSTED_PROXIES'' [] ''127.0.0.1,::1'',
     tag (FSlice (\<lambda>v c. c\<lparr>cfg_TrustedAuthorizeCIDRs := v\<rparr>)) ''TRUSTED_AUTHORIZE_CIDRS'' [] ''127.0.0.1/32,::1/128'',
     tag (FBool (\<lambda>v c. c\<lparr>cfg_MandatoryPKCE := v\<rparr>)) ''MANDATORY_PKCE'' [] ''true'',
     tag (FBool (\<lambda>v c. c\<lparr>cfg_AllowTokenStoreRecovery := v\<rparr>)) ''ALLOW_TOKEN_STORE_RECOVERY'' [] ''false'',
     tag (FBool (\<lambda>v c. c\<lparr>cfg_AnonymousEnabled := v\<rparr>)) ''ANONYMOUS_ENABLED'' [] ''false'',
     tag (FSlice (\<lambda>v c. c\<lparr>cfg_AnonymousPublicTools := v\<rparr>)) ''ANONYMOUS_PUBLIC_TOOLS'' [] []]"

definition runtime_fields :: "RuntimeConfig field list" where
  "runtime_fields =
    [tag (FString (\<lambda>v c. c\<lparr>cfg_ListenHost := v\<rparr>)) ''LISTEN_HOST'' [] ''127.0.0.1'',
     tag (FInt (\<lambda>v c. c\<lparr>cfg_ListenPort := v\<rparr>)) ''LISTEN_PORT'' [] ''8083'',
     tag (FString (\<lambda>v c. c\<lparr>cfg_LogLevel := v\<rparr>)) ''LOG_LEVEL'' [] ''info'']"

subsection \<open>bindEnv\<close>

text \<open>The value a field is bound from: \<^term>\<open>None\<close> when the field is left as it is.\<close>

definition env_value :: "env \<Rightarrow> 'c field \<Rightarrow> string option" where
  "env_value E f =
    (let found = (case E (env_key f) of
           Some v \<Rightarrow> Some v
         | None \<Rightarrow> if env_alias f \<noteq> [] then E (env_alias f) else None);
         envVal = (case found of Some v \<Rightarrow> v | None \<Rightarrow> env_default f)
     in if found = None \<and> envVal = [] then None else Some envVal)"

definition split_slice :: "string \<Rightarrow> string list" where
  "split_slice envVal = map trim_space (split_on CHR '','' envVal)"

definition set_field :: "'c field \<Rightarrow> string \<Rightarrow> 'c \<Rightarrow> 'c result" where
  "set_field f envVal c =
    (case setter f of
       FString g \<Rightarrow> Inr (g envVal c)
     | FInt g \<Rightarrow>
         (case atoi envVal of
            None \<Rightarrow> Inl (''invalid value for '' @ env_key f @ '': '')
          | Some iv \<Rightarrow> Inr (g iv c))
     | FBool g \<Rightarrow>
         (case parse_bool envVal of
            None \<Rightarrow> Inl (''invalid value for '' @ env_key f @ '': '')
          | Some bv \<Rightarrow> Inr (g bv c))
     | FSlice g \<Rightarrow> Inr (g (split_slice envVal) c))"

fun bind_loop :: "env \<Rightarrow> 'c field list \<Rightarrow> 'c \<Rightarrow> 'c result" where
  "bind_loop E [] c = Inr c"
| "bind_loop E (f # fs) c =
    (if env_key f = [] then bind_loop E fs c
     else case env_value E f of
       None \<Rightarrow> bind_loop E fs c
     | Some envVal \<Rightarrow>
         (case set_field f envVal c of
            Inl e \<Rightarrow> Inl e
          | Inr c' \<Rightarrow> bind_loop E fs c'))"

definition bindEnv :: "env \<Rightarrow> Config result" where
  "bindEnv E =
    (case bind_loop E oauth_fields zero_oauth of
       Inl e \<Rightarrow> Inl e
     | Inr o' \<Rightarrow>
         (case bind_loop E runtime_fields zero_runtime of
            Inl e \<Rightarrow> Inl e
          | Inr r \<Rightarrow> Inr \<lparr>OAuthProxy = o', Runtime = r\<rparr>))"

subsection \<open>Validate, Load\<close>

definition check_url :: "string \<Rightarrow> string \<Rightarrow> unit result" where
  "check_url envName raw =
    (if raw = [] then Inl (envName @ '' must not be empty'')
     else case url_parse raw of
       None \<Rightarrow> Inl (envName @ '' is not a valid URL: '')
     | Some u \<Rightarrow>
         if url_scheme u \<noteq> ''http'' \<and> url_scheme u \<noteq> ''https'' then
           Inl (envName @ '' must use http or https scheme, got '' @ [CHR 0x22] @ url_scheme u @ [CHR 0x22])
         else if url_host u = [] then Inl (envName @ '' must include a host'')
         else Inr ())"

fun check_urls :: "(string \<times> string) list \<Rightarrow> unit result" where
  "check_urls [] = Inr ()"
| "check_urls ((envName, raw) # rest) =
    (case check_url envName raw of Inl e \<Rightarrow> Inl e | Inr _ \<Rightarrow> check_urls rest)"

definition Validate :: "bool \<Rightarrow> Config \<Rightarrow> unit result" where
  "Validate hugo_first c =
    (let o' = OAuthProxy c;
         urls = [(''HUGO_MCP_URL'', cfg_HugoMCPURL o'), (''PROXY_BASE_URL'', cfg_ProxyBaseURL o')] in
     if cfg_ClientID o' = [] then Inl ''CLIENT_ID is required''
     else if cfg_ClientSecret o' = [] then Inl ''CLIENT_SECRET is required''
     else if cfg_HugoToken o' = [] then Inl ''HUGO_TOKEN is required''
     else case check_urls (if hugo_first then urls else rev urls) of
       Inl e \<Rightarrow> Inl e
     | Inr _ \<Rightarrow>
         if cfg_AuthCodeTTL o' \<le> 0 then
           Inl (''AUTH_CODE_TTL must be > 0, got '' @ show_int (cfg_AuthCodeTTL o'))
         else if cfg_AccessTokenTTL o' \<le> 0 then
           Inl (''ACCESS_TOKEN_TTL must be > 0, got '' @ show_int (cfg_AccessTokenTTL o'))
         else if cfg_AnonymousEnabled o' \<and> length (cfg_AnonymousPublicTools o') = 0 then
           Inl ''ANONYMOUS_PUBLIC_TOOLS must not be empty when ANONYMOUS_ENABLED=true''
         else Inr ())"

definition deprecation_warnings :: "env \<Rightarrow> string list" where
  "deprecation_warnings E =
    concat (map (\<lambda>(legacy, replacement).
        if E legacy \<noteq> None \<and> E replacement = None
        then [''[WARN] '' @ legacy @ '' is deprecated, use '' @ replacement @ [CHR 0x0A]] else [])
      [(''GRAV_MCP_URL'', ''HUGO_MCP_URL''), (''GRAV_TOKEN'', ''HUGO_TOKEN''), (''GRAV_HOST'', ''HUGO_HOST'')])"

text \<open>The result and what is written to standard error.\<close>

definition Load :: "bool \<Rightarrow> env \<Rightarrow> Config result \<times> string list" where
  "Load hugo_first E =
    (case bindEnv E of
       Inl e \<Rightarrow> (Inl e, [])
     | Inr c \<Rightarrow>
         (case Validate hugo_first c of
            Inl e \<Rightarrow> (Inl e, deprecation_warnings E)
          | Inr _ \<Rightarrow> (Inr c, deprecation_warnings E)))"

declare zero_oauth_def [model_defs] zero_runtime_def [model_defs] tag_def [model_defs]
  env_value_def [model_defs] split_slice_def [model_defs] set_field_def [model_defs]
  bindEnv_def [model_defs] check_url_def [model_defs] Validate_def [model_defs]
  deprecation_warnings_def [model_defs] Load_def [model_defs]

subsection \<open>What the environment binds\<close>

text \<open>The variable, else its alias, else the default.\<close>

definition env_str :: "env \<Rightarrow> string \<Rightarrow> string \<Rightarrow> string \<Rightarrow> string" where
  "env_str E k a d =
    (case E k of Some v \<Rightarrow> v
     | None \<Rightarrow> (case (if a = [] then None else E a) of Some v \<Rightarrow> v | None \<Rightarrow> d))"

lemma env_value_tag:
  "env_value E (tag s k a d) =
    (if E k = None \<and> (a = [] \<or> E a = None) \<and> d = [] then None else Some (env_str E k a d))"
  by (auto simp: env_value_def tag_def env_str_def split: option.splits)

lemma set_field_tag [simp]:
  "set_field (tag (FString g) k a d) v c = Inr (g v c)"
  "set_field (tag (FSlice h) k a d) v c = Inr (h (split_slice v) c)"
  "set_field (tag (FInt i) k a d) v c =
    (case atoi v of None \<Rightarrow> Inl (''invalid value for '' @ k @ '': '') | Some iv \<Rightarrow> Inr (i iv c))"
  "set_field (tag (FBool j) k a d) v c =
    (case parse_bool v of None \<Rightarrow> Inl (''invalid value for '' @ k @ '': '') | Some bv \<Rightarrow> Inr (j bv c))"
  by (simp_all add: set_field_def tag_def split: option.split)

lemma env_key_tag [simp]: "env_key (tag s k a d) = k"
  by (simp add: tag_def)

lemma env_str_unset: "E k = None \<Longrightarrow> a = [] \<or> E a = None \<Longrightarrow> env_str E k a d = d"
  by (auto simp: env_str_def)

lemma bind_string:
  assumes "k \<noteq> []" and "d = [] \<Longrightarrow> g [] c = c"
  shows "bind_loop E (tag (FString g) k a d # fs) c = bind_loop E fs (g (env_str E k a d) c)"
  using assms env_str_unset [of E k a d] by (auto simp: env_value_tag)

lemma bind_slice:
  assumes "k \<noteq> []" and "d \<noteq> []"
  shows "bind_loop E (tag (FSlice g) k a d # fs) c = bind_loop E fs (g (split_slice (env_str E k a d)) c)"
  using assms by (simp add: env_value_tag)

lemma bind_slice_empty:
  assumes "k \<noteq> []" and "g [] c = c"
  shows "bind_loop E (tag (FSlice g) k [] [] # fs) c =
    bind_loop E fs (g (case E k of None \<Rightarrow> [] | Some v \<Rightarrow> split_slice v) c)"
  using assms by (cases "E k") (simp_all add: env_value_tag env_str_def)

lemma bind_int:
  assumes "bind_loop E (tag (FInt g) k a d # fs) c = Inr c'" and "k \<noteq> []" and "d \<noteq> []"
  obtains iv where "atoi (env_str E k a d) = Some iv" and "bind_loop E fs (g iv c) = Inr c'"
  using assms by (cases "atoi (env_str E k a d)") (simp_all add: env_value_tag)

lemma bind_bool:
  assumes "bind_loop E (tag (FBool g) k a d # fs) c = Inr c'" and "k \<noteq> []" and "d \<noteq> []"
  obtains bv where "parse_bool (env_str E k a d) = Some bv" and "bind_loop E fs (g bv c) = Inr c'"
  using assms by (cases "parse_bool (env_str E k a d)") (simp_all add: env_value_tag)

lemma bind_oauth:
  assumes "bind_loop E oauth_fields zero_oauth = Inr c"
  shows "c = \<lparr>cfg_HugoMCPURL = env_str E ''HUGO_MCP_URL'' ''GRAV_MCP_URL'' ''http://127.0.0.1/api/mcp'',
      cfg_HugoHost = env_str E ''HUGO_HOST'' ''GRAV_HOST'' ''www.arleo.eu'',
      cfg_HugoToken = env_str E ''HUGO_TOKEN'' ''GRAV_TOKEN'' [],
      cfg_ClientID = env_str E ''CLIENT_ID'' ''MCP_CLIENT_ID'' [],
      cfg_ClientSecret = env_str E ''CLIENT_SECRET'' ''MCP_CLIENT_SECRET'' [],
      cfg_ProxyBaseURL = env_str E ''PROXY_BASE_URL'' ''MCP_PROXY_BASE_URL'' ''https://www.arleo.eu'',
      cfg_TokensFile = env_str E ''TOKENS_FILE'' ''MCP_TOKEN_STORE'' ''/opt/mcp-oauth-proxy/tokens.json'',
      cfg_TokensDB = env_str E ''TOKENS_DB'' ''MCP_TOKEN_DB'' ''/opt/mcp-oauth-proxy/tokens.db'',
      cfg_UseSQLite = the (parse_bool (env_str E ''USE_SQLITE'' [] ''true'')),
      cfg_AuditLogFile = env_str E ''AUDIT_LOG_FILE'' ''MCP_AUDIT_LOG'' ''/var/log/mcp-oauth/audit.log'',
      cfg_MCPCACert = env_str E ''MCP_CA_CERT'' ''MCP_CA_CERT'' [],
      cfg_AuthCodeTTL = the (atoi (env_str E ''AUTH_CODE_TTL'' [] ''300'')),
      cfg_AccessTokenTTL = the (atoi (env_str E ''ACCESS_TOKEN_TTL'' [] ''86400'')),
      cfg_TrustedProxies = split_slice (env_str E ''TRUSTED_PROXIES'' [] ''127.0.0.1,::1''),
      cfg_TrustedAuthorizeCIDRs = split_slice (env_str E ''TRUSTED_AUTHORIZE_CIDRS'' [] ''127.0.0.1/32,::1/128''),
      cfg_MandatoryPKCE = the (parse_bool (env_str E ''MANDATORY_PKCE'' [] ''true'')),
      cfg_AllowTokenStoreRecovery = the (parse_bool (env_str E ''ALLOW_TOKEN_STORE_RECOVERY'' [] ''false'')),
      cfg_AnonymousEnabled = the (parse_bool (env_str E ''ANONYMOUS_ENABLED'' [] ''false'')),
      cfg_AnonymousPublicTools = (case E ''ANONYMOUS_PUBLIC_TOOLS'' of None \<Rightarrow> [] | Some v \<Rightarrow> split_slice v)\<rparr>"
  using assms
  apply (simp add: oauth_fields_def zero_oauth_def bind_string del: bind_loop.simps)
  apply (erule bind_bool, simp, simp)
  apply (simp add: bind_string del: bind_loop.simps)
  apply (erule bind_int, simp, simp)
  apply (erule bind_int, simp, simp)
  apply (simp add: bind_slice del: bind_loop.simps)
  apply (erule bind_bool, simp, simp)
  apply (erule bind_bool, simp, simp)
  apply (erule bind_bool, simp, simp)
  apply (simp add: bind_slice_empty del: bind_loop.simps(2))
  done

definition url_ok :: "string \<Rightarrow> bool" where
  "url_ok raw \<longleftrightarrow>
    (\<exists>u. url_parse raw = Some u \<and> (url_scheme u = ''http'' \<or> url_scheme u = ''https'') \<and> url_host u \<noteq> [])"

lemma check_url_iff: "check_url n raw = Inr x \<longleftrightarrow> raw \<noteq> [] \<and> url_ok raw"
  by (auto simp: check_url_def url_ok_def split: option.splits if_splits)

lemma check_urls_iff: "check_urls us = Inr x \<longleftrightarrow> list_all (\<lambda>nr. snd nr \<noteq> [] \<and> url_ok (snd nr)) us"
proof (induction us)
  case (Cons nr us)
  obtain n r where nr: "nr = (n, r)" by (cases nr)
  show ?case
  proof (cases "check_url n r")
    case (Inl e)
    then have "\<not> (r \<noteq> [] \<and> url_ok r)" using check_url_iff [of n r] by auto
    with Inl show ?thesis by (auto simp: nr)
  next
    case (Inr y)
    then show ?thesis using check_url_iff [of n r] Cons.IH by (simp add: nr)
  qed
qed simp

text \<open>The conditions that make a configuration valid.\<close>

definition valid_config :: "Config \<Rightarrow> bool" where
  "valid_config c \<longleftrightarrow>
    (let o' = OAuthProxy c in
      cfg_ClientID o' \<noteq> [] \<and> cfg_ClientSecret o' \<noteq> [] \<and> cfg_HugoToken o' \<noteq> [] \<and>
      cfg_HugoMCPURL o' \<noteq> [] \<and> url_ok (cfg_HugoMCPURL o') \<and>
      cfg_ProxyBaseURL o' \<noteq> [] \<and> url_ok (cfg_ProxyBaseURL o') \<and>
      0 < cfg_AuthCodeTTL o' \<and> 0 < cfg_AccessTokenTTL o' \<and>
      (cfg_AnonymousEnabled o' \<longrightarrow> cfg_AnonymousPublicTools o' \<noteq> []))"

lemma Validate_iff: "Validate hf c = Inr x \<longleftrightarrow> valid_config c"
proof -
  let ?us = "[(''HUGO_MCP_URL'', cfg_HugoMCPURL (OAuthProxy c)), (''PROXY_BASE_URL'', cfg_ProxyBaseURL (OAuthProxy c))]"
  have u: "check_urls (if hf then ?us else rev ?us) = Inr y \<longleftrightarrow>
      cfg_HugoMCPURL (OAuthProxy c) \<noteq> [] \<and> url_ok (cfg_HugoMCPURL (OAuthProxy c)) \<and>
      cfg_ProxyBaseURL (OAuthProxy c) \<noteq> [] \<and> url_ok (cfg_ProxyBaseURL (OAuthProxy c))" for y
    unfolding check_urls_iff by auto
  show ?thesis
  proof (cases "check_urls (if hf then ?us else rev ?us)")
    case (Inl e)
    with u show ?thesis by (auto simp: Validate_def valid_config_def Let_def)
  next
    case (Inr y)
    with u [of y] show ?thesis by (auto simp: Validate_def valid_config_def Let_def)
  qed
qed

definition sample_env :: env where
  "sample_env = map_of [(''CLIENT_ID'', ''me''), (''MCP_CLIENT_SECRET'', ''s3''), (''HUGO_TOKEN'', ''h''),
     (''ANONYMOUS_ENABLED'', ''true''), (''ANONYMOUS_PUBLIC_TOOLS'', [])]"

definition sample_oauth :: OAuthProxyConfig where
  "sample_oauth = \<lparr>cfg_HugoMCPURL = ''http://127.0.0.1/api/mcp'', cfg_HugoHost = ''www.arleo.eu'',
     cfg_HugoToken = ''h'', cfg_ClientID = ''me'', cfg_ClientSecret = ''s3'',
     cfg_ProxyBaseURL = ''https://www.arleo.eu'', cfg_TokensFile = ''/opt/mcp-oauth-proxy/tokens.json'',
     cfg_TokensDB = ''/opt/mcp-oauth-proxy/tokens.db'', cfg_UseSQLite = True,
     cfg_AuditLogFile = ''/var/log/mcp-oauth/audit.log'', cfg_MCPCACert = [], cfg_AuthCodeTTL = 300,
     cfg_AccessTokenTTL = 86400, cfg_TrustedProxies = [''127.0.0.1'', ''::1''],
     cfg_TrustedAuthorizeCIDRs = [''127.0.0.1/32'', ''::1/128''], cfg_MandatoryPKCE = True,
     cfg_AllowTokenStoreRecovery = False, cfg_AnonymousEnabled = True, cfg_AnonymousPublicTools = [[]]\<rparr>"

definition sample_config :: Config where
  "sample_config = \<lparr>OAuthProxy = sample_oauth,
     Runtime = \<lparr>cfg_ListenHost = ''127.0.0.1'', cfg_ListenPort = 8083, cfg_LogLevel = ''info''\<rparr>\<rparr>"

lemma sample_values:
  "atoi ''8083'' = Some 8083" "atoi ''300'' = Some 300" "atoi ''86400'' = Some 86400"
  "parse_bool ''true'' = Some True" "parse_bool ''false'' = Some False"
  by (simp_all add: atoi_def parse_bool_def)

lemma sample_slices:
  "split_slice ''127.0.0.1,::1'' = [''127.0.0.1'', ''::1'']"
  "split_slice ''127.0.0.1/32,::1/128'' = [''127.0.0.1/32'', ''::1/128'']" "split_slice [] = [[]]"
  by code_simp+

lemma sample_bind_runtime: "bind_loop sample_env runtime_fields zero_runtime = Inr (Runtime sample_config)"
  by (simp add: runtime_fields_def zero_runtime_def bind_string env_value_tag env_str_def sample_env_def
      sample_config_def sample_values sample_slices)

lemma sample_bind_oauth: "bind_loop sample_env oauth_fields zero_oauth = Inr sample_oauth"
  by (simp add: oauth_fields_def zero_oauth_def bind_string env_value_tag env_str_def sample_env_def
      sample_oauth_def sample_values sample_slices)

lemma sample_urls: "url_ok ''http://127.0.0.1/api/mcp''" "url_ok ''https://www.arleo.eu''"
proof -
  have "check_url [] ''http://127.0.0.1/api/mcp'' = Inr ()" "check_url [] ''https://www.arleo.eu'' = Inr ()"
    by code_simp+
  then show "url_ok ''http://127.0.0.1/api/mcp''" "url_ok ''https://www.arleo.eu''"
    using check_url_iff by blast+
qed

lemma sample_valid: "valid_config sample_config"
  using sample_urls by (simp add: valid_config_def sample_config_def sample_oauth_def)

lemma sample_config_load: "Load hugo_first sample_env = (Inr sample_config, [])"
proof -
  have "bindEnv sample_env = Inr sample_config"
    using sample_bind_runtime sample_bind_oauth by (simp add: bindEnv_def sample_config_def)
  moreover have "deprecation_warnings sample_env = []" by code_simp
  moreover obtain y where "Validate hugo_first sample_config = Inr y"
    using sample_valid Validate_iff by blast
  ultimately show ?thesis by (simp add: Load_def)
qed

text \<open>
  C35. Loading the configuration succeeds exactly on valid environments, whatever order Go
  iterates the map of URLs in: the result, when there is one, is what the binder read, and it
  has a client id, a secret and a backend token, two http(s) URLs with a host, positive
  lifetimes and, in anonymous mode, a list of public tools.
\<close>

theorem config_load_iff:
  "fst (Load hugo_first E) = Inr c \<longleftrightarrow> bindEnv E = Inr c \<and> valid_config c"
proof (cases "bindEnv E")
  case (Inl e)
  then show ?thesis by (simp add: Load_def)
next
  case (Inr d)
  show ?thesis
  proof (cases "Validate hugo_first d")
    case (Inl e)
    then have "\<not> valid_config d" using Validate_iff [of hugo_first d] by auto
    with Inl Inr show ?thesis by (auto simp: Load_def)
  next
    case v: (Inr y)
    then have "valid_config d" using Validate_iff [of hugo_first d] by auto
    with v Inr show ?thesis by (auto simp: Load_def)
  qed
qed

text \<open>
  C36. Where every OAuth setting comes from: its variable, else its alias, else its default.
  In particular PKCE is mandatory, anonymous access and store recovery are off, and only the
  loopback addresses are trusted, unless the environment says otherwise.
\<close>

theorem config_reads_environment:
  assumes "Load hugo_first E = (Inr c, w)"
  shows "OAuthProxy c = \<lparr>cfg_HugoMCPURL = env_str E ''HUGO_MCP_URL'' ''GRAV_MCP_URL'' ''http://127.0.0.1/api/mcp'',
      cfg_HugoHost = env_str E ''HUGO_HOST'' ''GRAV_HOST'' ''www.arleo.eu'',
      cfg_HugoToken = env_str E ''HUGO_TOKEN'' ''GRAV_TOKEN'' [],
      cfg_ClientID = env_str E ''CLIENT_ID'' ''MCP_CLIENT_ID'' [],
      cfg_ClientSecret = env_str E ''CLIENT_SECRET'' ''MCP_CLIENT_SECRET'' [],
      cfg_ProxyBaseURL = env_str E ''PROXY_BASE_URL'' ''MCP_PROXY_BASE_URL'' ''https://www.arleo.eu'',
      cfg_TokensFile = env_str E ''TOKENS_FILE'' ''MCP_TOKEN_STORE'' ''/opt/mcp-oauth-proxy/tokens.json'',
      cfg_TokensDB = env_str E ''TOKENS_DB'' ''MCP_TOKEN_DB'' ''/opt/mcp-oauth-proxy/tokens.db'',
      cfg_UseSQLite = the (parse_bool (env_str E ''USE_SQLITE'' [] ''true'')),
      cfg_AuditLogFile = env_str E ''AUDIT_LOG_FILE'' ''MCP_AUDIT_LOG'' ''/var/log/mcp-oauth/audit.log'',
      cfg_MCPCACert = env_str E ''MCP_CA_CERT'' ''MCP_CA_CERT'' [],
      cfg_AuthCodeTTL = the (atoi (env_str E ''AUTH_CODE_TTL'' [] ''300'')),
      cfg_AccessTokenTTL = the (atoi (env_str E ''ACCESS_TOKEN_TTL'' [] ''86400'')),
      cfg_TrustedProxies = split_slice (env_str E ''TRUSTED_PROXIES'' [] ''127.0.0.1,::1''),
      cfg_TrustedAuthorizeCIDRs = split_slice (env_str E ''TRUSTED_AUTHORIZE_CIDRS'' [] ''127.0.0.1/32,::1/128''),
      cfg_MandatoryPKCE = the (parse_bool (env_str E ''MANDATORY_PKCE'' [] ''true'')),
      cfg_AllowTokenStoreRecovery = the (parse_bool (env_str E ''ALLOW_TOKEN_STORE_RECOVERY'' [] ''false'')),
      cfg_AnonymousEnabled = the (parse_bool (env_str E ''ANONYMOUS_ENABLED'' [] ''false'')),
      cfg_AnonymousPublicTools = (case E ''ANONYMOUS_PUBLIC_TOOLS'' of None \<Rightarrow> [] | Some v \<Rightarrow> split_slice v)\<rparr>"
proof -
  obtain d r where "bind_loop E oauth_fields zero_oauth = Inr d" and "c = \<lparr>OAuthProxy = d, Runtime = r\<rparr>"
    using assms by (auto simp: Load_def bindEnv_def split: sum.splits)
  then show ?thesis using bind_oauth [of E d] by simp
qed

lemma config_reads_environment_witness:
  "cfg_MandatoryPKCE (OAuthProxy sample_config) \<and> cfg_ClientSecret (OAuthProxy sample_config) = ''s3''"
  by (subst (1 2) config_reads_environment [OF sample_config_load])
    (simp add: env_str_def sample_env_def parse_bool_def)

text \<open>
The check on the anonymous tool list counts entries, not names: with the variable set to
  the empty string the list has one empty name, the configuration is accepted with anonymous
  access on, and no tool is public.
\<close>

theorem anonymous_empty_tool_list_accepted:
  "\<exists>c. Load hugo_first sample_env = (Inr c, []) \<and> cfg_AnonymousEnabled (OAuthProxy c) \<and>
    cfg_AnonymousPublicTools (OAuthProxy c) = [[]]"
  by (rule exI [of _ sample_config]) (simp add: sample_config_load sample_config_def sample_oauth_def)

end
