(* ===== verification/GoPath.thy ===== *)
theory GoPath
  imports GoStrings
begin

text \<open>
  \<^verbatim>\<open>path.Clean\<close> and \<^verbatim>\<open>filepath.Dir\<close> on slash-separated paths: empty and \<^verbatim>\<open>.\<close> elements go, a
  \<^verbatim>\<open>..\<close> takes away the element before it, and a \<^verbatim>\<open>..\<close> at the root of a rooted path is dropped.
\<close>

definition clean_step :: "bool \<Rightarrow> string list \<Rightarrow> string \<Rightarrow> string list" where
  "clean_step rooted acc e =
    (if e = [] \<or> e = ''.'' then acc
     else if e = ''..'' then
       (if acc \<noteq> [] \<and> last acc \<noteq> ''..'' then butlast acc
        else if rooted then acc else acc @ [''..''])
     else acc @ [e])"

definition clean_elems :: "bool \<Rightarrow> string list \<Rightarrow> string list" where
  "clean_elems rooted es = foldl (clean_step rooted) [] es"

definition path_clean :: "string \<Rightarrow> string" where
  "path_clean p =
    (let rooted = (take 1 p = ''/'');
         out = (if rooted then ''/'' else []) @ join_with ''/'' (clean_elems rooted (split_on CHR ''/'' p))
     in if out = [] then ''.'' else out)"

definition filepath_dir :: "string \<Rightarrow> string" where
  "filepath_dir p = path_clean (rev (dropWhile (\<lambda>c. c \<noteq> CHR ''/'') (rev p)))"

declare clean_step_def [go_defs] clean_elems_def [go_defs] path_clean_def [go_defs]
  filepath_dir_def [go_defs]

text \<open>The elements that can be left: none is empty, \<^verbatim>\<open>.\<close> or has a slash; rooted, none is \<^verbatim>\<open>..\<close>.\<close>

definition plain_elem :: "string \<Rightarrow> bool" where
  "plain_elem e \<longleftrightarrow> e \<noteq> [] \<and> e \<noteq> ''.'' \<and> e \<noteq> ''..'' \<and> CHR ''/'' \<notin> set e"

lemma clean_step_plain:
  assumes "list_all plain_elem acc" and "CHR ''/'' \<notin> set e"
  shows "list_all plain_elem (clean_step True acc e)"
proof -
  have "list_all plain_elem (butlast acc)"
    using assms(1) by (auto simp: list_all_iff dest: in_set_butlastD)
  then show ?thesis using assms by (simp add: clean_step_def plain_elem_def)
qed

lemma clean_elems_plain:
  assumes "\<And>e. e \<in> set es \<Longrightarrow> CHR ''/'' \<notin> set e"
  shows "list_all plain_elem (clean_elems True es)"
proof -
  have "list_all plain_elem acc \<Longrightarrow> list_all plain_elem (foldl (clean_step True) acc es)" for acc
    using assms by (induction es arbitrary: acc) (simp_all add: clean_step_plain)
  then show ?thesis by (simp add: clean_elems_def)
qed

text \<open>A clean rooted path is a slash and plain elements.\<close>

lemma path_clean_rooted:
  assumes "take 1 p = ''/''"
  obtains es where "path_clean p = CHR ''/'' # join_with ''/'' es" and "list_all plain_elem es"
proof
  let ?es = "clean_elems True (split_on CHR ''/'' p)"
  show "path_clean p = CHR ''/'' # join_with ''/'' ?es" using assms by (simp add: path_clean_def)
  show "list_all plain_elem ?es" by (rule clean_elems_plain) (rule split_on_no_sep)
qed

lemma split_on_clean:
  assumes "list_all plain_elem es"
  shows "split_on CHR ''/'' (CHR ''/'' # join_with ''/'' es) = [] # (if es = [] then [[]] else es)"
proof (cases "es = []")
  case True
  then show ?thesis by simp
next
  case False
  have "split_on CHR ''/'' (join_with ''/'' es) = es"
    by (rule split_join) (use False assms in \<open>auto simp: list_all_iff plain_elem_def\<close>)
  with False show ?thesis by simp
qed

lemma foldl_clean_plain:
  assumes "list_all plain_elem es"
  shows "foldl (clean_step True) acc es = acc @ es"
  using assms by (induction es arbitrary: acc) (auto simp: clean_step_def plain_elem_def)

lemma path_clean_idem:
  assumes "take 1 p = ''/''"
  shows "path_clean (path_clean p) = path_clean p"
proof -
  obtain es where c: "path_clean p = CHR ''/'' # join_with ''/'' es" and pl: "list_all plain_elem es"
    using assms by (rule path_clean_rooted)
  have "clean_elems True ([] # (if es = [] then [[]] else es)) = es"
    using pl foldl_clean_plain [of es "[]"] by (simp add: clean_elems_def clean_step_def)
  then show ?thesis
    by (simp only: c path_clean_def [of "CHR ''/'' # join_with ''/'' es"] split_on_clean [OF pl]) simp
qed

end
