(* ===== verification/GoFS.thy ===== *)
theory GoFS
  imports GoPath Prelude
begin

text \<open>
  The part of \<^verbatim>\<open>os\<close> the token file needs, with a crash model. Names lead to files (numbers),
  a file has contents and a mode. What a power cut may leave is part of the state: a file is
  clean when its contents have reached the disk, and \<open>fs_names_disk\<close> are the name tables
  that may be found after a cut, because a directory is only settled by syncing it.

  Every system call takes its outcome from the list \<open>fs_outcomes\<close>: it succeeds, fails with a
  message, or writes only a part. With an empty list calls fail without any effect; a list
  that ends early is a process that dies at that call, so statements about every list of
  outcomes are statements about every point of failure.
\<close>

datatype outcome = Works | Fails string | ShortWrite nat string

record fs =
  fs_names :: "string \<Rightarrow> nat option"
  fs_names_disk :: "(string \<Rightarrow> nat option) list"
  fs_data :: "nat \<Rightarrow> string"
  fs_mode :: "nat \<Rightarrow> nat"
  fs_clean :: "nat \<Rightarrow> bool"
  fs_next :: nat
  fs_dirs :: "string list"
  fs_outcomes :: "outcome list"

definition next_outcome :: "fs \<Rightarrow> outcome \<times> fs" where
  "next_outcome w =
    (case fs_outcomes w of
       [] \<Rightarrow> (Fails ''process ended'', w)
     | x # xs \<Rightarrow> (x, w\<lparr>fs_outcomes := xs\<rparr>))"

definition call_result :: "outcome \<Rightarrow> unit result" where
  "call_result x = (case x of Works \<Rightarrow> Inr () | Fails e \<Rightarrow> Inl e | ShortWrite n e \<Rightarrow> Inl e)"

text \<open>\<^verbatim>\<open>os.Stat\<close>: the two answers callers tell apart are the missing file and the rest.\<close>

datatype stat_result = NotExist | OtherError string | Exists

definition os_Stat :: "string \<Rightarrow> fs \<Rightarrow> stat_result \<times> fs" where
  "os_Stat p w =
    (let (x, w1) = next_outcome w in
     case call_result x of
       Inl e \<Rightarrow> (OtherError e, w1)
     | Inr _ \<Rightarrow> (if fs_names w1 p = None then NotExist else Exists, w1))"

definition os_Chmod :: "string \<Rightarrow> nat \<Rightarrow> fs \<Rightarrow> unit result \<times> fs" where
  "os_Chmod p m w =
    (let (x, w1) = next_outcome w in
     case call_result x of
       Inl e \<Rightarrow> (Inl e, w1)
     | Inr _ \<Rightarrow>
         (case fs_names w1 p of
            None \<Rightarrow> (Inl ''no such file or directory'', w1)
          | Some i \<Rightarrow> (Inr (), w1\<lparr>fs_mode := (fs_mode w1)(i := m)\<rparr>)))"

definition os_ReadFile :: "string \<Rightarrow> fs \<Rightarrow> string result \<times> fs" where
  "os_ReadFile p w =
    (let (x, w1) = next_outcome w in
     case call_result x of
       Inl e \<Rightarrow> (Inl e, w1)
     | Inr _ \<Rightarrow>
         (case fs_names w1 p of
            None \<Rightarrow> (Inl ''no such file or directory'', w1)
          | Some i \<Rightarrow> (Inr (fs_data w1 i), w1)))"

definition set_names :: "(string \<Rightarrow> nat option) \<Rightarrow> fs \<Rightarrow> fs" where
  "set_names t w = w\<lparr>fs_names := t, fs_names_disk := fs_names_disk w @ [t]\<rparr>"

definition os_Rename :: "string \<Rightarrow> string \<Rightarrow> fs \<Rightarrow> unit result \<times> fs" where
  "os_Rename p q w =
    (let (x, w1) = next_outcome w in
     case call_result x of
       Inl e \<Rightarrow> (Inl e, w1)
     | Inr _ \<Rightarrow>
         (case fs_names w1 p of
            None \<Rightarrow> (Inl ''no such file or directory'', w1)
          | Some i \<Rightarrow>
              (Inr (), if p = q then w1 else set_names ((fs_names w1)(q := Some i, p := None)) w1)))"

definition os_MkdirAll :: "string \<Rightarrow> fs \<Rightarrow> unit result \<times> fs" where
  "os_MkdirAll d w =
    (let (x, w1) = next_outcome w in
     case call_result x of
       Inl e \<Rightarrow> (Inl e, w1)
     | Inr _ \<Rightarrow> (Inr (), w1\<lparr>fs_dirs := List.insert d (fs_dirs w1)\<rparr>))"

text \<open>\<^verbatim>\<open>OpenFile(p, O_WRONLY|O_CREATE|O_TRUNC, m)\<close>: an existing file keeps its mode.\<close>

definition os_OpenTrunc :: "string \<Rightarrow> nat \<Rightarrow> fs \<Rightarrow> nat result \<times> fs" where
  "os_OpenTrunc p m w =
    (let (x, w1) = next_outcome w in
     case call_result x of
       Inl e \<Rightarrow> (Inl e, w1)
     | Inr _ \<Rightarrow>
         (case fs_names w1 p of
            Some i \<Rightarrow>
              (Inr i, w1\<lparr>fs_data := (fs_data w1)(i := []), fs_clean := (fs_clean w1)(i := False)\<rparr>)
          | None \<Rightarrow>
              (let i = fs_next w1 in
               (Inr i, (set_names ((fs_names w1)(p := Some i)) w1)
                 \<lparr>fs_data := (fs_data w1)(i := []), fs_clean := (fs_clean w1)(i := False),
                  fs_mode := (fs_mode w1)(i := m), fs_next := Suc i\<rparr>))))"

definition file_append :: "nat \<Rightarrow> string \<Rightarrow> fs \<Rightarrow> fs" where
  "file_append i b w =
    w\<lparr>fs_data := (fs_data w)(i := fs_data w i @ b), fs_clean := (fs_clean w)(i := False)\<rparr>"

definition file_Write :: "nat \<Rightarrow> string \<Rightarrow> fs \<Rightarrow> unit result \<times> fs" where
  "file_Write i b w =
    (let (x, w1) = next_outcome w in
     case x of
       Works \<Rightarrow> (Inr (), file_append i b w1)
     | Fails e \<Rightarrow> (Inl e, w1)
     | ShortWrite n e \<Rightarrow> (Inl e, file_append i (take n b) w1))"

definition file_Sync :: "nat \<Rightarrow> fs \<Rightarrow> unit result \<times> fs" where
  "file_Sync i w =
    (let (x, w1) = next_outcome w in
     case call_result x of
       Inl e \<Rightarrow> (Inl e, w1)
     | Inr _ \<Rightarrow> (Inr (), w1\<lparr>fs_clean := (fs_clean w1)(i := True)\<rparr>))"

definition os_OpenDir :: "string \<Rightarrow> fs \<Rightarrow> unit result \<times> fs" where
  "os_OpenDir d w = (let (x, w1) = next_outcome w in (call_result x, w1))"

text \<open>Syncing a directory settles the names in it, in every table a power cut may leave.\<close>

definition settle :: "string \<Rightarrow> (string \<Rightarrow> nat option) \<Rightarrow> (string \<Rightarrow> nat option) \<Rightarrow> string \<Rightarrow> nat option" where
  "settle d now t = (\<lambda>p. if filepath_dir p = d then now p else t p)"

definition dir_Sync :: "string \<Rightarrow> fs \<Rightarrow> unit result \<times> fs" where
  "dir_Sync d w =
    (let (x, w1) = next_outcome w in
     case call_result x of
       Inl e \<Rightarrow> (Inl e, w1)
     | Inr _ \<Rightarrow> (Inr (), w1\<lparr>fs_names_disk := map (settle d (fs_names w1)) (fs_names_disk w1)\<rparr>))"

lemmas fs_ops = os_Stat_def os_Chmod_def os_ReadFile_def os_Rename_def os_MkdirAll_def
  os_OpenTrunc_def file_Write_def file_Sync_def os_OpenDir_def dir_Sync_def

declare fs_ops [go_defs] next_outcome_def [go_defs] call_result_def [go_defs]
  set_names_def [go_defs] file_append_def [go_defs] settle_def [go_defs]

subsection \<open>What a power cut leaves\<close>

definition leaves :: "fs \<Rightarrow> nat option \<Rightarrow> string option \<Rightarrow> bool" where
  "leaves w x c \<longleftrightarrow>
    (case x of
       None \<Rightarrow> c = None
     | Some i \<Rightarrow> c \<noteq> None \<and> (fs_clean w i \<longrightarrow> c = Some (fs_data w i)))"

definition crash_content :: "fs \<Rightarrow> string \<Rightarrow> string option \<Rightarrow> bool" where
  "crash_content w p c \<longleftrightarrow> (\<exists>t\<in>set (fs_names_disk w). leaves w (t p) c)"

text \<open>What a reader finds now.\<close>

definition file_content :: "fs \<Rightarrow> string \<Rightarrow> string option" where
  "file_content w p = map_option (fs_data w) (fs_names w p)"

lemma leaves_simps [simp]:
  "leaves w None c \<longleftrightarrow> c = None"
  "leaves w (Some i) c \<longleftrightarrow> c \<noteq> None \<and> (fs_clean w i \<longrightarrow> c = Some (fs_data w i))"
  by (simp_all add: leaves_def)

lemma leaves_cong:
  "(\<And>i. x = Some i \<Longrightarrow> fs_clean w' i = fs_clean w i \<and> fs_data w' i = fs_data w i) \<Longrightarrow>
    leaves w' x c \<longleftrightarrow> leaves w x c"
  by (cases x) auto

text \<open>
  What keeps a name safe from the file written next to it: every file the name may lead to
  after a cut is clean, older than the next file and not the one behind the other name; and
  the current table is one of those a cut may leave.
\<close>

definition safe_name :: "fs \<Rightarrow> string \<Rightarrow> string \<Rightarrow> bool" where
  "safe_name w p tmp \<longleftrightarrow>
    fs_names w \<in> set (fs_names_disk w) \<and>
    (\<forall>q i. fs_names w q = Some i \<longrightarrow> i < fs_next w) \<and>
    (\<forall>t\<in>set (fs_names_disk w). \<forall>i. t p = Some i \<longrightarrow>
       fs_clean w i \<and> i < fs_next w \<and> fs_names w tmp \<noteq> Some i)"

lemma fs_names_next_outcome [simp]:
  "next_outcome w = (x, w1) \<Longrightarrow> fs_names w1 = fs_names w"
  "next_outcome w = (x, w1) \<Longrightarrow> fs_names_disk w1 = fs_names_disk w"
  "next_outcome w = (x, w1) \<Longrightarrow> fs_data w1 = fs_data w"
  "next_outcome w = (x, w1) \<Longrightarrow> fs_clean w1 = fs_clean w"
  "next_outcome w = (x, w1) \<Longrightarrow> fs_mode w1 = fs_mode w"
  "next_outcome w = (x, w1) \<Longrightarrow> fs_next w1 = fs_next w"
  by (auto simp: next_outcome_def split: list.splits)

lemma call_result_split: "P (call_result x) \<longleftrightarrow>
    (x = Works \<longrightarrow> P (Inr ())) \<and> (\<forall>e. x = Fails e \<longrightarrow> P (Inl e)) \<and> (\<forall>n e. x = ShortWrite n e \<longrightarrow> P (Inl e))"
  by (cases x) (simp_all add: call_result_def)

subsection \<open>The calls and a safe name\<close>

lemma frame_safe:
  assumes "fs_names w' = fs_names w" "fs_names_disk w' = fs_names_disk w" "fs_data w' = fs_data w"
    "fs_clean w' = fs_clean w" "fs_next w' = fs_next w"
  shows "safe_name w' p tmp \<longleftrightarrow> safe_name w p tmp" and "crash_content w' p c \<longleftrightarrow> crash_content w p c"
    and "file_content w' p = file_content w p"
  unfolding safe_name_def crash_content_def leaves_def file_content_def assms by (rule refl)+

lemma MkdirAll_safe:
  assumes "os_MkdirAll d w = (r, w')" and "safe_name w p tmp"
  shows "safe_name w' p tmp \<and> file_content w' p = file_content w p \<and> (\<forall>c. crash_content w' p c \<longleftrightarrow> crash_content w p c)"
proof -
  have "fs_names w' = fs_names w" "fs_names_disk w' = fs_names_disk w" "fs_data w' = fs_data w"
    "fs_clean w' = fs_clean w" "fs_next w' = fs_next w"
    using assms(1) by (auto simp: os_MkdirAll_def split: prod.splits sum.splits)
  from frame_safe [OF this] assms(2) show ?thesis by blast
qed

lemma OpenDir_safe:
  assumes "os_OpenDir d w = (r, w')"
  shows "fs_names w' = fs_names w \<and> fs_names_disk w' = fs_names_disk w \<and> fs_data w' = fs_data w \<and>
    fs_clean w' = fs_clean w \<and> fs_next w' = fs_next w"
  using assms by (auto simp: os_OpenDir_def split: prod.splits)

lemma OpenTrunc_safe:
  assumes "os_OpenTrunc tmp m w = (r, w')" and "safe_name w p tmp" and "p \<noteq> tmp"
  shows "safe_name w' p tmp \<and> file_content w' p = file_content w p \<and> (\<forall>c. crash_content w' p c \<longrightarrow> crash_content w p c) \<and>
    (\<forall>f. r = Inr f \<longrightarrow> fs_names w' tmp = Some f \<and> fs_data w' f = [])"
proof -
  obtain x w1 where n: "next_outcome w = (x, w1)" by (cases "next_outcome w")
  show ?thesis
  proof (cases "call_result x")
    case (Inl e)
    then have w': "w' = w1" "r = Inl e" using assms(1) n by (auto simp: os_OpenTrunc_def)
    show ?thesis using frame_safe [of w1 w] n assms w' by auto
  next
    case (Inr u)
    show ?thesis
    proof (cases "fs_names w tmp")
      case (Some i)
      have "\<forall>t\<in>set (fs_names_disk w). t p \<noteq> Some i"
        using assms(2) Some by (auto simp: safe_name_def)
      have w': "r = Inr i" "fs_names w' = fs_names w" "fs_names_disk w' = fs_names_disk w"
        "fs_data w' = (fs_data w)(i := [])" "fs_clean w' = (fs_clean w)(i := False)"
        "fs_next w' = fs_next w"
        using assms(1) n Inr Some by (auto simp: os_OpenTrunc_def)
      have "crash_content w' p c \<longleftrightarrow> crash_content w p c" for c
        unfolding crash_content_def w'
        by (rule bex_cong [OF refl], rule leaves_cong)
          (use w' \<open>\<forall>t\<in>set (fs_names_disk w). t p \<noteq> Some i\<close> in auto)
      moreover have "safe_name w' p tmp" using assms(2) Some by (auto simp: safe_name_def w')
      moreover have "file_content w' p = file_content w p"
        using assms(2) Some by (cases "fs_names w p") (auto simp: safe_name_def file_content_def w')
      ultimately show ?thesis using w' Some by simp
    next
      case None
      let ?t = "(fs_names w)(tmp := Some (fs_next w))"
      have w': "r = Inr (fs_next w)" "fs_names w' = ?t" "fs_names_disk w' = fs_names_disk w @ [?t]"
        "fs_data w' = (fs_data w)(fs_next w := [])" "fs_clean w' = (fs_clean w)(fs_next w := False)"
        "fs_next w' = Suc (fs_next w)"
        using assms(1) n Inr None by (auto simp: os_OpenTrunc_def set_names_def Let_def)
      have old: "t p = Some i \<Longrightarrow> i < fs_next w \<and> fs_clean w i" if "t \<in> set (fs_names_disk w) \<or> t = ?t" for t i
        using assms(2,3) that by (auto simp: safe_name_def)
      have "safe_name w' p tmp"
        using assms(2,3) w' old by (fastforce simp: safe_name_def)
      moreover have "crash_content w' p c \<longrightarrow> crash_content w p c" for c
      proof
        assume "crash_content w' p c"
        then obtain t where t: "t \<in> set (fs_names_disk w) \<or> t = ?t"
          and c: "leaves w' (t p) c"
          unfolding crash_content_def w' by (metis UnE empty_iff insert_iff list.set set_append)
        obtain t' where "t' \<in> set (fs_names_disk w)" "t' p = t p"
          using t assms(2,3) by (auto simp: safe_name_def)
        moreover have "leaves w (t p) c"
          using c leaves_cong [of "t p" w' w c] old [OF t] by (force simp: w')
        ultimately show "crash_content w p c" unfolding crash_content_def by metis
      qed
      moreover have "file_content w' p = file_content w p"
        using assms(2,3) by (cases "fs_names w p") (auto simp: safe_name_def file_content_def w')
      ultimately show ?thesis using w' by simp
    qed
  qed
qed

text \<open>Only the contents and the cleanness of the file behind the other name change.\<close>

lemma other_file_safe:
  assumes "safe_name w p tmp" and "fs_names w tmp = Some f"
    and "fs_names w' = fs_names w" "fs_names_disk w' = fs_names_disk w" "fs_next w' = fs_next w"
    and "\<And>i. i \<noteq> f \<Longrightarrow> fs_data w' i = fs_data w i \<and> fs_clean w' i = fs_clean w i"
  shows "safe_name w' p tmp \<and> file_content w' p = file_content w p \<and> (\<forall>c. crash_content w' p c \<longleftrightarrow> crash_content w p c)"
proof -
  have ne: "t p \<noteq> Some f" if "t \<in> set (fs_names_disk w)" for t
    using assms(1,2) that by (auto simp: safe_name_def)
  have "safe_name w' p tmp" using assms ne by (force simp: safe_name_def)
  moreover have "crash_content w' p c \<longleftrightarrow> crash_content w p c" for c
    unfolding crash_content_def assms(4)
    by (rule bex_cong [OF refl], rule leaves_cong) (metis ne assms(6))
  moreover have "file_content w' p = file_content w p"
    using assms(1) ne [of "fs_names w"] assms(6)
    by (cases "fs_names w p") (auto simp: safe_name_def file_content_def assms(3))
  ultimately show ?thesis by simp
qed

lemma Write_safe:
  assumes "file_Write f b w = (r, w')" and "safe_name w p tmp" and "fs_names w tmp = Some f"
  shows "safe_name w' p tmp \<and> file_content w' p = file_content w p \<and> (\<forall>c. crash_content w' p c \<longleftrightarrow> crash_content w p c) \<and>
    fs_names w' tmp = Some f \<and> (r = Inr () \<longrightarrow> fs_data w' f = fs_data w f @ b)"
proof -
  have "fs_names w' = fs_names w" "fs_names_disk w' = fs_names_disk w" "fs_next w' = fs_next w"
    and "\<And>i. i \<noteq> f \<Longrightarrow> fs_data w' i = fs_data w i \<and> fs_clean w' i = fs_clean w i"
    using assms(1) by (auto simp: file_Write_def file_append_def split: prod.splits outcome.splits)
  moreover have "r = Inr () \<longrightarrow> fs_data w' f = fs_data w f @ b"
    using assms(1) by (auto simp: file_Write_def file_append_def split: prod.splits outcome.splits)
  ultimately show ?thesis using other_file_safe [OF assms(2,3)] assms(3) by metis
qed

lemma Sync_safe:
  assumes "file_Sync f w = (r, w')" and "safe_name w p tmp" and "fs_names w tmp = Some f"
  shows "safe_name w' p tmp \<and> file_content w' p = file_content w p \<and> (\<forall>c. crash_content w' p c \<longleftrightarrow> crash_content w p c) \<and>
    fs_names w' tmp = Some f \<and> fs_data w' = fs_data w \<and> (r = Inr () \<longrightarrow> fs_clean w' f)"
proof -
  have "fs_names w' = fs_names w" "fs_names_disk w' = fs_names_disk w" "fs_next w' = fs_next w"
    and d: "fs_data w' = fs_data w"
    and "\<And>i. i \<noteq> f \<Longrightarrow> fs_clean w' i = fs_clean w i"
    using assms(1) by (auto simp: file_Sync_def split: prod.splits sum.splits)
  moreover have "r = Inr () \<longrightarrow> fs_clean w' f"
    using assms(1) by (auto simp: file_Sync_def split: prod.splits sum.splits)
  ultimately show ?thesis using other_file_safe [OF assms(2,3)] assms(3) by metis
qed

lemma Rename_safe:
  assumes "os_Rename tmp p w = (r, w')" and "safe_name w p tmp" and "p \<noteq> tmp"
    and "fs_names w tmp = Some f" and "fs_clean w f"
  shows "safe_name w' p tmp \<and>
    (\<forall>c. crash_content w' p c \<longrightarrow> crash_content w p c \<or> c = Some (fs_data w f)) \<and>
    fs_clean w' f \<and> fs_data w' = fs_data w \<and> (r = Inr () \<longrightarrow> fs_names w' p = Some f) \<and>
    (r \<noteq> Inr () \<longrightarrow> file_content w' p = file_content w p)"
proof -
  obtain x w1 where n: "next_outcome w = (x, w1)" by (cases "next_outcome w")
  show ?thesis
  proof (cases "call_result x")
    case (Inl e)
    then have w': "w' = w1" "r = Inl e" using assms(1) n by (auto simp: os_Rename_def)
    show ?thesis using frame_safe [of w1 w] n assms w' by auto
  next
    case (Inr u)
    let ?t = "(fs_names w)(p := Some f, tmp := None)"
    have w': "r = Inr ()" "fs_names w' = ?t" "fs_names_disk w' = fs_names_disk w @ [?t]"
        "fs_data w' = fs_data w" "fs_clean w' = fs_clean w" "fs_next w' = fs_next w"
      using assms n Inr by (auto simp: os_Rename_def set_names_def)
    have "?t p = Some f" using assms(3) by simp
    moreover have "f < fs_next w" using assms(2,4) by (auto simp: safe_name_def)
    ultimately have "safe_name w' p tmp"
      using assms w' by (auto simp: safe_name_def split: if_splits)
    moreover have "crash_content w' p c \<longrightarrow> crash_content w p c \<or> c = Some (fs_data w f)" for c
    proof
      assume "crash_content w' p c"
      then obtain s where "s \<in> set (fs_names_disk w) \<or> s = ?t" and "leaves w' (s p) c"
        unfolding crash_content_def w' by (metis UnE empty_iff insert_iff list.set set_append)
      moreover have "leaves w' (s p) c = leaves w (s p) c" by (rule leaves_cong) (simp add: w')
      ultimately show "crash_content w p c \<or> c = Some (fs_data w f)"
        using assms(3,5) by (auto simp: crash_content_def)
    qed
    ultimately show ?thesis using w' assms(3,5) by simp
  qed
qed

lemma dir_Sync_safe:
  assumes "dir_Sync (filepath_dir p) w = (r, w')" and "safe_name w p tmp"
    and "fs_names w p = Some f" and "fs_clean w f"
  shows "safe_name w' p tmp \<and> file_content w' p = file_content w p \<and> (\<forall>c. crash_content w' p c \<longrightarrow> crash_content w p c) \<and>
    (r = Inr () \<longrightarrow> (\<forall>c. crash_content w' p c \<longleftrightarrow> c = Some (fs_data w f)))"
proof -
  obtain x w1 where n: "next_outcome w = (x, w1)" by (cases "next_outcome w")
  show ?thesis
  proof (cases "call_result x")
    case (Inl e)
    then have w': "w' = w1" "r = Inl e" using assms(1) n by (auto simp: dir_Sync_def)
    show ?thesis using frame_safe [of w1 w] n assms w' by auto
  next
    case (Inr u)
    let ?s = "settle (filepath_dir p) (fs_names w)"
    have w': "r = Inr ()" "fs_names w' = fs_names w" "fs_names_disk w' = map ?s (fs_names_disk w)"
        "fs_data w' = fs_data w" "fs_clean w' = fs_clean w" "fs_next w' = fs_next w"
      using assms n Inr by (auto simp: dir_Sync_def)
    have now: "fs_names w \<in> set (fs_names_disk w)" using assms(2) by (simp add: safe_name_def)
    have "?s (fs_names w) = fs_names w" by (auto simp: settle_def)
    with now have "fs_names w \<in> set (map ?s (fs_names_disk w))" by (metis image_eqI set_map)
    moreover have sp: "?s t p = Some f" for t using assms(3) by (simp add: settle_def)
    ultimately have "safe_name w' p tmp"
      using assms(2-4) now by (auto simp: safe_name_def w')
    moreover have c: "crash_content w' p c \<longleftrightarrow> c = Some (fs_data w f)" for c
      using now sp assms(4) by (auto simp: crash_content_def w')
    moreover have "crash_content w p (Some (fs_data w f))"
      using now assms(3) by (auto simp: crash_content_def intro!: bexI [of _ "fs_names w"])
    moreover have "file_content w' p = file_content w p" by (simp add: file_content_def w')
    ultimately show ?thesis by (intro conjI allI impI) simp_all
  qed
qed

subsection \<open>The calls that only look\<close>

definition same_files :: "fs \<Rightarrow> fs \<Rightarrow> bool" where
  "same_files w' w \<longleftrightarrow> fs_names w' = fs_names w \<and> fs_names_disk w' = fs_names_disk w \<and>
    fs_data w' = fs_data w \<and> fs_clean w' = fs_clean w \<and> fs_next w' = fs_next w"

lemma same_files_trans: "same_files w1 w \<Longrightarrow> same_files w2 w1 \<Longrightarrow> same_files w2 w"
  by (simp add: same_files_def)

lemma same_files_safe:
  assumes "same_files w' w"
  shows "safe_name w' p tmp \<longleftrightarrow> safe_name w p tmp" and "crash_content w' p c \<longleftrightarrow> crash_content w p c"
    and "file_content w' p = file_content w p"
  using frame_safe [of w' w] assms by (simp_all add: same_files_def)

lemma Stat_looks:
  assumes "os_Stat p w = (r, w')"
  shows "same_files w' w" and "r = NotExist \<Longrightarrow> file_content w p = None"
  using assms
  by (auto simp: os_Stat_def same_files_def file_content_def split: prod.splits sum.splits if_splits)

lemma Chmod_looks:
  assumes "os_Chmod p m w = (r, w')"
  shows "same_files w' w"
  using assms by (auto simp: os_Chmod_def same_files_def split: prod.splits sum.splits option.splits)

lemma ReadFile_looks:
  assumes "os_ReadFile p w = (r, w')"
  shows "same_files w' w" and "r = Inr d \<Longrightarrow> file_content w p = Some d"
  using assms
  by (auto simp: os_ReadFile_def same_files_def file_content_def split: prod.splits sum.splits option.splits)

lemma Rename_moves:
  assumes "os_Rename p q w = (r, w')" and "p \<noteq> q"
  shows "if r = Inr () then file_content w' p = None \<and> file_content w' q = file_content w p
     else file_content w' p = file_content w p"
  using assms
  by (auto simp: os_Rename_def file_content_def set_names_def split: prod.splits sum.splits option.splits)

lemma Rename_away:
  assumes "os_Rename p q w = (r, w')" and "safe_name w p tmp" and "p \<noteq> q" and "q \<noteq> tmp" and "p \<noteq> tmp"
  shows "safe_name w' p tmp \<and>
    (if r = Inr () then file_content w' p = None \<and> file_content w' q = file_content w p
     else file_content w' p = file_content w p)"
proof -
  obtain x w1 where n: "next_outcome w = (x, w1)" by (cases "next_outcome w")
  show ?thesis
  proof (cases "call_result x = Inr () \<and> fs_names w p \<noteq> None")
    case False
    then have "same_files w' w" "r \<noteq> Inr ()"
      using assms(1) n by (auto simp: os_Rename_def same_files_def split: sum.splits option.splits)
    with same_files_safe [of w' w] assms(2) show ?thesis by simp
  next
    case True
    then obtain i where i: "fs_names w p = Some i" by auto
    let ?t = "(fs_names w)(q := Some i, p := None)"
    have w': "r = Inr ()" "fs_names w' = ?t" "fs_names_disk w' = fs_names_disk w @ [?t]"
        "fs_data w' = fs_data w" "fs_clean w' = fs_clean w" "fs_next w' = fs_next w"
      using assms n True i by (auto simp: os_Rename_def set_names_def)
    have "safe_name w' p tmp" using assms w' i by (auto simp: safe_name_def split: if_splits)
    with w' i assms(3) show ?thesis by (simp add: file_content_def)
  qed
qed

end
