(* ===== verification/Observability.thy ===== *)
theory Observability
  imports GoHTTP GoJSONCodec GoFS "HOL-Library.Word"
begin

text \<open>
  \<^verbatim>\<open>internal/observability\<close>: the counters and the metrics page (\<^verbatim>\<open>metrics.go\<close>), the audit log
  with its redaction (\<^verbatim>\<open>audit.go\<close>). The structured logger of \<^verbatim>\<open>logger.go\<close> only prints, so its
  calls have no counterpart. The counters and the audit file are process-wide state.

  The four regular expressions are terms of a small expression type over runes, matched by
  backtracking, with the Unicode case folding that \<^verbatim>\<open>(?i)\<close> has in Go.
\<close>

subsection \<open>metrics.go\<close>

record counters =
  AuditWriteFailures :: "64 word"
  TokenPersistenceFailures :: "64 word"
  ProxyRequestsTotal :: "64 word"
  ProxyErrorsTotal :: "64 word"
  TokensIssuedTotal :: "64 word"
  TokensRejectedTotal :: "64 word"
  ReadinessFailuresTotal :: "64 word"

definition zero_counters :: counters where
  "zero_counters = \<lparr>AuditWriteFailures = 0, TokenPersistenceFailures = 0, ProxyRequestsTotal = 0,
     ProxyErrorsTotal = 0, TokensIssuedTotal = 0, TokensRejectedTotal = 0, ReadinessFailuresTotal = 0\<rparr>"

definition Inc :: "64 word \<Rightarrow> 64 word" where
  "Inc c = c + 1"

definition Get :: "64 word \<Rightarrow> int" where
  "Get c = sint c"

text \<open>Name, help text and value, in the order of the page.\<close>

definition allCounters :: "counters \<Rightarrow> (string \<times> string \<times> 64 word) list" where
  "allCounters cs =
    [(''mcp_audit_write_failures_total'', ''Total audit log write failures'', AuditWriteFailures cs),
     (''mcp_token_persistence_failures_total'', ''Total token store persistence failures'', TokenPersistenceFailures cs),
     (''mcp_proxy_requests_total'', ''Total MCP proxy requests completed'', ProxyRequestsTotal cs),
     (''mcp_proxy_errors_total'', ''Total MCP proxy backend errors'', ProxyErrorsTotal cs),
     (''mcp_tokens_issued_total'', ''Total access tokens successfully issued'', TokensIssuedTotal cs),
     (''mcp_tokens_rejected_total'', ''Total token exchange requests rejected'', TokensRejectedTotal cs),
     (''mcp_readiness_failures_total'', ''Total /readyz check failures'', ReadinessFailuresTotal cs)]"

fun metrics_loop :: "(string \<times> string \<times> 64 word) list \<Rightarrow> response \<Rightarrow> response" where
  "metrics_loop [] w = w"
| "metrics_loop ((name, help, v) # cs) w =
    metrics_loop cs
      (Write (name @ '' '' @ show_int (Get v) @ [CHR 0x0A])
        (Write (''# TYPE '' @ name @ '' counter'' @ [CHR 0x0A])
          (Write (''# HELP '' @ name @ '' '' @ help @ [CHR 0x0A]) w)))"

definition HandleMetrics :: "counters \<Rightarrow> request \<Rightarrow> response \<Rightarrow> response" where
  "HandleMetrics cs r w =
    (if Method r \<noteq> ''GET'' \<and> Method r \<noteq> ''HEAD'' then
       http_Error ''Method Not Allowed'' 405 (set_header ''Allow'' ''GET, HEAD'' w)
     else metrics_loop (allCounters cs)
       (set_header ''Content-Type'' ''text/plain; version=0.0.4; charset=utf-8'' w))"

subsection \<open>Regular expressions\<close>

fun runes :: "string \<Rightarrow> nat list" where
  "runes [] = []"
| "runes (c # cs) = (let (r, n) = utf8_decode (c # cs) in r # runes (drop (n - 1) cs))"

datatype rx = Cls "nat \<Rightarrow> bool" | WordB | Star "nat \<Rightarrow> bool"

definition word_rune :: "nat \<Rightarrow> bool" where
  "word_rune r \<longleftrightarrow> 48 \<le> r \<and> r \<le> 57 \<or> 65 \<le> r \<and> r \<le> 90 \<or> 97 \<le> r \<and> r \<le> 122 \<or> r = 95"

definition word_at :: "nat option \<Rightarrow> bool" where
  "word_at x = (case x of None \<Rightarrow> False | Some r \<Rightarrow> word_rune r)"

definition first_rune :: "nat list \<Rightarrow> nat option" where
  "first_rune s = (case s of [] \<Rightarrow> None | r # _ \<Rightarrow> Some r)"

function rx_match :: "rx list \<Rightarrow> nat option \<Rightarrow> nat list \<Rightarrow> bool" where
  "rx_match [] before_r s = True"
| "rx_match (WordB # es) before_r s = (word_at before_r \<noteq> word_at (first_rune s) \<and> rx_match es before_r s)"
| "rx_match (Cls p # es) before_r [] = False"
| "rx_match (Cls p # es) before_r (r # s) = (p r \<and> rx_match es (Some r) s)"
| "rx_match (Star p # es) before_r [] = rx_match es before_r []"
| "rx_match (Star p # es) before_r (r # s) =
    (rx_match es before_r (r # s) \<or> p r \<and> rx_match (Star p # es) (Some r) s)"
  by pat_completeness auto
termination by (relation "measures [\<lambda>(es, b, s). length es + length s]") auto

fun rx_search :: "rx list \<Rightarrow> nat option \<Rightarrow> nat list \<Rightarrow> bool" where
  "rx_search es before_r [] = rx_match es before_r []"
| "rx_search es before_r (r # s) = (rx_match es before_r (r # s) \<or> rx_search es (Some r) s)"

definition MatchString :: "rx list \<Rightarrow> string \<Rightarrow> bool" where
  "MatchString es s = rx_search es None (runes s)"

text \<open>A rune against a letter up to case; \<^verbatim>\<open>s\<close> and \<^verbatim>\<open>k\<close> have a third form.\<close>

definition same_fold :: "nat \<Rightarrow> nat \<Rightarrow> bool" where
  "same_fold a r \<longleftrightarrow>
    r = a \<or> 97 \<le> a \<and> a \<le> 122 \<and> r + 32 = a \<or> 65 \<le> a \<and> a \<le> 90 \<and> r = a + 32 \<or>
    (a = 115 \<or> a = 83) \<and> r = 0x17F \<or> (a = 107 \<or> a = 75) \<and> r = 0x212A"

definition rx_lit :: "string \<Rightarrow> rx list" where
  "rx_lit s = map (\<lambda>c. Cls (same_fold (ord_of c))) s"

definition space_rune :: "nat \<Rightarrow> bool" where
  "space_rune r \<longleftrightarrow> r = 9 \<or> r = 10 \<or> r = 12 \<or> r = 13 \<or> r = 32"

definition token_rune :: "nat \<Rightarrow> bool" where
  "token_rune r \<longleftrightarrow> word_rune r \<or> r = 46 \<or> r = 126 \<or> r = 45 \<or> r = 0x17F \<or> r = 0x212A"

definition value_rune :: "nat \<Rightarrow> bool" where
  "value_rune r \<longleftrightarrow> r \<noteq> 38 \<and> \<not> space_rune r"

definition bearer_rx :: "rx list" where
  "bearer_rx = [WordB] @ rx_lit ''Bearer'' @ [Cls space_rune, Star space_rune, Cls token_rune, Star token_rune, WordB]"

definition assign_rx :: "string \<Rightarrow> rx list" where
  "assign_rx name = [WordB] @ rx_lit name @ [Star space_rune] @ rx_lit ''='' @
     [Star space_rune, Cls value_rune, Star value_rune]"

definition sensitiveValuePatterns :: "rx list list" where
  "sensitiveValuePatterns =
    [bearer_rx, assign_rx ''client_secret'', assign_rx ''code_verifier'', assign_rx ''code_challenge'']"

subsection \<open>audit.go\<close>

datatype aval = AStr string | ABool bool | AInt int | AStrings "string list"
  | AMap "(string \<times> aval) list" | AArr "aval list"

definition isSensitiveAuditKey :: "string \<Rightarrow> bool" where
  "isSensitiveAuditKey key =
    (let k = to_lower key in
     list_ex (contains k) [''secret'', ''token'', ''authorization'', ''auth_code'', ''code_verifier'',
       ''code_challenge'', ''client_secret''])"

definition redacted :: aval where
  "redacted = AStr ''[REDACTED]''"

fun patterns_loop :: "rx list list \<Rightarrow> string \<Rightarrow> aval" where
  "patterns_loop [] v = AStr v"
| "patterns_loop (re # res) v = (if MatchString re v then redacted else patterns_loop res v)"

primrec redact_value :: "aval \<Rightarrow> string \<Rightarrow> aval" where
  "redact_value (AStr v) key = (if isSensitiveAuditKey key then redacted else patterns_loop sensitiveValuePatterns v)"
| "redact_value (ABool b) key = (if isSensitiveAuditKey key then redacted else ABool b)"
| "redact_value (AInt i) key = (if isSensitiveAuditKey key then redacted else AInt i)"
| "redact_value (AStrings ss) key = (if isSensitiveAuditKey key then redacted else AStrings ss)"
| "redact_value (AMap m) key =
    (if isSensitiveAuditKey key then redacted
     else AMap (map (\<lambda>(k, f). (k, f k)) (map (map_prod id redact_value) m)))"
| "redact_value (AArr vs) key =
    (if isSensitiveAuditKey key then redacted else AArr (map (\<lambda>f. f key) (map redact_value vs)))"

definition redactAuditValue :: "string \<Rightarrow> aval \<Rightarrow> aval" where
  "redactAuditValue key v = redact_value v key"

primrec aval_json :: "aval \<Rightarrow> json" where
  "aval_json (AStr s) = JStr s"
| "aval_json (ABool b) = JBool b"
| "aval_json (AInt i) = JNum (show_int i)"
| "aval_json (AStrings ss) = JArr (map JStr ss)"
| "aval_json (AMap m) = JObj (sort_key fst (map (map_prod id aval_json) m))"
| "aval_json (AArr vs) = JArr (map aval_json vs)"

record AuditLogger =
  audit_filePath :: string

definition NewAuditLogger :: "string \<Rightarrow> AuditLogger" where
  "NewAuditLogger path = \<lparr>audit_filePath = path\<rparr>"

text \<open>The audit file, the outcomes of the calls on it (with none left they succeed), and the counters.\<close>

record obs =
  audit_text :: string
  audit_outcomes :: "outcome list"
  metrics :: counters

definition audit_call :: "obs \<Rightarrow> outcome \<times> obs" where
  "audit_call ob =
    (case audit_outcomes ob of
       [] \<Rightarrow> (Works, ob)
     | x # xs \<Rightarrow> (x, ob\<lparr>audit_outcomes := xs\<rparr>))"

definition auditWrite :: "string \<Rightarrow> obs \<Rightarrow> unit result \<times> obs" where
  "auditWrite data ob =
    (let (x, ob1) = audit_call ob in
     case x of
       Works \<Rightarrow> (Inr (), ob1\<lparr>audit_text := audit_text ob1 @ data\<rparr>)
     | Fails e \<Rightarrow> (Inl e, ob1)
     | ShortWrite n e \<Rightarrow> (Inl e, ob1\<lparr>audit_text := audit_text ob1 @ take n data\<rparr>))"

definition Ping :: "AuditLogger \<Rightarrow> obs \<Rightarrow> unit result \<times> obs" where
  "Ping a ob =
    (if audit_filePath a = [] then (Inr (), ob)
     else let (x, ob1) = audit_call ob in
       case call_result x of
         Inl e \<Rightarrow> (Inl e, ob1)
       | Inr _ \<Rightarrow> (let (y, ob2) = audit_call ob1 in (call_result y, ob2)))"

definition count_audit_failure :: "obs \<Rightarrow> obs" where
  "count_audit_failure ob = ob\<lparr>metrics := (metrics ob)\<lparr>AuditWriteFailures := Inc (AuditWriteFailures (metrics ob))\<rparr>\<rparr>"

text \<open>The entry: the fixed members first, then the redacted fields over them.\<close>

definition audit_entry :: "string \<Rightarrow> string \<Rightarrow> string \<Rightarrow> request option \<Rightarrow> (string \<times> aval) list \<Rightarrow> (string, aval) gomap" where
  "audit_entry ts event srcIP r flds =
    (let entry0 = [(''ts'', AStr ts), (''event'', AStr event)];
         entry1 = (case r of
             None \<Rightarrow> entry0
           | Some rq \<Rightarrow>
               (let srcIP' = (if srcIP = [] then RemoteAddr rq else srcIP);
                    rid = GetRequestID (Context rq);
                    ua0 = header_get (Header rq) ''User-Agent'';
                    ua = (if length ua0 > 200 then take 200 ua0 else ua0)
                in entry0 @ [(''src_ip'', AStr srcIP')]
                   @ (if rid \<noteq> [] then [(''request_id'', AStr rid)] else [])
                   @ [(''ua'', AStr ua)]))
     in foldl (\<lambda>entry kv. AList.update (fst kv) (redactAuditValue (fst kv) (snd kv)) entry) entry1 flds)"

definition LogWithIP ::
    "AuditLogger \<Rightarrow> string \<Rightarrow> string \<Rightarrow> string \<Rightarrow> request option \<Rightarrow> (string \<times> aval) list \<Rightarrow> obs \<Rightarrow> obs" where
  "LogWithIP a ts event srcIP r flds ob =
    (let data = json_encode (aval_json (AMap (audit_entry ts event srcIP r flds))) in
     if audit_filePath a = [] then ob
     else
       (let (x, ob1) = audit_call ob in
        case call_result x of
          Inl e \<Rightarrow> count_audit_failure ob1
        | Inr _ \<Rightarrow>
            (case auditWrite data ob1 of
               (Inl e, ob2) \<Rightarrow> count_audit_failure ob2
             | (Inr _, ob2) \<Rightarrow>
                 (case auditWrite [CHR 0x0A] ob2 of
                    (Inl e, ob3) \<Rightarrow> count_audit_failure ob3
                  | (Inr _, ob3) \<Rightarrow> ob3))))"

declare zero_counters_def [model_defs] Inc_def [model_defs] Get_def [model_defs]
  allCounters_def [model_defs] HandleMetrics_def [model_defs] MatchString_def [model_defs]
  isSensitiveAuditKey_def [model_defs] redactAuditValue_def [model_defs] NewAuditLogger_def [model_defs]
  auditWrite_def [model_defs] Ping_def [model_defs] audit_entry_def [model_defs] LogWithIP_def [model_defs]

subsection \<open>Matching\<close>

definition after_runes :: "nat option \<Rightarrow> nat list \<Rightarrow> nat option" where
  "after_runes b xs = (if xs = [] then b else Some (last xs))"

lemma after_runes_simps [simp]:
  "after_runes b [] = b" "after_runes b (x # xs) = after_runes (Some x) xs"
  "after_runes b (xs @ ys) = after_runes (after_runes b xs) ys"
  by (simp_all add: after_runes_def)

lemma runes_ascii: "ascii s \<Longrightarrow> runes (s @ t) = map ord_of s @ runes t"
  by (induction s) (simp_all add: utf8_decode_def)

lemma rx_search_skip: "rx_match es (after_runes b xs) ys \<Longrightarrow> rx_search es b (xs @ ys)"
proof (induction xs arbitrary: b)
  case Nil
  then show ?case by (cases ys) simp_all
qed simp

lemma rx_match_lit:
  "rx_match es (after_runes b (map ord_of s)) t \<Longrightarrow> rx_match (rx_lit s @ es) b (map ord_of s @ t)"
  by (induction s arbitrary: b) (simp_all add: rx_lit_def same_fold_def)

lemma rx_match_star:
  "list_all p xs \<Longrightarrow> rx_match es (after_runes b xs) t \<Longrightarrow> rx_match (Star p # es) b (xs @ t)"
proof (induction xs arbitrary: b)
  case Nil
  then show ?case by (cases t) simp_all
qed simp

definition word_char :: "char \<Rightarrow> bool" where
  "word_char c \<longleftrightarrow> word_rune (ord_of c)"

definition token_char :: "char \<Rightarrow> bool" where
  "token_char c \<longleftrightarrow> token_rune (ord_of c) \<and> ord_of c < 128"

lemma word_char_token: "word_char c \<Longrightarrow> token_char c"
  by (auto simp: word_char_def token_char_def token_rune_def word_rune_def)

lemma bearer_match:
  assumes "\<not> word_at b" and "list_all token_char u" and "word_char c" and "\<not> word_at (first_rune t)"
  shows "rx_match bearer_rx b (map ord_of ''Bearer'' @ 32 # map ord_of (u @ [c]) @ t)"
proof -
  obtain x xs where xs: "map ord_of (u @ [c]) = x # xs" by (cases "map ord_of (u @ [c]) :: nat list") auto
  have tok: "token_rune x" "list_all token_rune xs"
  proof -
    have "list_all token_rune (map ord_of (u @ [c]))"
      using assms(2) word_char_token [OF assms(3)] by (auto simp: list_all_iff token_char_def)
    then have "list_all token_rune (x # xs)" unfolding xs .
    then show "token_rune x" "list_all token_rune xs" by simp_all
  qed
  have "last (map ord_of (u @ [c])) = (ord_of c :: nat)" by simp
  then have last_x: "last (x # xs) = ord_of c" by (simp only: xs)
  then have "after_runes (Some x) xs = Some (ord_of c)" by (cases xs) (simp_all add: after_runes_def)
  then have "rx_match [WordB] (after_runes (Some x) xs) t"
    using assms(3,4) by (simp add: word_at_def word_char_def)
  then have "rx_match [Star token_rune, WordB] (Some x) (xs @ t)" using tok(2) by (intro rx_match_star)
  then have "rx_match ([Star space_rune, Cls token_rune, Star token_rune, WordB]) (Some 32) ([] @ x # xs @ t)"
    using tok(1) by (intro rx_match_star) simp_all
  then have "rx_match [Cls space_rune, Star space_rune, Cls token_rune, Star token_rune, WordB]
      (after_runes b (map ord_of ''Bearer'')) (32 # x # xs @ t)"
    by (simp add: space_rune_def)
  then have "rx_match (rx_lit ''Bearer'' @ [Cls space_rune, Star space_rune, Cls token_rune, Star token_rune, WordB])
      b (map ord_of ''Bearer'' @ 32 # x # xs @ t)"
    by (rule rx_match_lit)
  moreover have "word_at (first_rune (map ord_of ''Bearer'' @ y))" for y
    by (simp add: word_at_def first_rune_def word_rune_def)
  ultimately show ?thesis using assms(1) unfolding bearer_rx_def xs by simp
qed

subsection \<open>Redaction\<close>

lemma redacted_not_sensitive: "re \<in> set sensitiveValuePatterns \<Longrightarrow> \<not> MatchString re ''[REDACTED]''"
proof -
  have "\<not> list_ex (\<lambda>re. MatchString re ''[REDACTED]'') sensitiveValuePatterns" by code_simp
  then show "re \<in> set sensitiveValuePatterns \<Longrightarrow> \<not> MatchString re ''[REDACTED]''" by (auto simp: list_ex_iff)
qed

lemma patterns_loop_cases:
  "patterns_loop res v = (if \<exists>re\<in>set res. MatchString re v then redacted else AStr v)"
  by (induction res) auto

text \<open>
  Nothing under a sensitive key but the marker, at any depth, and no text that matches a
  pattern. Lists of strings are Go slices of a type the redaction does not look into.
\<close>

primrec leak_free :: "aval \<Rightarrow> string \<Rightarrow> bool" where
  "leak_free (AStr v) key =
    (if isSensitiveAuditKey key then AStr v = redacted
     else list_all (\<lambda>re. \<not> MatchString re v) sensitiveValuePatterns)"
| "leak_free (ABool b) key = (\<not> isSensitiveAuditKey key)"
| "leak_free (AInt i) key = (\<not> isSensitiveAuditKey key)"
| "leak_free (AStrings ss) key = (\<not> isSensitiveAuditKey key)"
| "leak_free (AMap m) key =
    (\<not> isSensitiveAuditKey key \<and> list_all (\<lambda>(k, f). f k) (map (map_prod id leak_free) m))"
| "leak_free (AArr vs) key = (\<not> isSensitiveAuditKey key \<and> list_all (\<lambda>f. f key) (map leak_free vs))"

lemma redacted_leak_free [simp]: "leak_free redacted key"
  using redacted_not_sensitive by (auto simp: redacted_def list_all_iff)

lemma redact_leak_free: "leak_free (redactAuditValue key v) key"
proof -
  have "leak_free (redact_value v key) key" for key
  proof (induction v arbitrary: key)
    case (AStr v)
    then show ?case by (auto simp: patterns_loop_cases list_all_iff redacted_def [symmetric])
  qed (auto simp: list_all_iff)
  then show ?thesis by (simp add: redactAuditValue_def)
qed

text \<open>
A bearer token in an audited text is always found: whatever stands before it (ASCII, not
  ending in a word character) and after it (not starting with one), a text that contains
  \<^verbatim>\<open>Bearer\<close>, a space and a token of the URL-safe alphabet that ends in a word character is
  replaced as a whole, under any key.
\<close>

theorem bearer_text_redacted:
  assumes "ascii pre" and "pre = [] \<or> \<not> word_char (last pre)"
    and "list_all token_char u" and "word_char c" and "\<not> word_at (first_rune (runes post))"
  shows "redactAuditValue key (AStr (pre @ ''Bearer '' @ u @ [c] @ post)) = redacted"
proof -
  have au: "ascii (u @ [c])"
    using assms(3,4) word_char_token [of c] by (auto simp: ascii_def list_all_iff token_char_def)
  have ab: "ascii ''Bearer ''" by simp
  have b: "\<not> word_at (after_runes None (map ord_of pre))"
    using assms(2) by (auto simp: after_runes_def word_at_def word_char_def last_map)
  have split: "pre @ ''Bearer '' @ u @ [c] @ post = pre @ ''Bearer '' @ (u @ [c]) @ post" by simp
  have "runes (pre @ ''Bearer '' @ (u @ [c]) @ post) =
      map ord_of pre @ map ord_of ''Bearer '' @ map ord_of (u @ [c]) @ runes post"
    by (subst runes_ascii [OF assms(1)], subst runes_ascii [OF ab], subst runes_ascii [OF au]) (rule refl)
  also have "\<dots> = map ord_of pre @ (map ord_of ''Bearer'' @ 32 # map ord_of (u @ [c]) @ runes post)" by simp
  finally have "MatchString bearer_rx (pre @ ''Bearer '' @ u @ [c] @ post)"
    unfolding MatchString_def split
    using rx_search_skip [OF bearer_match [OF b assms(3,4,5)]] by simp
  then show ?thesis
    by (simp add: redactAuditValue_def patterns_loop_cases sensitiveValuePatterns_def)
qed

lemma bearer_text_redacted_witness:
  "redactAuditValue ''reason'' (AStr ''got Bearer a-b_c, no'') = redacted"
  using bearer_text_redacted [of "''got ''" "''a-b_''" "CHR ''c''" "'', no''" "''reason''"]
  by (simp add: word_char_def word_rune_def token_char_def token_rune_def word_at_def first_rune_def utf8_decode_def)

subsection \<open>The audit entry\<close>

definition fixed_audit_keys :: "string list" where
  "fixed_audit_keys = [''ts'', ''event'', ''src_ip'', ''request_id'', ''ua'']"

definition entry_leak_free :: "(string, aval) gomap \<Rightarrow> bool" where
  "entry_leak_free e \<longleftrightarrow> list_all (\<lambda>(k, v). k \<in> set fixed_audit_keys \<or> leak_free v k) e"

lemma entry_leak_free_update:
  "entry_leak_free e \<Longrightarrow> leak_free v k \<Longrightarrow> entry_leak_free (AList.update k v e)"
  unfolding entry_leak_free_def by (induction e) auto

lemma entry_leak_free_fold:
  "entry_leak_free e \<Longrightarrow>
    entry_leak_free (foldl (\<lambda>entry kv. AList.update (fst kv) (redactAuditValue (fst kv) (snd kv)) entry) e flds)"
  by (induction flds arbitrary: e) (simp_all add: entry_leak_free_update redact_leak_free)


definition sample_request :: request where
  "sample_request = \<lparr>Method = ''GET'', RemoteAddr = ''127.0.0.1:9'', Header = [(''User-Agent'', [''Bearer abc''])],
     URL_Path = ''/'', URL_RawPath = [], URL_RawQuery = [], Body = Inr [], Context = []\<rparr>"

text \<open>
What the redaction does not look into: the user agent is copied into the entry as it is
  (up to 200 bytes), and a list of strings (the redirect URIs of a registration) passes as it
  is, even where the same text in a string field would be replaced.
\<close>

theorem audit_unscanned_values:
  "map_of (audit_entry ts event srcIP (Some sample_request) []) ''ua'' = Some (AStr ''Bearer abc'') \<and>
    redactAuditValue ''redirect_uris'' (AStrings [''Bearer abc'']) = AStrings [''Bearer abc''] \<and>
    redactAuditValue ''redirect_uris'' (AStr ''Bearer abc'') = redacted"
proof -
  have "redactAuditValue ''redirect_uris'' (AStrings [''Bearer abc'']) = AStrings [''Bearer abc'']"
    "redactAuditValue ''redirect_uris'' (AStr ''Bearer abc'') = redacted"
    by code_simp+
  then show ?thesis by (simp add: audit_entry_def sample_request_def header_get_def GetRequestID_def)
qed

definition audit_line ::
    "string \<Rightarrow> string \<Rightarrow> string \<Rightarrow> request option \<Rightarrow> (string \<times> aval) list \<Rightarrow> string" where
  "audit_line ts event srcIP r flds = json_encode (aval_json (AMap (audit_entry ts event srcIP r flds)))"

definition append_line :: "string \<Rightarrow> obs \<Rightarrow> obs" where
  "append_line line ob =
       (let (x, ob1) = audit_call ob in
        case call_result x of
          Inl e \<Rightarrow> count_audit_failure ob1
        | Inr _ \<Rightarrow>
            (case auditWrite line ob1 of
               (Inl e, ob2) \<Rightarrow> count_audit_failure ob2
             | (Inr _, ob2) \<Rightarrow>
                 (case auditWrite [CHR 0x0A] ob2 of
                    (Inl e, ob3) \<Rightarrow> count_audit_failure ob3
                  | (Inr _, ob3) \<Rightarrow> ob3)))"

lemma LogWithIP_append:
  "LogWithIP a ts event srcIP r flds ob =
    (if audit_filePath a = [] then ob else append_line (audit_line ts event srcIP r flds) ob)"
  by (simp only: LogWithIP_def append_line_def audit_line_def Let_def)

lemma audit_call_keeps: "audit_call ob = (x, ob1) \<Longrightarrow> audit_text ob1 = audit_text ob \<and> metrics ob1 = metrics ob"
  by (auto simp: audit_call_def split: list.splits)

lemma auditWrite_keeps:
  assumes w: "auditWrite d ob = (res, ob1)"
  shows "(res = Inr () \<longrightarrow> audit_text ob1 = audit_text ob @ d) \<and> metrics ob1 = metrics ob \<and>
    (\<exists>n. audit_text ob1 = audit_text ob @ take n d)"
proof -
  obtain x o2 where c: "audit_call ob = (x, o2)" by fastforce
  show ?thesis using w c audit_call_keeps [OF c]
    by (cases x) (auto simp: auditWrite_def intro: exI [of _ 0] exI [of _ "length d"])
qed

lemma append_line_accounted:
  "audit_text (append_line line ob) = audit_text ob @ line @ [CHR 0x0A] \<and> metrics (append_line line ob) = metrics ob \<or>
    (\<exists>n. audit_text (append_line line ob) = audit_text ob @ take n (line @ [CHR 0x0A])) \<and>
      metrics (append_line line ob) = metrics (count_audit_failure ob)"
proof -
  obtain x ob1 where c1: "audit_call ob = (x, ob1)" by fastforce
  obtain r2 ob2 where w2: "auditWrite line ob1 = (r2, ob2)" by fastforce
  obtain r3 ob3 where w3: "auditWrite [CHR 0x0A] ob2 = (r3, ob3)" by fastforce
  have t1: "audit_text ob1 = audit_text ob" "metrics ob1 = metrics ob" using audit_call_keeps [OF c1] by simp_all
  note k2 = auditWrite_keeps [OF w2] and k3 = auditWrite_keeps [OF w3]
  consider (opn) e where "call_result x = Inl e" | (partial) e where "call_result x = Inr ()" "r2 = Inl e"
    | (nl) e where "call_result x = Inr ()" "r2 = Inr ()" "r3 = Inl e"
    | (ok) "call_result x = Inr ()" "r2 = Inr ()" "r3 = Inr ()"
    by (metis old.unit.exhaust sum.exhaust)
  then show ?thesis
  proof cases
    case opn
    then have "append_line line ob = count_audit_failure ob1" using c1 by (simp add: append_line_def)
    then show ?thesis using t1 by (intro disjI2) (auto simp: count_audit_failure_def intro: exI [of _ 0])
  next
    case partial
    then have a: "append_line line ob = count_audit_failure ob2" using c1 w2 by (simp add: append_line_def)
    obtain n where "audit_text ob2 = audit_text ob @ take n line" using k2 t1 by auto
    then have "audit_text ob2 = audit_text ob @ take (min n (length line)) (line @ [CHR 0x0A])" by (simp add: min_def)
    then have "\<exists>n. audit_text ob2 = audit_text ob @ take n (line @ [CHR 0x0A])" ..
    then show ?thesis using k2 t1 unfolding a count_audit_failure_def by simp
  next
    case nl
    then have a: "append_line line ob = count_audit_failure ob3" using c1 w2 w3 by (simp add: append_line_def)
    obtain n where "audit_text ob3 = audit_text ob @ line @ take n [CHR 0x0A]" using k3 k2 nl t1 by auto
    then have "audit_text ob3 = audit_text ob @ take (length line + n) (line @ [CHR 0x0A])" by simp
    then have "\<exists>n. audit_text ob3 = audit_text ob @ take n (line @ [CHR 0x0A])" ..
    then show ?thesis using k2 k3 t1 unfolding a count_audit_failure_def by simp
  next
    case ok
    then have "append_line line ob = ob3" using c1 w2 w3 by (simp add: append_line_def)
    then show ?thesis using k2 k3 t1 ok by simp
  qed
qed

text \<open>
  C38. Every audit event is accounted for. With an audit file configured, logging appends the
  whole line with its newline and leaves the counters alone, or appends a part of it and counts
  exactly one failure.
\<close>

theorem audit_write_accounted:
  assumes "audit_filePath a \<noteq> []" and "LogWithIP a ts event srcIP r flds ob = ob'"
    and "line = audit_line ts event srcIP r flds"
  shows "audit_text ob' = audit_text ob @ line @ [CHR 0x0A] \<and> metrics ob' = metrics ob \<or>
    (\<exists>n. audit_text ob' = audit_text ob @ take n (line @ [CHR 0x0A])) \<and>
      metrics ob' = metrics (count_audit_failure ob)"
  using append_line_accounted [of line ob] assms by (simp add: LogWithIP_append)

lemma audit_write_accounted_witness:
  "\<exists>ob'. LogWithIP (NewAuditLogger ''/a'') ''t'' ''e'' [] None []
      \<lparr>audit_text = [], audit_outcomes = [Works, Fails ''disk full''], metrics = zero_counters\<rparr> = ob' \<and>
    AuditWriteFailures (metrics ob') = 1"
proof -
  let ?ob = "\<lparr>audit_text = [], audit_outcomes = [Works, Fails ''disk full''], metrics = zero_counters\<rparr>"
  obtain ob' where o: "LogWithIP (NewAuditLogger ''/a'') ''t'' ''e'' [] None [] ?ob = ob'" by blast
  have "metrics ob' \<noteq> metrics ?ob"
    using o by (auto simp: LogWithIP_def NewAuditLogger_def audit_call_def call_result_def auditWrite_def
        count_audit_failure_def Inc_def zero_counters_def)
  with audit_write_accounted [OF _ o refl] have "metrics ob' = metrics (count_audit_failure ?ob)"
    by (auto simp: NewAuditLogger_def)
  then show ?thesis using o by (simp add: count_audit_failure_def Inc_def zero_counters_def)
qed

end
