(* ===== verification/StoreInterface.thy ===== *)
theory StoreInterface
  imports GoFloat Prelude
begin

text \<open>
  \<^verbatim>\<open>internal/storage/interface.go\<close>: the \<^verbatim>\<open>Store\<close> interface as a record of operations over the
  state of a store, and its contract as the locale \<^verbatim>\<open>token_store\<close>. An operation takes the
  reading of the clock it makes (\<^verbatim>\<open>time.Now().Unix()\<close>) as its argument \<open>t\<close>.

  The contract is stated for the maps the program makes: keys of plain text, expiry times that
  are whole positive seconds below ten to the 15 (year 31 million), clocks in the same range.
\<close>

type_synonym tokens = "(string, f64) gomap"

record 's Store =
  st_Load :: "int \<Rightarrow> 's \<Rightarrow> tokens result \<times> 's"
  st_Save :: "int \<Rightarrow> tokens \<Rightarrow> 's \<Rightarrow> unit result \<times> 's"
  st_Close :: "'s \<Rightarrow> unit result \<times> 's"

definition live_tokens :: "f64 \<Rightarrow> tokens \<Rightarrow> tokens" where
  "live_tokens now m = filter (\<lambda>(k, v). v > now) m"

lemma gomap_ok_live [simp]: "gomap_ok m \<Longrightarrow> gomap_ok (live_tokens now m)"
  by (simp add: live_tokens_def)

lemma live_tokens_gt: "(k, v) \<in> set (live_tokens now m) \<Longrightarrow> v > now"
  by (simp add: live_tokens_def)

lemma map_of_live:
  "gomap_ok m \<Longrightarrow> map_of (live_tokens now m) k =
    (case map_of m k of None \<Rightarrow> None | Some v \<Rightarrow> if v > now then Some v else None)"
  by (simp add: live_tokens_def map_of_filter_gomap)

lemma map_of_live_cong:
  assumes "gomap_ok m" "gomap_ok m'" "map_of m = map_of m'"
  shows "map_of (live_tokens now m) = map_of (live_tokens now m')"
  using assms by (auto simp: map_of_live)

lemma map_of_live_twice:
  "gomap_ok m \<Longrightarrow> map_of (live_tokens a (live_tokens b m)) = map_of (live_tokens (max a b) m)"
  by (auto simp: map_of_live split: option.splits)

definition plain_char :: "char \<Rightarrow> bool" where
  "plain_char c \<longleftrightarrow> 0x20 \<le> ord_of c \<and> ord_of c < 0x80 \<and> c \<noteq> CHR 0x22 \<and> c \<noteq> CHR 0x5C \<and> c \<notin> set ''<>&''"

definition plain_text :: "string \<Rightarrow> bool" where
  "plain_text s \<longleftrightarrow> list_all plain_char s"

definition whole_seconds :: "f64 \<Rightarrow> bool" where
  "whole_seconds v \<longleftrightarrow> v = of_int \<lfloor>v\<rfloor> \<and> 0 < v \<and> v < 10 ^ 15"

definition clean_tokens :: "tokens \<Rightarrow> bool" where
  "clean_tokens m \<longleftrightarrow> gomap_ok m \<and> list_all (\<lambda>(k, v). plain_text k \<and> whole_seconds v) m"

definition clock :: "int \<Rightarrow> bool" where
  "clock t \<longleftrightarrow> 0 < t \<and> t < 10 ^ 15"

lemma clean_tokens_ok [simp]: "clean_tokens m \<Longrightarrow> gomap_ok m"
  by (simp add: clean_tokens_def)

lemma clean_tokens_Nil [simp]: "clean_tokens []"
  by (simp add: clean_tokens_def)

lemma clean_tokens_live [simp]: "clean_tokens m \<Longrightarrow> clean_tokens (live_tokens now m)"
  by (auto simp: clean_tokens_def live_tokens_def list_all_iff)

lemma clean_tokens_delete [simp]: "clean_tokens m \<Longrightarrow> clean_tokens (AList.delete k m)"
  by (auto simp: clean_tokens_def list_all_iff AList.delete_eq)

lemma clean_tokens_update [simp]:
  "clean_tokens m \<Longrightarrow> plain_text k \<Longrightarrow> whole_seconds v \<Longrightarrow> clean_tokens (AList.update k v m)"
proof -
  have "list_all P m \<Longrightarrow> P (k, v) \<Longrightarrow> list_all P (AList.update k v m)" for P :: "string \<times> f64 \<Rightarrow> bool"
    by (induction m) auto
  then show "clean_tokens m \<Longrightarrow> plain_text k \<Longrightarrow> whole_seconds v \<Longrightarrow> clean_tokens (AList.update k v m)"
    by (simp add: clean_tokens_def)
qed

lemma clock_exact: "clock t \<Longrightarrow> f64_of_int t = of_int t"
  by (rule f64_of_int_exact) (auto simp: clock_def)

text \<open>What a store promises, on the states \<open>ok\<close>, about the map \<open>holds\<close> it stands for.\<close>

locale token_store =
  fixes st :: "'s Store" and ok :: "'s \<Rightarrow> bool" and holds :: "'s \<Rightarrow> tokens"
  assumes holds_gomap: "ok s \<Longrightarrow> gomap_ok (holds s)"
    and load_ok: "ok s \<Longrightarrow> clock t \<Longrightarrow> st_Load st t s = (rl, s') \<Longrightarrow> ok s' \<and> map_of (holds s') = map_of (holds s)"
    and load_live: "ok s \<Longrightarrow> clock t \<Longrightarrow> st_Load st t s = (Inr m, s') \<Longrightarrow>
      gomap_ok m \<and> map_of m = map_of (live_tokens (of_int t) (holds s))"
    and save_ok: "ok s \<Longrightarrow> clock t \<Longrightarrow> clean_tokens m \<Longrightarrow> st_Save st t m s = (r, s') \<Longrightarrow> ok s'"
    and save_all: "ok s \<Longrightarrow> clock t \<Longrightarrow> clean_tokens m \<Longrightarrow> st_Save st t m s = (Inr u, s') \<Longrightarrow>
      map_of (holds s') = map_of (live_tokens (of_int t) m)"
    and save_nothing: "ok s \<Longrightarrow> clock t \<Longrightarrow> clean_tokens m \<Longrightarrow> st_Save st t m s = (Inl e, s') \<Longrightarrow>
      map_of (holds s') = map_of (holds s) \<or> map_of (holds s') = map_of (live_tokens (of_int t) m)"
    and close_keeps: "ok s \<Longrightarrow> st_Close st s = (r, s') \<Longrightarrow> ok s' \<and> map_of (holds s') = map_of (holds s)"
begin

lemma save_load:
  assumes "ok s" and "clock t" and "clock t'" and "clean_tokens m"
    and "st_Save st t m s = (Inr u, s1)" and "st_Load st t' s1 = (Inr m', s2)"
  shows "map_of m' = map_of (live_tokens (of_int (max t t')) m)"
proof -
  have ok1: "ok s1" using save_ok assms by blast
  have "map_of (holds s1) = map_of (live_tokens (of_int t) m)" using save_all assms by blast
  then have "map_of (live_tokens (of_int t') (holds s1)) =
      map_of (live_tokens (of_int t') (live_tokens (of_int t) m))"
    using holds_gomap [OF ok1] assms(4) by (intro map_of_live_cong) simp_all
  also have "\<dots> = map_of (live_tokens (of_int (max t t')) m)"
    using assms(4) by (simp add: map_of_live_twice max_def)
  finally show ?thesis using load_live [OF ok1 assms(3,6)] by simp
qed

text \<open>A saved token is there after a restart until it expires.\<close>

lemma saved_token_survives:
  assumes "ok s" and "clock t" and "clock t'" and "clean_tokens m"
    and "st_Save st t m s = (Inr u, s1)" and "st_Load st t' s1 = (Inr m', s2)"
    and "map_of m k = Some v" and "of_int t < v" and "of_int t' < v"
  shows "map_of m' k = Some v"
  using save_load [OF assms(1-6)] assms(4,7-9) by (simp add: map_of_live)

lemma load_twice:
  assumes "ok s" and "clock t" and "clock t'"
    and "st_Load st t s = (r, s1)" and "st_Load st t' s1 = (Inr m, s2)"
  shows "map_of m = map_of (live_tokens (of_int t') (holds s))"
  using load_ok [OF assms(1,2,4)] load_live [OF _ assms(3,5)] holds_gomap assms(1)
  by (metis map_of_live_cong)

end

end
