(* ===== verification/Service.thy ===== *)
theory Service
  imports OAuthCore Security Config Observability StoreInterface
begin

text \<open>
  \<^verbatim>\<open>internal/oauthproxy/service.go\<close>: the OAuth service. The two maps, the store, the audit
  log and the counters are the fields of a record that every operation takes and returns. The
  store is a value of the interface (\<^verbatim>\<open>Store\<close>) with its own state, so the same definitions run
  over the file store and the database.

  Readings of the clock are arguments: nanoseconds for \<^verbatim>\<open>time.Now()\<close>, seconds where the code
  takes \<^verbatim>\<open>Unix()\<close>. Bytes of \<^verbatim>\<open>crypto/rand\<close> are arguments too, and a failing reader makes the
  operation panic, which is an outcome of its own: the HTTP server catches it and drops the
  connection. The structured log lines are left out.
\<close>

datatype 'a run = Panics string | Returns 'a

definition mcpBasePath :: string where
  "mcpBasePath = ''/mcp''"

definition mcpScope :: string where
  "mcpScope = ''mcp''"

definition mcpServiceURL :: "string \<Rightarrow> string" where
  "mcpServiceURL baseURL = baseURL @ mcpBasePath"

record 's Service =
  cfg :: Config
  store :: "'s Store"
  store_state :: 's
  audit :: AuditLogger
  authCodes :: "(string, AuthCode) gomap"
  accessTokens :: tokens
  backendURL :: "url option"
  observed :: obs

subsection \<open>Instants and durations\<close>

definition second :: int where
  "second = 1000000000"

definition Unix :: "int \<Rightarrow> int" where
  "Unix ns = ns div second"

text \<open>\<^verbatim>\<open>time.Duration(ttl) * time.Second\<close>: a 64-bit product that wraps.\<close>

definition seconds_duration :: "int \<Rightarrow> int" where
  "seconds_duration ttl = sint (word_of_int (ttl * second) :: 64 word)"

subsection \<open>Construction\<close>

definition NewService ::
    "Config \<Rightarrow> 's Store \<Rightarrow> 's \<Rightarrow> AuditLogger \<Rightarrow> obs \<Rightarrow> int \<Rightarrow> 's Service result \<times> 's" where
  "NewService c st s a ob t =
    (case st_Load st t s of
       (Inl e, s1) \<Rightarrow> (Inl (''failed to load tokens: '' @ e), s1)
     | (Inr tokens, s1) \<Rightarrow>
         (let mk = (\<lambda>u. \<lparr>cfg = c, store = st, store_state = s1, audit = a, authCodes = [],
                          accessTokens = tokens, backendURL = u, observed = ob\<rparr>);
              raw = cfg_HugoMCPURL (OAuthProxy c) in
          if raw \<noteq> [] then
            (case url_parse raw of
               None \<Rightarrow> (Inl (''invalid backend URL '' @ [CHR 0x22] @ raw @ [CHR 0x22] @ '': ''), s1)
             | Some u \<Rightarrow> (Inr (mk (Some u)), s1))
          else (Inr (mk None), s1)))"

subsection \<open>Persistence and expiry\<close>

definition count_persistence_failure :: "'s Service \<Rightarrow> 's Service" where
  "count_persistence_failure s =
    s\<lparr>observed := (observed s)\<lparr>metrics := (metrics (observed s))
        \<lparr>TokenPersistenceFailures := Inc (TokenPersistenceFailures (metrics (observed s)))\<rparr>\<rparr>\<rparr>"

text \<open>The snapshot is taken under the lock, saving it is not: two steps.\<close>

definition syncTokens_save :: "tokens \<Rightarrow> int \<Rightarrow> 's Service \<Rightarrow> 's Service" where
  "syncTokens_save snapshot t s =
    (case st_Save (store s) t snapshot (store_state s) of
       (Inl e, st') \<Rightarrow> count_persistence_failure (s\<lparr>store_state := st'\<rparr>)
     | (Inr _, st') \<Rightarrow> s\<lparr>store_state := st'\<rparr>)"

definition syncTokens :: "int \<Rightarrow> 's Service \<Rightarrow> 's Service" where
  "syncTokens t s = (let snapshot = accessTokens s in syncTokens_save snapshot t s)"

text \<open>The clock is read anew for every code; \<open>nowc\<close> gives the reading.\<close>

fun purge_codes_loop :: "(string \<Rightarrow> int) \<Rightarrow> (string \<times> AuthCode) list \<Rightarrow> (string, AuthCode) gomap \<Rightarrow> (string, AuthCode) gomap" where
  "purge_codes_loop nowc [] codes = codes"
| "purge_codes_loop nowc ((code, data) # rest) codes =
    purge_codes_loop nowc rest
      (if ac_ExpiresAt data < nowc code then AList.delete code codes else codes)"

fun purge_tokens_loop :: "f64 \<Rightarrow> (string \<times> f64) list \<Rightarrow> tokens \<Rightarrow> bool \<Rightarrow> tokens \<times> bool" where
  "purge_tokens_loop now [] tokens changed = (tokens, changed)"
| "purge_tokens_loop now ((hash, expiresAt) # rest) tokens changed =
    (if expiresAt \<le> now then purge_tokens_loop now rest (AList.delete hash tokens) True
     else purge_tokens_loop now rest tokens changed)"

definition purge_codes :: "(string \<Rightarrow> int) \<Rightarrow> 's Service \<Rightarrow> 's Service" where
  "purge_codes nowc s = s\<lparr>authCodes := purge_codes_loop nowc (authCodes s) (authCodes s)\<rparr>"

definition purge_tokens :: "int \<Rightarrow> 's Service \<Rightarrow> 's Service \<times> bool" where
  "purge_tokens now s =
    (let (tokens, changed) = purge_tokens_loop (f64_of_int now) (accessTokens s) (accessTokens s) False
     in (s\<lparr>accessTokens := tokens\<rparr>, changed))"

definition PurgeExpired :: "int \<Rightarrow> (string \<Rightarrow> int) \<Rightarrow> int \<Rightarrow> 's Service \<Rightarrow> 's Service" where
  "PurgeExpired now nowc t s =
    (let (s1, changed) = purge_tokens now (purge_codes nowc s)
     in if changed then syncTokens t s1 else s1)"

text \<open>What the purge loop receives: a tick, with the readings the sweep makes, or the end.\<close>

datatype purge_event = Tick int "string \<Rightarrow> int" int | CtxDone

fun StartPurgeLoop :: "purge_event list \<Rightarrow> 's Service \<Rightarrow> 's Service" where
  "StartPurgeLoop [] s = s"
| "StartPurgeLoop (CtxDone # evs) s = s"
| "StartPurgeLoop (Tick now nowc t # evs) s = StartPurgeLoop evs (PurgeExpired now nowc t s)"

subsection \<open>Codes and tokens\<close>

definition AddAuthCode :: "string \<Rightarrow> AuthCode \<Rightarrow> 's Service \<Rightarrow> 's Service" where
  "AddAuthCode code data s = s\<lparr>authCodes := AList.update code data (authCodes s)\<rparr>"

definition GetAuthCode :: "string \<Rightarrow> 's Service \<Rightarrow> AuthCode option" where
  "GetAuthCode code s = map_of (authCodes s) code"

definition ConsumeAuthCode :: "string \<Rightarrow> 's Service \<Rightarrow> AuthCode option \<times> 's Service" where
  "ConsumeAuthCode code s =
    (case map_of (authCodes s) code of
       None \<Rightarrow> (None, s)
     | Some data \<Rightarrow> (Some data, s\<lparr>authCodes := AList.delete code (authCodes s)\<rparr>))"

definition AddAccessToken :: "string \<Rightarrow> int \<Rightarrow> int \<Rightarrow> 's Service \<Rightarrow> unit result \<times> 's Service" where
  "AddAccessToken token expiresAt t s =
    (let hash = HashToken token;
         exp = f64_of_int (Unix expiresAt);
         s1 = s\<lparr>accessTokens := AList.update hash exp (accessTokens s)\<rparr>;
         snapshot = accessTokens s1 in
     case st_Save (store s1) t snapshot (store_state s1) of
       (Inl e, st') \<Rightarrow>
         (Inl e, count_persistence_failure
            (s1\<lparr>store_state := st', accessTokens := AList.delete hash (accessTokens s1)\<rparr>))
     | (Inr _, st') \<Rightarrow> (Inr (), s1\<lparr>store_state := st'\<rparr>))"

definition ValidateAccessToken :: "string \<Rightarrow> int \<Rightarrow> 's Service \<Rightarrow> bool" where
  "ValidateAccessToken token now s =
    (case map_of (accessTokens s) (HashToken token) of
       None \<Rightarrow> False
     | Some expiresAt \<Rightarrow> expiresAt > f64_of_int now)"

subsection \<open>Registration, authorization, exchange\<close>

fun register_loop :: "string list \<Rightarrow> unit result" where
  "register_loop [] = Inr ()"
| "register_loop (uri # uris) =
    (if uri = [] then Inl ''invalid_redirect_uri: empty URI''
     else if \<not> IsAllowedRedirect uri then Inl ''invalid_redirect_uri''
     else register_loop uris)"

definition RegisterClient :: "RegistrationRequest \<Rightarrow> int \<Rightarrow> 's Service \<Rightarrow> RegistrationResponse result" where
  "RegisterClient req now s =
    (if length (rr_RedirectURIs req) = 0 then Inl ''invalid_request: redirect_uris missing or empty''
     else case register_loop (rr_RedirectURIs req) of
       Inl e \<Rightarrow> Inl e
     | Inr _ \<Rightarrow>
         Inr \<lparr>ClientID = cfg_ClientID (OAuthProxy (cfg s)), ClientIDIssuedAt = now,
           RedirectURIs = rr_RedirectURIs req, GrantTypes = [''authorization_code''],
           ResponseTypes = [''code''], TokenEndpointAuthMethod = ''none'',
           CodeChallengeMethodsSupported = [''S256''], rsp_Scope = ''mcp''\<rparr>)"

definition IssueAuthCode ::
    "AuthorizeRequest \<Rightarrow> string result \<Rightarrow> int \<Rightarrow> 's Service \<Rightarrow> string result run \<times> 's Service" where
  "IssueAuthCode req rnd now s =
    (let o' = OAuthProxy (cfg s) in
     if ar_ResponseType req \<noteq> ''code'' then (Returns (Inl ''unsupported_response_type''), s)
     else if constant_time_compare (ar_ClientID req) (cfg_ClientID o') \<noteq> 1 then
       (Returns (Inl ''unauthorized_client''), s)
     else if \<not> IsAllowedRedirect (ar_RedirectURI req) then (Returns (Inl ''invalid_redirect_uri''), s)
     else if ar_State req = [] then (Returns (Inl ''invalid_request: missing state parameter''), s)
     else if ar_CodeChallenge req = [] \<and> cfg_MandatoryPKCE o' then
       (Returns (Inl ''invalid_request: pkce_mandatory''), s)
     else if ar_CodeChallenge req \<noteq> [] \<and> ar_CodeChallengeMethod req \<noteq> ''S256'' then
       (Returns (Inl ''invalid_request: unsupported code_challenge_method''), s)
     else if ar_CodeChallenge req \<noteq> [] \<and>
        (length (ar_CodeChallenge req) < 43 \<or> length (ar_CodeChallenge req) > 128) then
       (Returns (Inl ''invalid_request: code_challenge length invalid''), s)
     else case GenerateRandomString 32 rnd of
       Inl e \<Rightarrow> (Panics e, s)
     | Inr code \<Rightarrow>
         (Returns (Inr code),
          AddAuthCode code
            \<lparr>ac_RedirectURI = ar_RedirectURI req,
             ac_ExpiresAt = now + seconds_duration (cfg_AuthCodeTTL o'),
             ac_CodeChallenge = ar_CodeChallenge req,
             ac_CodeChallengeMethod = ar_CodeChallengeMethod req\<rparr> s))"

definition authenticateClient :: "string \<Rightarrow> string \<Rightarrow> 's Service \<Rightarrow> bool" where
  "authenticateClient clientID clientSecret s =
    (let o' = OAuthProxy (cfg s) in
     if constant_time_compare clientID (cfg_ClientID o') \<noteq> 1 then False
     else if clientSecret = [] then True
     else if cfg_ClientSecret o' = [] then False
     else constant_time_compare clientSecret (cfg_ClientSecret o') = 1)"

definition count_token_issued :: "'s Service \<Rightarrow> 's Service" where
  "count_token_issued s =
    s\<lparr>observed := (observed s)\<lparr>metrics := (metrics (observed s))
        \<lparr>TokensIssuedTotal := Inc (TokensIssuedTotal (metrics (observed s)))\<rparr>\<rparr>\<rparr>"

text \<open>
  The readings of the clock: when the code's expiry is checked, when the token's expiry is
  computed, and (in seconds) when the store filters.
\<close>

definition ExchangeToken ::
    "TokenExchangeRequest \<Rightarrow> string result \<Rightarrow> int \<Rightarrow> int \<Rightarrow> int \<Rightarrow> 's Service
      \<Rightarrow> TokenResponse result run \<times> 's Service" where
  "ExchangeToken req rnd now1 now2 t s =
    (if tr_GrantType req \<noteq> ''authorization_code'' then (Returns (Inl ''unsupported_grant_type''), s)
     else if \<not> authenticateClient (tr_ClientID req) (tr_ClientSecret req) s then
       (Returns (Inl ''invalid_client''), s)
     else case ConsumeAuthCode (tr_Code req) s of
       (None, s1) \<Rightarrow> (Returns (Inl ''invalid_grant: invalid or expired code''), s1)
     | (Some data, s1) \<Rightarrow>
         if ac_ExpiresAt data < now1 then
           (Returns (Inl ''invalid_grant: invalid or expired code''), s1)
         else if tr_RedirectURI req = [] \<or> tr_RedirectURI req \<noteq> ac_RedirectURI data then
           (Returns (Inl ''invalid_grant: redirect_uri mismatch''), s1)
         else if ac_CodeChallenge data \<noteq> [] \<and>
            \<not> ValidatePKCE (ac_CodeChallenge data) (tr_CodeVerifier req) then
           (Returns (Inl ''invalid_grant: pkce verification failed''), s1)
         else case GenerateRandomString 32 rnd of
           Inl e \<Rightarrow> (Panics e, s1)
         | Inr accessToken \<Rightarrow>
             (case AddAccessToken accessToken
                 (now2 + seconds_duration (cfg_AccessTokenTTL (OAuthProxy (cfg s1)))) t s1 of
                (Inl e, s2) \<Rightarrow> (Returns (Inl ''server_error''), s2)
              | (Inr _, s2) \<Rightarrow>
                  (Returns (Inr \<lparr>AccessToken = accessToken, TokenType = ''Bearer'',
                     ExpiresIn = cfg_AccessTokenTTL (OAuthProxy (cfg s2)), Scope = ''mcp''\<rparr>),
                   count_token_issued s2)))"

subsection \<open>Readiness and shutdown\<close>

definition count_readiness_failure :: "'s Service \<Rightarrow> 's Service" where
  "count_readiness_failure s =
    s\<lparr>observed := (observed s)\<lparr>metrics := (metrics (observed s))
        \<lparr>ReadinessFailuresTotal := Inc (ReadinessFailuresTotal (metrics (observed s)))\<rparr>\<rparr>\<rparr>"

definition Ready :: "int \<Rightarrow> 's Service \<Rightarrow> unit result \<times> 's Service" where
  "Ready t s =
    (if cfg_ClientID (OAuthProxy (cfg s)) = [] then (Inl ''config incomplete: missing client_id'', s)
     else if cfg_HugoMCPURL (OAuthProxy (cfg s)) = [] then
       (Inl ''config incomplete: missing backend MCP URL'', s)
     else case st_Load (store s) t (store_state s) of
       (Inl e, st') \<Rightarrow> (Inl (''token store not ready: '' @ e), count_readiness_failure (s\<lparr>store_state := st'\<rparr>))
     | (Inr _, st') \<Rightarrow>
         (let s1 = s\<lparr>store_state := st'\<rparr> in
          case Ping (audit s1) (observed s1) of
            (Inl e, ob) \<Rightarrow>
              (Inl (''audit writer not ready: '' @ e), count_readiness_failure (s1\<lparr>observed := ob\<rparr>))
          | (Inr _, ob) \<Rightarrow> (Inr (), s1\<lparr>observed := ob\<rparr>)))"

definition Service_Close :: "'s Service \<Rightarrow> unit result \<times> 's Service" where
  "Service_Close s = (let (r, st') = st_Close (store s) (store_state s) in (r, s\<lparr>store_state := st'\<rparr>))"

declare mcpServiceURL_def [model_defs] NewService_def [model_defs] syncTokens_def [model_defs]
  syncTokens_save_def [model_defs] purge_codes_def [model_defs] purge_tokens_def [model_defs]
  PurgeExpired_def [model_defs] AddAuthCode_def [model_defs] GetAuthCode_def [model_defs]
  ConsumeAuthCode_def [model_defs] AddAccessToken_def [model_defs] ValidateAccessToken_def [model_defs]
  RegisterClient_def [model_defs] IssueAuthCode_def [model_defs] authenticateClient_def [model_defs]
  ExchangeToken_def [model_defs] Ready_def [model_defs] Service_Close_def [model_defs]

end
