(* ===== verification/GoFloatText.thy ===== *)
theory GoFloatText
  imports GoFloat
begin

text \<open>
  Whole numbers below ten to the 15 survive the decimal text: the shortest text that reads
  back is the plain numeral, and reading the numeral gives the number. Unix times in seconds
  are far below that bound.
\<close>

subsection \<open>Numerals\<close>

lemma show_nat_bounds: "n < 10 ^ length (show_nat n) \<and> (0 < n \<longrightarrow> 10 ^ (length (show_nat n) - 1) \<le> n)"
proof (induction n rule: show_nat.induct)
  case (1 n)
  show ?case
  proof (cases "n < 10")
    case True
    then show ?thesis by (subst (1 2) show_nat.simps) auto
  next
    case False
    define l where "l = length (show_nat (n div 10))"
    have l: "length (show_nat n) = Suc l" using False by (subst show_nat.simps) (simp add: l_def)
    have "0 < l" by (simp add: l_def)
    have ih: "n div 10 < 10 ^ l" "10 ^ (l - 1) \<le> n div 10"
      using 1 [OF False] False by (auto simp: l_def)
    from ih(1) have "n < 10 * 10 ^ l" by (simp add: div_less_iff_less_mult mult.commute)
    moreover have "10 ^ l \<le> n"
    proof -
      have "(10 :: nat) ^ l = 10 * 10 ^ (l - 1)" using \<open>0 < l\<close> by (cases l) simp_all
      also have "\<dots> \<le> 10 * (n div 10)" using ih(2) by simp
      finally show ?thesis by linarith
    qed
    ultimately show ?thesis by (simp add: l)
  qed
qed

lemma show_nat_times_10: "0 < n \<Longrightarrow> show_nat (n * 10) = show_nat n @ ''0''"
  by (subst show_nat.simps) (simp add: char_of_def bit_0)

lemma show_nat_times_pow10: "0 < n \<Longrightarrow> show_nat (n * 10 ^ j) = show_nat n @ replicate j CHR ''0''"
proof (induction j)
  case (Suc j)
  have "show_nat (n * 10 ^ j * 10) = show_nat (n * 10 ^ j) @ ''0''"
    using Suc.prems by (intro show_nat_times_10) simp
  moreover have "n * 10 ^ Suc j = n * 10 ^ j * 10" by simp
  moreover have "replicate j CHR ''0'' @ ''0'' = CHR ''0'' # replicate j CHR ''0''"
    by (simp add: replicate_append_same)
  ultimately show ?case using Suc by (metis append.assoc replicate_Suc)
qed simp

lemma strip_zeros_split: "s = strip_zeros s @ replicate (length s - length (strip_zeros s)) CHR ''0''"
proof -
  define z where "z = takeWhile (\<lambda>c. c = CHR ''0'') (rev s)"
  have s: "s = strip_zeros s @ rev z"
    by (metis strip_zeros_def z_def rev_append rev_rev_ident takeWhile_dropWhile_id)
  have "\<forall>c\<in>set (rev z). c = CHR ''0''" by (auto simp: z_def dest: set_takeWhileD)
  then have "rev z = replicate (length (rev z)) CHR ''0''" using replicate_length_same [of "rev z" "CHR ''0''"] by metis
  moreover have "length (rev z) = length s - length (strip_zeros s)"
    by (metis s length_append diff_add_inverse)
  ultimately show ?thesis using s by metis
qed

subsection \<open>Reading\<close>

lemma is_digit_show_nat: "list_all is_digit (show_nat n)"
  using show_nat_digits [of _ n] by (auto simp: list_all_iff is_digit_def)

lemma parse_float_show_nat:
  assumes "n \<le> 2 ^ 53"
  shows "parse_float (show_nat n) = Some (of_nat n)"
proof -
  obtain c cs where s: "show_nat n = c # cs" by (cases "show_nat n") auto
  then have "c \<noteq> CHR ''-''" using is_digit_show_nat [of n] by (auto simp: is_digit_def)
  then have neg: "take 1 (show_nat n) \<noteq> ''-''" using s by simp
  have dig: "takeWhile is_digit (show_nat n) = show_nat n" "dropWhile is_digit (show_nat n) = []"
    using is_digit_show_nat [of n] by (simp_all add: takeWhile_eq_all_conv list_all_iff)
  have "digits_nat (show_nat n) = n" by (simp add: digits_nat_def digits_val_show_nat)
  then have "lit_abs (show_nat n) = of_nat n"
    unfolding lit_abs_def Let_def if_not_P [OF neg] dig by (simp add: pow10_def)
  then show ?thesis using neg f64_round_nat [OF assms] by (simp add: parse_float_def lit_neg_def)
qed

subsection \<open>Printing\<close>

lemma find_rev_upto_eq:
  assumes "P k" and "lo \<le> k" and "k \<le> hi" and "\<And>j. k < j \<Longrightarrow> j \<le> hi \<Longrightarrow> \<not> P j"
  shows "find P (rev [lo .. hi]) = Some (k :: int)"
proof -
  have "[lo .. hi] = [lo .. k - 1] @ k # [k + 1 .. hi]"
    using assms(2,3) upto_split3 by blast
  moreover have "find P (rev [k + 1 .. hi]) = None"
    using assms(4) by (auto simp: find_None_iff)
  moreover have "find P (xs @ ys) = (case find P xs of None \<Rightarrow> find P ys | Some x \<Rightarrow> Some x)" for xs ys
    by (induction xs) auto
  ultimately show ?thesis using assms(1) by auto
qed

lemma pow10_nat [simp]: "pow10 (int k) = 10 ^ k"
  by (simp add: pow10_def)

lemma dec_exp_nat:
  assumes "0 < n" and "n < 10 ^ 15"
  shows "dec_exp (of_nat n) = int (length (show_nat n) - 1)"
proof -
  let ?d = "length (show_nat n)"
  have b: "n < 10 ^ ?d" "10 ^ (?d - 1) \<le> n" using show_nat_bounds [of n] assms(1) by simp_all
  have "?d - 1 < 15"
  proof (rule ccontr)
    assume "\<not> ?d - 1 < 15"
    then have "(10 :: nat) ^ 15 \<le> 10 ^ (?d - 1)" by (intro power_increasing) simp_all
    with b assms(2) show False by linarith
  qed
  then have "find (\<lambda>k. pow10 k \<le> of_nat n) (rev [-324 .. 308]) = Some (int (?d - 1))"
  proof (intro find_rev_upto_eq)
    have "(of_nat (10 ^ (?d - 1)) :: rat) \<le> of_nat n" using b(2) by (simp only: of_nat_le_iff)
    then show "pow10 (int (?d - 1)) \<le> of_nat n" unfolding pow10_nat by simp
  next
    fix j :: int
    assume "int (?d - 1) < j"
    then obtain m where m: "j = int m" "?d \<le> m" by (cases j) auto
    have "(of_nat n :: rat) < of_nat (10 ^ ?d)" using b(1) by (simp only: of_nat_less_iff)
    also have "\<dots> \<le> 10 ^ m" using m(2) by (simp add: power_increasing)
    finally show "\<not> pow10 j \<le> of_nat n" by (simp only: m(1) pow10_nat not_le)
  qed simp_all
  then show ?thesis by (simp only: dec_exp_def option.case)
qed

text \<open>A candidate of \<open>m\<close> digits reads back only if it is the number itself.\<close>

lemma digit_candidate_nat:
  assumes "0 < n" and "n < 10 ^ 15" and "1 \<le> m" and "m \<le> d" and "10 ^ (d - 1) \<le> n" and "n < 10 ^ d"
  shows "digit_candidate (of_nat n) (int (d - 1)) m =
    (if 10 ^ (d - m) dvd n then Some (int (n div 10 ^ (d - m))) else None)"
proof -
  define k :: nat where "k = 10 ^ (d - m)"
  have kpos: "0 < k" by (simp add: k_def)
  have "k \<le> 10 ^ (d - 1)" unfolding k_def using assms(3) by (intro power_increasing) simp_all
  with assms(2,5) have k15: "k < 10 ^ 15" by linarith
  have "int (d - 1) - int m + 1 = int (d - m)" using assms(3,4) by simp
  then have sc: "pow10 (int (d - 1) - int m + 1) = of_nat k" by (simp only: pow10_nat) (simp add: k_def)
  have lo: "\<lfloor>of_nat n / (of_nat k :: rat)\<rfloor> = int (n div k)"
    by (simp only: floor_divide_of_nat_eq)
  have ok: "f64_round (of_int (int c) * of_nat k) = Some (of_nat n) \<longleftrightarrow> c * k = n"
    if "c * k \<le> 2 ^ 53" for c
  proof -
    have "(of_int (int c) * of_nat k :: rat) = of_nat (c * k)" by simp
    then show ?thesis using f64_round_nat [OF that] by (simp only: option.inject of_nat_eq_iff)
  qed
  have l1: "n div k * k \<le> n" by simp
  have "(n div k + 1) * k \<le> n + k" by simp
  moreover have big: "n + k \<le> 2 ^ 53" using k15 assms(2) by simp
  ultimately have b2: "(n div k + 1) * k \<le> 2 ^ 53" "n div k * k \<le> 2 ^ 53"
    using l1 by (blast intro: order_trans le_add1)+
  have hi: "\<not> (n div k + 1) * k = n"
  proof -
    have "n < (n div k + 1) * k" using kpos dividend_less_div_times [of k n] by simp
    then show ?thesis by simp
  qed
  have s: "int (n div k) + 1 = int (n div k + 1)" by simp
  have dv: "n div k * k = n \<longleftrightarrow> k dvd n" by (metis dvd_div_mult_self dvd_triv_right)
  show ?thesis
    unfolding digit_candidate_def Let_def sc lo s ok [OF b2(1)] ok [OF b2(2)] k_def [symmetric]
    using hi dv by simp
qed

lemma shortest_from_prefix:
  assumes "\<And>m. m \<in> set xs \<Longrightarrow>
      digit_candidate a k m = (if D m then Some (c m) else None)"
    and "digit_candidate a k d = Some cd"
  shows "\<exists>m. (m \<in> set xs \<and> D m \<and> shortest_from a k (xs @ d # ys) = Some (c m, k - int m + 1)) \<or>
    (m = d \<and> shortest_from a k (xs @ d # ys) = Some (cd, k - int d + 1))"
  using assms(1)
proof (induction xs)
  case Nil
  then show ?case using assms(2) by simp
next
  case (Cons x xs)
  show ?case
  proof (cases "D x")
    case True
    with Cons.prems [of x] show ?thesis by auto
  next
    case False
    with Cons.prems [of x] have "shortest_from a k ((x # xs) @ d # ys) = shortest_from a k (xs @ d # ys)"
      by simp
    with Cons.IH Cons.prems show ?thesis by fastforce
  qed
qed

lemma shortest_from_nat:
  assumes "0 < n" and "n < 10 ^ 15"
  shows "\<exists>c j. shortest_from (of_nat n) (dec_exp (of_nat n)) [1 ..< 18] = Some (int c, int j) \<and> c * 10 ^ j = n"
proof -
  define d where "d = length (show_nat n)"
  have b: "10 ^ (d - 1) \<le> n" "n < 10 ^ d" using show_nat_bounds [of n] assms(1) by (simp_all add: d_def)
  have d1: "1 \<le> d" by (simp add: d_def Suc_le_eq)
  have d15: "d \<le> 15"
  proof (rule ccontr)
    assume "\<not> d \<le> 15"
    then have "(10 :: nat) ^ 15 \<le> 10 ^ (d - 1)" by (intro power_increasing) simp_all
    with b assms(2) show False by linarith
  qed
  note cand = digit_candidate_nat [OF assms _ _ b]
  have "[1 ..< d + (18 - d)] = [1 ..< d] @ [d ..< d + (18 - d)]" using d1 by (rule upt_add_eq_append)
  then have split: "[1 ..< 18] = [1 ..< d] @ d # [Suc d ..< 18]"
    using d15 by (simp add: upt_conv_Cons)
  from shortest_from_prefix [of "[1 ..< d]" "of_nat n" "int (d - 1)" "\<lambda>m. 10 ^ (d - m) dvd n"
      "\<lambda>m. int (n div 10 ^ (d - m))" d "int (n div 10 ^ (d - d))" "[Suc d ..< 18]"] cand d1
  obtain m where m: "1 \<le> m" "m \<le> d" "10 ^ (d - m) dvd n"
    and s: "shortest_from (of_nat n) (int (d - 1)) ([1 ..< d] @ d # [Suc d ..< 18]) =
      Some (int (n div 10 ^ (d - m)), int (d - 1) - int m + 1)"
    by fastforce
  have "int (d - 1) - int m + 1 = int (d - m)" using m by simp
  with s have "shortest_from (of_nat n) (dec_exp (of_nat n)) [1 ..< 18] =
      Some (int (n div 10 ^ (d - m)), int (d - m))"
    using dec_exp_nat [OF assms] split by (simp only: d_def)
  with m(3) show ?thesis by (metis dvd_div_mult_self)
qed

lemma f64_text_nat:
  assumes "0 < n" and "n < 10 ^ 15"
  shows "f64_text (of_nat n) = show_nat n"
proof -
  obtain c j where s: "shortest_from (of_nat n) (dec_exp (of_nat n)) [1 ..< 18] = Some (int c, int j)"
    and n: "c * 10 ^ j = n" using shortest_from_nat [OF assms] by blast
  have cpos: "0 < c" using n assms(1) by (cases c) auto
  have sn: "show_nat n = show_nat c @ replicate j CHR ''0''"
    using show_nat_times_pow10 [OF cpos, of j] n by simp
  let ?ds = "show_nat c"
  let ?st = "strip_zeros ?ds"
  have st: "?ds = ?st @ replicate (length ?ds - length ?st) CHR ''0''" by (rule strip_zeros_split)
  have le: "length ?st \<le> length ?ds" by (metis st length_append le_add1)
  have ex: "int (length ?ds) - 1 + int j = int (length ?ds + j - 1)"
    by (simp add: of_nat_diff Suc_le_eq)
  have range: "1 / 1000000 \<le> (of_nat n :: rat)" "(of_nat n :: rat) < 10 ^ 21"
  proof -
    have "(1 :: rat) \<le> of_nat n" using assms(1) by simp
    then show "1 / 1000000 \<le> (of_nat n :: rat)" by simp
    have "(of_nat n :: rat) < of_nat (10 ^ 15)" using assms(2) by (simp only: of_nat_less_iff)
    also have "\<dots> \<le> (10 :: rat) ^ 21" by simp
    finally show "(of_nat n :: rat) < 10 ^ 21" .
  qed
  have "format_digits ?st (int (length ?ds + j - 1)) (of_nat n) =
      ?st @ replicate (length ?ds + j - length ?st) CHR ''0''"
  proof -
    have "nat (int (length ?ds + j - 1) + 1) = length ?ds + j" by (simp add: nat_eq_iff Suc_le_eq)
    moreover have "\<not> int (length ?ds + j - 1) < 0" by simp
    moreover have "int (length ?st) \<le> int (length ?ds + j - 1) + 1" using le by simp
    ultimately show ?thesis using range by (simp only: format_digits_def if_True if_False simp_thms)
  qed
  also have "\<dots> = ?st @ replicate (length ?ds - length ?st) CHR ''0'' @ replicate j CHR ''0''"
    using le by (simp add: replicate_add [symmetric])
  also have "\<dots> = show_nat n" using st sn by (metis append.assoc)
  finally have "format_f64 (of_nat n) = show_nat n"
    using assms(1) s ex by (simp add: format_f64_def Let_def)
  then show ?thesis by (simp add: f64_text_def)
qed

end
