(* ===== verification/GoJSONText.thy ===== *)
theory GoJSONText
  imports GoJSONCodec GoFloatText StoreInterface
begin

text \<open>
  The text \<^verbatim>\<open>MarshalIndent\<close> writes for a flat object of positive whole numbers under plain
  keys is read back by the scanner as that object.
\<close>

lemma plain_char_not_control:
  assumes "plain_char c"
  shows "c \<noteq> CHR 0x08" "c \<noteq> CHR 0x0C" "c \<noteq> CHR 0x0A" "c \<noteq> CHR 0x0D" "c \<noteq> CHR 0x09"
  by (rule notI, use assms in \<open>simp add: plain_char_def\<close>)+

lemma json_escape_ascii_plain: "plain_char c \<Longrightarrow> json_escape_ascii c = [c]"
  using plain_char_not_control [of c]
  by (simp only: json_escape_ascii_def plain_char_def if_False simp_thms not_less [symmetric])

lemma json_escape_plain: "plain_text s \<Longrightarrow> json_escape s = s"
proof (induction s)
  case (Cons c s)
  then have "plain_char c" "json_escape s = s" by (simp_all add: plain_text_def)
  then show ?case by (simp add: json_escape_ascii_plain) (simp add: plain_char_def)
qed simp

lemma unquote_plain: "plain_text s \<Longrightarrow> unquote s = s"
  by (induction s) (auto simp: plain_text_def plain_char_def)

lemma run_string:
  assumes "plain_text s"
  shows "json_run (MStr raw) st (s @ cs) = json_run (MStr (rev s @ raw)) st cs"
  using assms
  by (induction s arbitrary: raw) (auto simp: plain_text_def plain_char_def)

lemma run_digits:
  assumes "list_all is_digit s"
  shows "json_run (MNum NInt raw) st (s @ cs) = json_run (MNum NInt (rev s @ raw)) st cs"
  using assms by (induction s arbitrary: raw) auto

lemma show_nat_first: "0 < n \<Longrightarrow> \<exists>c cs. show_nat n = c # cs \<and> is_digit c \<and> c \<noteq> CHR ''0''"
proof (induction n rule: show_nat.induct)
  case (1 n)
  show ?case
  proof (cases "n < 10")
    case True
    have "(char_of (48 + n) :: char) \<noteq> CHR ''0''"
    proof
      assume "(char_of (48 + n) :: char) = CHR ''0''"
      then have "ord_of (char_of (48 + n) :: char) = ord_of CHR ''0''" by (rule arg_cong)
      with True 1(2) show False by simp
    qed
    moreover have "show_nat n = [char_of (48 + n)]" using True by (subst show_nat.simps) simp
    ultimately show ?thesis using is_digit_show_nat [of n] by simp
  next
    case False
    then have "0 < n div 10" by (simp add: div_greater_zero_iff)
    with 1(1) [OF False] obtain c cs where "show_nat (n div 10) = c # cs" "is_digit c" "c \<noteq> CHR ''0''" by blast
    with False show ?thesis by (subst show_nat.simps) auto
  qed
qed

definition number_member :: "string \<times> nat \<Rightarrow> string \<times> json" where
  "number_member kn = (fst kn, JNum (show_nat (snd kn)))"

definition member_text :: "string \<times> nat \<Rightarrow> string" where
  "member_text kn = ''  '' @ json_quote (fst kn) @ '': '' @ show_nat (snd kn)"

definition member_mode :: "mode \<Rightarrow> bool" where
  "member_mode m \<longleftrightarrow> m = MObjFirst \<or> m = MKey"

lemma run_member:
  assumes "member_mode m" and "plain_text k" and "0 < n" and "c = CHR '','' \<or> c = CHR 0x0A"
  shows "json_run m [FObj acc None] (member_text (k, n) @ c # cs) =
    json_run (if c = CHR '','' then MKey else MAfter) [FObj ((k, JNum (show_nat n)) # acc) None] cs"
proof -
  obtain d ds where d: "show_nat n = d # ds" "is_digit d" "d \<noteq> CHR ''0''" using show_nat_first [OF assms(3)] by blast
  have ds: "list_all is_digit ds" using is_digit_show_nat [of n] d by simp
  have dn: "d \<noteq> CHR '' ''" "d \<noteq> CHR 0x09" "d \<noteq> CHR 0x0A" "d \<noteq> CHR 0x0D" "d \<noteq> CHR ''{''" "d \<noteq> CHR ''[''" "d \<noteq> CHR 0x22" "d \<noteq> CHR ''-''"
    using d(2) by (auto simp: is_digit_def)
  have num: "json_run (MNum NInt [d]) st (ds @ c # cs) =
      (case end_number (show_nat n) c st of More m' st' \<Rightarrow> json_run m' st' cs
       | DoneBefore v \<Rightarrow> Some (v, c # cs) | Done v \<Rightarrow> Some (v, cs) | Bad \<Rightarrow> None)" for st
  proof -
    have "num_step NInt c = None" using assms(4) by (auto simp: is_digit_def)
    moreover have "rev (rev ds @ [d]) = show_nat n" using d by simp
    ultimately show ?thesis
      unfolding run_digits [OF ds] json_run.simps scan_step.simps by (simp only: option.case) (simp add: num_final_def)
  qed
  have "json_run m [FObj acc None] (member_text (k, n) @ c # cs) =
      json_run (MStr []) [FObj acc None] (k @ CHR 0x22 # '': '' @ show_nat n @ c # cs)"
    using assms(1,2) by (auto simp: member_mode_def member_text_def json_quote_def json_escape_plain json_space_def)
  also have "\<dots> = json_run MValue [FObj acc (Some k)] (show_nat n @ c # cs)"
    by (simp add: run_string [OF assms(2)] unquote_plain [OF assms(2)] json_space_def)
  also have "\<dots> = json_run (MNum NInt [d]) [FObj acc (Some k)] (ds @ c # cs)"
    using d dn by (simp add: json_space_def begin_value_def)
  also have "\<dots> = json_run (if c = CHR '','' then MKey else MAfter) [FObj ((k, JNum (show_nat n)) # acc) None] cs"
    unfolding num using assms(4) by (auto simp: end_number_def json_space_def)
  finally show ?thesis .
qed

lemma run_newline:
  assumes "member_mode m"
  shows "json_run m st (CHR 0x0A # cs) = json_run m st cs"
  using assms by (auto simp: member_mode_def json_space_def)

lemma run_members:
  assumes "member_mode m" and "kns \<noteq> []" and "\<And>k n. (k, n) \<in> set kns \<Longrightarrow> plain_text k \<and> 0 < n"
  shows "json_run m [FObj acc None]
      (join_with ('','' @ [CHR 0x0A]) (map member_text kns) @ [CHR 0x0A] @ ''}'') =
    Some (JObj (rev acc @ map number_member kns), [])"
  using assms
proof (induction kns arbitrary: m acc)
  case (Cons kn kns)
  obtain k n where kn: "kn = (k, n)" by (cases kn)
  then have pk: "plain_text k" "0 < n" using Cons.prems(3) [of k n] by simp_all
  show ?case
  proof (cases "kns = []")
    case True
    then show ?thesis
      using run_member [OF Cons.prems(1) pk, of "CHR 0x0A" acc "''}''"]
      by (simp add: kn number_member_def json_space_def)
  next
    case False
    have "json_run MKey [FObj ((k, JNum (show_nat n)) # acc) None]
        (join_with ('','' @ [CHR 0x0A]) (map member_text kns) @ [CHR 0x0A] @ ''}'') =
      Some (JObj (rev ((k, JNum (show_nat n)) # acc) @ map number_member kns), [])"
      using Cons.prems(3) False by (intro Cons.IH) (auto simp: member_mode_def)
    moreover obtain x xs where "map member_text kns = x # xs" using False by (cases kns) auto
    ultimately show ?thesis
      using run_member [OF Cons.prems(1) pk, of "CHR '',''" acc] run_newline [of MKey]
      by (simp add: kn number_member_def member_mode_def)
  qed
qed simp

theorem json_parse_indent_flat:
  assumes "\<And>k n. (k, n) \<in> set kns \<Longrightarrow> plain_text k \<and> 0 < n"
  shows "json_parse (json_indent_flat (map number_member kns)) = Some (JObj (map number_member kns))"
proof (cases "kns = []")
  case True
  show ?thesis unfolding True by code_simp
next
  case False
  have "json_indent_flat (map number_member kns) =
      ''{'' @ [CHR 0x0A] @ join_with ('','' @ [CHR 0x0A]) (map member_text kns) @ [CHR 0x0A] @ ''}''"
    using False by (simp add: json_indent_flat_def member_text_def [abs_def] number_member_def comp_def)
  moreover have "json_run MValue [] (''{'' @ [CHR 0x0A] @ s) = json_run MObjFirst [FObj [] None] s" for s
    by (simp add: json_space_def begin_value_def open_frame_def max_nesting_def)
  ultimately show ?thesis
    using run_members [OF _ False assms, of MObjFirst "[]"] by (simp add: json_parse_def member_mode_def)
qed

end
