(* ===== verification/JSONStore.thy ===== *)
theory JSONStore
  imports GoFS GoJSONText
begin

text \<open>
  \<^verbatim>\<open>internal/storage/json_store.go\<close>: the file store. The reading of the clock that an
  operation takes (\<^verbatim>\<open>time.Now().Unix()\<close>) is its argument \<open>t\<close>. The store's mutex makes each
  operation one step; warnings on standard error are left out, and so is the wording of a
  decoding error after the program's own prefix.
\<close>

record TokenStore =
  filePath :: string
  allowRecover :: bool

definition NewTokenStore :: "string \<Rightarrow> bool \<Rightarrow> TokenStore" where
  "NewTokenStore path allow = \<lparr>filePath = path, allowRecover = allow\<rparr>"

text \<open>\<^verbatim>\<open>json.Unmarshal\<close> into a map of numbers: null is the zero of the map or of a value.\<close>

fun token_fields :: "(string \<times> json) list \<Rightarrow> tokens \<Rightarrow> tokens option" where
  "token_fields [] m = Some m"
| "token_fields ((k, v) # fs) m =
    (case v of
       JNum s \<Rightarrow>
         (case parse_float s of None \<Rightarrow> None | Some r \<Rightarrow> token_fields fs (AList.update k r m))
     | JNull \<Rightarrow> token_fields fs (AList.update k 0 m)
     | _ \<Rightarrow> None)"

definition decode_tokens :: "string \<Rightarrow> tokens option" where
  "decode_tokens data =
    (case json_parse data of
       Some JNull \<Rightarrow> Some []
     | Some (JObj fs) \<Rightarrow> token_fields fs []
     | _ \<Rightarrow> None)"

fun valid_loop :: "f64 \<Rightarrow> tokens \<Rightarrow> tokens \<Rightarrow> tokens" where
  "valid_loop now [] validTokens = validTokens"
| "valid_loop now ((k, v) # ts) validTokens =
    valid_loop now ts (if v > now then AList.update k v validTokens else validTokens)"

text \<open>\<^verbatim>\<open>MarshalIndent\<close> of the map: keys in byte order. It cannot fail on finite numbers.\<close>

definition marshal_tokens :: "tokens \<Rightarrow> string" where
  "marshal_tokens m = json_indent_flat (sort_key fst (map (\<lambda>kv. (fst kv, JNum (f64_text (snd kv)))) m))"

definition TokenStore_Load :: "TokenStore \<Rightarrow> int \<Rightarrow> fs \<Rightarrow> tokens result \<times> fs" where
  "TokenStore_Load s t w =
    (let (st, w1) = os_Stat (filePath s) w in
     if st = NotExist then (Inr [], w1)
     else
       let (_, w2) = os_Chmod (filePath s) (6 * 64) w1;
           (rd, w3) = os_ReadFile (filePath s) w2 in
       case rd of
         Inl e \<Rightarrow> (Inl (''failed to read token file: '' @ e), w3)
       | Inr data \<Rightarrow>
           if length data = 0 then (Inr [], w3)
           else (case decode_tokens data of
               None \<Rightarrow>
                 if allowRecover s then
                   (let backupPath = filePath s @ ''.bak.'' @ show_int t;
                        (r, w4) = os_Rename (filePath s) backupPath w3 in
                    case r of
                      Inl e \<Rightarrow> (Inl (''failed to back up corrupted token file: '' @ e), w4)
                    | Inr _ \<Rightarrow> (Inr [], w4))
                 else (Inl ''failed to unmarshal tokens (corruption detected): '', w3)
             | Some tokens \<Rightarrow> (Inr (valid_loop (f64_of_int t) tokens []), w3)))"

definition TokenStore_Save :: "TokenStore \<Rightarrow> int \<Rightarrow> tokens \<Rightarrow> fs \<Rightarrow> unit result \<times> fs" where
  "TokenStore_Save s t tokens w =
    (let validTokens = valid_loop (f64_of_int t) tokens [];
         data = marshal_tokens validTokens;
         dir = filepath_dir (filePath s);
         (r1, w1) = os_MkdirAll dir w in
     case r1 of Inl e \<Rightarrow> (Inl (''failed to create directory: '' @ e), w1) | Inr _ \<Rightarrow>
     (let tmpFile = filePath s @ ''.tmp'';
          (r2, w2) = os_OpenTrunc tmpFile (6 * 64) w1 in
      case r2 of Inl e \<Rightarrow> (Inl (''failed to create temporary file: '' @ e), w2) | Inr f \<Rightarrow>
      (let (r3, w3) = file_Write f data w2 in
       case r3 of Inl e \<Rightarrow> (Inl (''failed to write to temporary file: '' @ e), w3) | Inr _ \<Rightarrow>
       (let (r4, w4) = file_Sync f w3 in
        case r4 of Inl e \<Rightarrow> (Inl (''failed to fsync temporary file: '' @ e), w4) | Inr _ \<Rightarrow>
        (let (r5, w5) = os_Rename tmpFile (filePath s) w4 in
         case r5 of Inl e \<Rightarrow> (Inl (''failed to rename temporary file: '' @ e), w5) | Inr _ \<Rightarrow>
         (let (r6, w6) = os_OpenDir dir w5 in
          case r6 of Inl e \<Rightarrow> (Inl (''failed to open parent directory for fsync: '' @ e), w6) | Inr _ \<Rightarrow>
          (let (r7, w7) = dir_Sync dir w6 in
           case r7 of Inl e \<Rightarrow> (Inl (''failed to fsync parent directory: '' @ e), w7)
           | Inr _ \<Rightarrow> (Inr (), w7))))))))"

definition TokenStore_Close :: "TokenStore \<Rightarrow> fs \<Rightarrow> unit result \<times> fs" where
  "TokenStore_Close s w = (Inr (), w)"

definition JSON_Store :: "TokenStore \<Rightarrow> fs Store" where
  "JSON_Store s = \<lparr>st_Load = TokenStore_Load s, st_Save = TokenStore_Save s, st_Close = TokenStore_Close s\<rparr>"

declare NewTokenStore_def [model_defs] decode_tokens_def [model_defs] marshal_tokens_def [model_defs]
  TokenStore_Load_def [model_defs] TokenStore_Save_def [model_defs] TokenStore_Close_def [model_defs]
  JSON_Store_def [model_defs]

subsection \<open>The filter loop\<close>

lemma update_fresh: "k \<notin> fst ` set m \<Longrightarrow> AList.update k v m = m @ [(k, v)]"
  by (induction m) auto

lemma valid_loop_filter:
  assumes "gomap_ok m"
  shows "valid_loop now m [] = live_tokens now m"
proof -
  have "gomap_ok (acc @ m) \<Longrightarrow> valid_loop now m acc = acc @ live_tokens now m" for acc
  proof (induction m arbitrary: acc)
    case Nil
    then show ?case by (simp add: live_tokens_def)
  next
    case (Cons kv m)
    obtain k v where kv: "kv = (k, v)" by (cases kv)
    have "k \<notin> fst ` set acc" using Cons.prems kv by (auto simp: gomap_ok_def)
    moreover have "gomap_ok (acc @ m)" "gomap_ok ((acc @ [(k, v)]) @ m)"
      using Cons.prems kv by (auto simp: gomap_ok_def)
    ultimately show ?case
      using Cons.IH [of acc] Cons.IH [of "acc @ [(k, v)]"]
      by (simp add: kv live_tokens_def update_fresh)
  qed
  from this [of "[]"] assms show ?thesis by simp
qed

lemma gomap_ok_token_fields: "token_fields fs m = Some m' \<Longrightarrow> gomap_ok m \<Longrightarrow> gomap_ok m'"
  by (induction fs m rule: token_fields.induct) (auto split: json.splits option.splits)

lemma gomap_ok_decode_tokens: "decode_tokens data = Some m \<Longrightarrow> gomap_ok m"
  by (auto simp: decode_tokens_def split: option.splits json.splits intro: gomap_ok_token_fields)

subsection \<open>Saving\<close>

definition tmp_of :: "TokenStore \<Rightarrow> string" where
  "tmp_of s = filePath s @ ''.tmp''"

lemma tmp_of_neq [simp]: "filePath s \<noteq> tmp_of s"
  by (simp add: tmp_of_def)

definition saved_text :: "int \<Rightarrow> tokens \<Rightarrow> string" where
  "saved_text t m = marshal_tokens (live_tokens (f64_of_int t) m)"

text \<open>
  What each stage of \<^const>\<open>TokenStore_Save\<close> keeps: the name stays safe, and a power cut leaves
  a content from before or the new one.
\<close>

definition save_keeps :: "TokenStore \<Rightarrow> string \<Rightarrow> fs \<Rightarrow> fs \<Rightarrow> bool" where
  "save_keeps s d w w' \<longleftrightarrow>
    safe_name w' (filePath s) (tmp_of s) \<and>
    (\<forall>c. crash_content w' (filePath s) c \<longrightarrow> crash_content w (filePath s) c \<or> c = Some d) \<and>
    (file_content w' (filePath s) = file_content w (filePath s) \<or> file_content w' (filePath s) = Some d)"

lemma save_keeps_trans: "save_keeps s d w w1 \<Longrightarrow> save_keeps s d w1 w2 \<Longrightarrow> save_keeps s d w w2"
  by (auto simp: save_keeps_def)

text \<open>The stages before the rename: they end in a clean temporary file with the new text.\<close>

definition save_prepare :: "TokenStore \<Rightarrow> string \<Rightarrow> fs \<Rightarrow> nat result \<times> fs" where
  "save_prepare s data w =
    (let (r1, w1) = os_MkdirAll (filepath_dir (filePath s)) w in
     case r1 of Inl e \<Rightarrow> (Inl (''failed to create directory: '' @ e), w1) | Inr _ \<Rightarrow>
     (let (r2, w2) = os_OpenTrunc (tmp_of s) (6 * 64) w1 in
      case r2 of Inl e \<Rightarrow> (Inl (''failed to create temporary file: '' @ e), w2) | Inr f \<Rightarrow>
      (let (r3, w3) = file_Write f data w2 in
       case r3 of Inl e \<Rightarrow> (Inl (''failed to write to temporary file: '' @ e), w3) | Inr _ \<Rightarrow>
       (let (r4, w4) = file_Sync f w3 in
        case r4 of Inl e \<Rightarrow> (Inl (''failed to fsync temporary file: '' @ e), w4) | Inr _ \<Rightarrow> (Inr f, w4)))))"

definition save_publish :: "TokenStore \<Rightarrow> fs \<Rightarrow> unit result \<times> fs" where
  "save_publish s w4 =
    (let (r5, w5) = os_Rename (tmp_of s) (filePath s) w4 in
     case r5 of Inl e \<Rightarrow> (Inl (''failed to rename temporary file: '' @ e), w5) | Inr _ \<Rightarrow>
     (let (r6, w6) = os_OpenDir (filepath_dir (filePath s)) w5 in
      case r6 of Inl e \<Rightarrow> (Inl (''failed to open parent directory for fsync: '' @ e), w6) | Inr _ \<Rightarrow>
      (let (r7, w7) = dir_Sync (filepath_dir (filePath s)) w6 in
       case r7 of Inl e \<Rightarrow> (Inl (''failed to fsync parent directory: '' @ e), w7)
       | Inr _ \<Rightarrow> (Inr (), w7))))"

lemma Save_stages:
  assumes "gomap_ok m"
  shows "TokenStore_Save s t m w =
    (let (r, w4) = save_prepare s (saved_text t m) w in
     case r of Inl e \<Rightarrow> (Inl e, w4) | Inr f \<Rightarrow> save_publish s w4)"
  using assms
  by (simp add: TokenStore_Save_def save_prepare_def save_publish_def tmp_of_def saved_text_def
      valid_loop_filter Let_def split: prod.splits sum.splits)

lemma save_prepare_keeps:
  assumes "save_prepare s d w = (r, w4)" and "safe_name w (filePath s) (tmp_of s)"
  shows "save_keeps s d w w4 \<and>
    (\<forall>f. r = Inr f \<longrightarrow> fs_names w4 (tmp_of s) = Some f \<and> fs_data w4 f = d \<and> fs_clean w4 f)"
proof -
  obtain r1 w1 where s1: "os_MkdirAll (filepath_dir (filePath s)) w = (r1, w1)" by fastforce
  from MkdirAll_safe [OF s1 assms(2)] have k1: "save_keeps s d w w1"
    and safe1: "safe_name w1 (filePath s) (tmp_of s)" by (simp_all add: save_keeps_def)
  obtain r2 w2 where s2: "os_OpenTrunc (tmp_of s) (6 * 64) w1 = (r2, w2)" by fastforce
  note o2 = OpenTrunc_safe [OF s2 safe1 tmp_of_neq]
  then have k2: "save_keeps s d w w2" using k1 by (auto simp: save_keeps_def)
  show ?thesis
  proof (cases "isl r1 \<or> isl r2")
    case True
    with assms(1) s1 s2 k1 k2 show ?thesis by (auto simp: save_prepare_def split: sum.splits)
  next
    case False
    then obtain f where r2: "r2 = Inr f" by (cases r2) auto
    obtain r3 w3 where s3: "file_Write f d w2 = (r3, w3)" by fastforce
    note o3 = Write_safe [OF s3, of "filePath s" "tmp_of s"]
    obtain r4 w4' where s4: "file_Sync f w3 = (r4, w4')" by fastforce
    note o4 = Sync_safe [OF s4, of "filePath s" "tmp_of s"]
    from o2 r2 o3 have k3: "save_keeps s d w w3" using k2 by (auto simp: save_keeps_def)
    from o2 r2 o3 o4 have k4: "save_keeps s d w w4'" using k3 by (auto simp: save_keeps_def)
    show ?thesis using assms(1) s1 s2 r2 s3 s4 False o2 o3 o4 k3 k4
      by (auto simp: save_prepare_def split: sum.splits)
  qed
qed

lemma save_publish_keeps:
  assumes "save_publish s w = (r, w')" and "safe_name w (filePath s) (tmp_of s)"
    and "fs_names w (tmp_of s) = Some f" and "fs_data w f = d" and "fs_clean w f"
  shows "save_keeps s d w w' \<and> (r = Inr () \<longrightarrow>
    file_content w' (filePath s) = Some d \<and> (\<forall>c. crash_content w' (filePath s) c \<longleftrightarrow> c = Some d))"
proof -
  obtain r5 w5 where s5: "os_Rename (tmp_of s) (filePath s) w = (r5, w5)" by fastforce
  note o5 = Rename_safe [OF s5 assms(2) tmp_of_neq assms(3,5)]
  then have k5: "save_keeps s d w w5" using assms(4)
    by (cases r5) (auto simp: save_keeps_def file_content_def)
  show ?thesis
  proof (cases r5)
    case (Inl e)
    with assms(1) s5 k5 show ?thesis by (auto simp: save_publish_def)
  next
    case (Inr u)
    obtain r6 w6 where s6: "os_OpenDir (filepath_dir (filePath s)) w5 = (r6, w6)" by fastforce
    note same = OpenDir_safe [OF s6]
    have f6: "safe_name w6 (filePath s) (tmp_of s)" "fs_names w6 (filePath s) = Some f" "fs_clean w6 f"
        "fs_data w6 f = d" "\<And>c. crash_content w6 (filePath s) c = crash_content w5 (filePath s) c"
        "file_content w6 (filePath s) = file_content w5 (filePath s)" "file_content w5 (filePath s) = Some d"
      using frame_safe [of w6 w5] same o5 Inr assms(4) by (auto simp: file_content_def)
    obtain r7 w7 where s7: "dir_Sync (filepath_dir (filePath s)) w6 = (r7, w7)" by fastforce
    note o7 = dir_Sync_safe [OF s7 f6(1-3)]
    have k6: "save_keeps s d w w6" "save_keeps s d w w7"
      using k5 f6 o7 by (auto simp: save_keeps_def)
    show ?thesis using assms(1) s5 s6 s7 Inr k6 o7 f6
      by (auto simp: save_publish_def split: sum.splits)
  qed
qed

lemma Save_keeps:
  assumes "gomap_ok m" and "safe_name w (filePath s) (tmp_of s)"
    and "TokenStore_Save s t m w = (r, w')"
  shows "save_keeps s (saved_text t m) w w' \<and>
    (r = Inr () \<longrightarrow> file_content w' (filePath s) = Some (saved_text t m) \<and>
      (\<forall>c. crash_content w' (filePath s) c \<longleftrightarrow> c = Some (saved_text t m)))"
proof -
  obtain rp w4 where p: "save_prepare s (saved_text t m) w = (rp, w4)" by fastforce
  note kp = save_prepare_keeps [OF p assms(2)]
  show ?thesis
  proof (cases rp)
    case (Inl e)
    with p kp assms(3) show ?thesis by (auto simp: Save_stages [OF assms(1)])
  next
    case (Inr f)
    with p assms(3) have "save_publish s w4 = (r, w')" by (simp add: Save_stages [OF assms(1)])
    then have "save_keeps s (saved_text t m) w4 w' \<and> (r = Inr () \<longrightarrow>
        file_content w' (filePath s) = Some (saved_text t m) \<and>
        (\<forall>c. crash_content w' (filePath s) c \<longleftrightarrow> c = Some (saved_text t m)))"
      using kp Inr by (intro save_publish_keeps [where f = f]) (auto simp: save_keeps_def)
    with kp save_keeps_trans [of s "saved_text t m" w w4 w'] show ?thesis by blast
  qed
qed

subsection \<open>Loading\<close>

text \<open>The map a file stands for: an absent, empty or unreadable text is the empty map.\<close>

definition text_tokens :: "string option \<Rightarrow> tokens" where
  "text_tokens c =
    (case c of None \<Rightarrow> [] | Some d \<Rightarrow> (if d = [] then [] else case decode_tokens d of None \<Rightarrow> [] | Some m \<Rightarrow> m))"

definition json_holds :: "TokenStore \<Rightarrow> fs \<Rightarrow> tokens" where
  "json_holds s w = text_tokens (file_content w (filePath s))"

definition json_ok :: "TokenStore \<Rightarrow> fs \<Rightarrow> bool" where
  "json_ok s w \<longleftrightarrow> safe_name w (filePath s) (tmp_of s)"

lemma gomap_ok_json_holds [simp]: "gomap_ok (json_holds s w)"
  by (auto simp: json_holds_def text_tokens_def split: option.splits intro: gomap_ok_decode_tokens)

lemma backup_path: "filePath s \<noteq> filePath s @ ''.bak.'' @ n" "filePath s @ ''.bak.'' @ n \<noteq> tmp_of s"
  by (simp_all add: tmp_of_def)

lemma Load_contract:
  assumes "TokenStore_Load s t w = (r, w')" and "json_ok s w"
  shows "json_ok s w' \<and> json_holds s w' = json_holds s w \<and>
    (\<forall>m. r = Inr m \<longrightarrow> m = live_tokens (f64_of_int t) (json_holds s w))"
proof -
  let ?p = "filePath s"
  obtain st w1 where s1: "os_Stat ?p w = (st, w1)" by fastforce
  obtain r2 w2 where s2: "os_Chmod ?p (6 * 64) w1 = (r2, w2)" by fastforce
  obtain rd w3 where s3: "os_ReadFile ?p w2 = (rd, w3)" by fastforce
  have w1: "same_files w1 w" and w3: "same_files w3 w"
    using Stat_looks [OF s1] Chmod_looks [OF s2] ReadFile_looks [OF s3] by (blast intro: same_files_trans)+
  note f1 = same_files_safe [OF w1] and f3 = same_files_safe [OF w3]
  have keep: "json_ok s w1" "json_holds s w1 = json_holds s w" "json_ok s w3" "json_holds s w3 = json_holds s w"
    using f1 f3 assms(2) by (simp_all add: json_ok_def json_holds_def)
  consider (missing) "st = NotExist" | (unread) e where "st \<noteq> NotExist" "rd = Inl e"
    | (read) d where "st \<noteq> NotExist" "rd = Inr d" by (cases rd) auto
  then show ?thesis
  proof cases
    case missing
    with Stat_looks [OF s1] assms(1) s1 keep show ?thesis
      by (auto simp: TokenStore_Load_def json_holds_def text_tokens_def live_tokens_def)
  next
    case unread
    with assms(1) s1 s2 s3 keep show ?thesis by (auto simp: TokenStore_Load_def)
  next
    case read
    have d: "json_holds s w = text_tokens (Some d)"
      using ReadFile_looks(2) [OF s3 read(2)] Stat_looks [OF s1] Chmod_looks [OF s2]
      by (metis json_holds_def same_files_safe(3))
    show ?thesis
    proof (cases "d = [] \<or> decode_tokens d \<noteq> None \<or> \<not> allowRecover s")
      case True
      have run: "TokenStore_Load s t w =
          (if d = [] then (Inr [], w3)
           else case decode_tokens d of
             None \<Rightarrow> (Inl ''failed to unmarshal tokens (corruption detected): '', w3)
           | Some tokens \<Rightarrow> (Inr (valid_loop (f64_of_int t) tokens []), w3))"
        using s1 s2 s3 read True by (auto simp: TokenStore_Load_def split: option.splits)
      show ?thesis
      proof (cases "decode_tokens d")
        case None
        with assms(1) run keep d show ?thesis by (auto simp: text_tokens_def live_tokens_def split: if_splits)
      next
        case (Some m)
        with assms(1) run keep d show ?thesis
          by (auto simp: text_tokens_def live_tokens_def valid_loop_filter gomap_ok_decode_tokens split: if_splits)
      qed
    next
      case False
      obtain r4 w4 where s4: "os_Rename ?p (?p @ ''.bak.'' @ show_int t) w3 = (r4, w4)" by fastforce
      have "safe_name w3 ?p (tmp_of s)" using keep(3) by (simp add: json_ok_def)
      note away = Rename_away [OF s4 this backup_path tmp_of_neq]
      have e: "json_holds s w = []" using d False by (simp add: text_tokens_def)
      have "json_ok s w4" using away by (simp add: json_ok_def)
      moreover have "json_holds s w4 = []"
        using away keep(4) e by (cases "r4 = Inr ()") (auto simp: json_holds_def text_tokens_def)
      ultimately show ?thesis
        using assms(1) s1 s2 s3 s4 read False e
        by (auto simp: TokenStore_Load_def live_tokens_def split: sum.splits)
    qed
  qed
qed

text \<open>Without recovery a load only looks.\<close>

lemma Load_no_recover:
  assumes "TokenStore_Load s t w = (r, w')" and "\<not> allowRecover s"
  shows "same_files w' w"
proof -
  let ?p = "filePath s"
  obtain st w1 where s1: "os_Stat ?p w = (st, w1)" by fastforce
  obtain r2 w2 where s2: "os_Chmod ?p (6 * 64) w1 = (r2, w2)" by fastforce
  obtain rd w3 where s3: "os_ReadFile ?p w2 = (rd, w3)" by fastforce
  have "same_files w1 w" "same_files w3 w"
    using Stat_looks [OF s1] Chmod_looks [OF s2] ReadFile_looks [OF s3] by (blast intro: same_files_trans)+
  then show ?thesis using assms s1 s2 s3
    by (cases rd) (auto simp: TokenStore_Load_def split: if_splits option.splits)
qed

subsection \<open>The saved text is read back\<close>

lemma insort_key_map: "insort_key g (f x) (map f xs) = map f (insort_key (\<lambda>y. g (f y)) x xs)"
  by (induction xs) auto

lemma sort_key_map: "sort_key g (map f xs) = map f (sort_key (\<lambda>y. g (f y)) xs)"
  by (induction xs) (simp_all add: insort_key_map)

lemma whole_seconds_nat:
  assumes "whole_seconds v"
  obtains n where "v = of_nat n" "0 < n" "n < 10 ^ 15" "n = nat \<lfloor>v\<rfloor>"
proof
  have v: "v = of_int \<lfloor>v\<rfloor>" "0 < v" "v < 10 ^ 15" using assms by (simp_all add: whole_seconds_def)
  then have "0 < \<lfloor>v\<rfloor>" by (metis of_int_0_less_iff)
  with v(1) show "v = of_nat (nat \<lfloor>v\<rfloor>)" "0 < nat \<lfloor>v\<rfloor>" by simp_all
  have "(of_int \<lfloor>v\<rfloor> :: rat) < of_int (10 ^ 15)" using v by simp
  then have "\<lfloor>v\<rfloor> < 10 ^ 15" by (simp only: of_int_less_iff)
  then show "nat \<lfloor>v\<rfloor> < 10 ^ 15" by (simp only: nat_less_iff [OF less_imp_le [OF \<open>0 < \<lfloor>v\<rfloor>\<close>]]) simp
qed simp

lemma f64_text_whole: "whole_seconds v \<Longrightarrow> f64_text v = show_nat (nat \<lfloor>v\<rfloor>)"
  by (metis f64_text_nat whole_seconds_nat)

lemma token_fields_numbers:
  assumes "gomap_ok (acc @ map (\<lambda>kn. (fst kn, of_nat (snd kn))) kns)" and "\<And>k n. (k, n) \<in> set kns \<Longrightarrow> n \<le> 2 ^ 53"
  shows "token_fields (map number_member kns) acc = Some (acc @ map (\<lambda>kn. (fst kn, of_nat (snd kn))) kns)"
  using assms
proof (induction kns arbitrary: acc)
  case (Cons kn kns)
  obtain k n where kn: "kn = (k, n)" by (cases kn)
  then have "n \<le> 2 ^ 53" using Cons.prems(2) [of k n] by simp
  moreover have "k \<notin> fst ` set acc" using Cons.prems(1) kn by (auto simp: gomap_ok_def)
  moreover have "\<And>k n. (k, n) \<in> set kns \<Longrightarrow> n \<le> 2 ^ 53" using Cons.prems(2) by (meson list.set_intros(2))
  ultimately show ?case
    using Cons.IH [of "acc @ [(k, of_nat n)]"] Cons.prems(1)
    by (simp add: kn number_member_def parse_float_show_nat update_fresh)
qed simp

lemma decode_marshal:
  assumes "clean_tokens m"
  shows "decode_tokens (marshal_tokens m) = Some (sort_key fst m)"
proof -
  define kns where "kns = map (\<lambda>(k, v). (k, nat \<lfloor>v\<rfloor>)) (sort_key fst m)"
  have w: "plain_text k \<and> whole_seconds v" if "(k, v) \<in> set m" for k v
    using assms that by (auto simp: clean_tokens_def list_all_iff)
  have values_kept: "map (\<lambda>kn. (fst kn, of_nat (snd kn))) kns = sort_key fst m"
  proof -
    have "map ((\<lambda>kn. (fst kn, of_nat (snd kn))) \<circ> (\<lambda>(k, v). (k, nat \<lfloor>v\<rfloor>))) (sort_key fst m) = map id (sort_key fst m)"
      by (rule map_cong [OF refl]) (use w in \<open>fastforce elim!: whole_seconds_nat\<close>)
    then show ?thesis by (simp add: kns_def)
  qed
  have k: "plain_text k \<and> 0 < n \<and> n < 10 ^ 15" if "(k, n) \<in> set kns" for k n
  proof -
    from that obtain v where "(k, v) \<in> set m" "n = nat \<lfloor>v\<rfloor>" by (auto simp: kns_def)
    with w [of k v] show ?thesis by (auto elim!: whole_seconds_nat)
  qed
  have "map (\<lambda>kv. (fst kv, JNum (f64_text (snd kv)))) (sort_key fst m) = map number_member kns"
    using w by (auto simp: kns_def number_member_def) (metis f64_text_whole)
  then have "marshal_tokens m = json_indent_flat (map number_member kns)"
    by (simp add: marshal_tokens_def sort_key_map)
  moreover have "json_parse (json_indent_flat (map number_member kns)) = Some (JObj (map number_member kns))"
    using k by (intro json_parse_indent_flat) blast
  moreover have "token_fields (map number_member kns) [] = Some (sort_key fst m)"
  proof -
    have "gomap_ok (sort_key fst m)"
      using assms by (auto simp: clean_tokens_def gomap_ok_def distinct_map)
    moreover have "\<And>k n. (k, n) \<in> set kns \<Longrightarrow> n \<le> 2 ^ 53" using k by fastforce
    ultimately show ?thesis using token_fields_numbers [of "[]" kns] values_kept by simp
  qed
  ultimately show ?thesis by (simp add: decode_tokens_def)
qed

lemma text_tokens_saved:
  assumes "clean_tokens m"
  shows "map_of (text_tokens (Some (marshal_tokens m))) = map_of m"
proof -
  have "marshal_tokens m \<noteq> []" by (simp add: marshal_tokens_def json_indent_flat_def)
  then show ?thesis using decode_marshal [OF assms] assms by (simp add: text_tokens_def map_of_sort_key)
qed

text \<open>The file store keeps the contract of the interface.\<close>

lemma Save_contract:
  assumes "st_Save (JSON_Store s) t m w = (r, w')" and "json_ok s w" and "clock t" and "clean_tokens m"
  shows "json_ok s w'"
    and "r = Inr () \<Longrightarrow> map_of (json_holds s w') = map_of (live_tokens (of_int t) m)"
    and "map_of (json_holds s w') = map_of (json_holds s w) \<or>
      map_of (json_holds s w') = map_of (live_tokens (of_int t) m)"
proof -
  have k: "save_keeps s (saved_text t m) w w' \<and>
      (r = Inr () \<longrightarrow> file_content w' (filePath s) = Some (saved_text t m))"
    using Save_keeps [of m w s t r w'] assms by (simp add: JSON_Store_def json_ok_def)
  then show "json_ok s w'" by (simp add: json_ok_def save_keeps_def)
  have new: "map_of (text_tokens (Some (saved_text t m))) = map_of (live_tokens (of_int t) m)"
    unfolding saved_text_def using assms(3,4) by (simp add: text_tokens_saved clock_exact)
  show "map_of (json_holds s w') = map_of (live_tokens (of_int t) m)" if "r = Inr ()"
    using that k new by (simp add: json_holds_def)
  show "map_of (json_holds s w') = map_of (json_holds s w) \<or>
      map_of (json_holds s w') = map_of (live_tokens (of_int t) m)"
    using k new by (auto simp: json_holds_def save_keeps_def)
qed

interpretation js: token_store "JSON_Store s" "json_ok s" "json_holds s" for s
proof unfold_locales
  show "\<And>w t rl w'. json_ok s w \<Longrightarrow> clock t \<Longrightarrow> st_Load (JSON_Store s) t w = (rl, w') \<Longrightarrow>
      json_ok s w' \<and> map_of (json_holds s w') = map_of (json_holds s w)"
    and "\<And>w t m w'. json_ok s w \<Longrightarrow> clock t \<Longrightarrow> st_Load (JSON_Store s) t w = (Inr m, w') \<Longrightarrow>
      gomap_ok m \<and> map_of m = map_of (live_tokens (of_int t) (json_holds s w))"
    using Load_contract by (fastforce simp: JSON_Store_def clock_exact)+
qed (use Save_contract in \<open>(simp add: JSON_Store_def TokenStore_Close_def; fail | blast)+\<close>)

subsection \<open>A concrete run\<close>

definition empty_fs :: "outcome list \<Rightarrow> fs" where
  "empty_fs xs = \<lparr>fs_names = \<lambda>_. None, fs_names_disk = [\<lambda>_. None], fs_data = \<lambda>_. [],
     fs_mode = \<lambda>_. 0, fs_clean = \<lambda>_. False, fs_next = 0, fs_dirs = [], fs_outcomes = xs\<rparr>"

definition sample_store :: TokenStore where
  "sample_store = NewTokenStore ''/d/t.json'' True"

definition sample_tokens :: tokens where
  "sample_tokens = [(''b'', 5000), (''a'', 900)]"

lemma json_ok_empty [simp]: "json_ok s (empty_fs xs)"
  by (simp add: json_ok_def safe_name_def empty_fs_def)

lemma sample_tokens_clean: "clean_tokens sample_tokens"
  by (simp add: sample_tokens_def clean_tokens_def gomap_ok_def plain_text_def plain_char_def whole_seconds_def)

lemma sample_save:
  "\<exists>w1. TokenStore_Save sample_store 1000 sample_tokens (empty_fs (replicate 10 Works)) = (Inr (), w1) \<and>
    fs_outcomes w1 = [Works, Works, Works] \<and> fs_names w1 ''/d/t.json'' = Some 0 \<and>
    fs_data w1 0 = saved_text 1000 sample_tokens"
proof -
  have "gomap_ok sample_tokens" using sample_tokens_clean by simp
  then show ?thesis
    by (simp add: Save_stages save_prepare_def save_publish_def fs_ops go_defs Let_def empty_fs_def
        sample_store_def NewTokenStore_def tmp_of_def numeral_eq_Suc)
qed

lemma sample_load:
  assumes "fs_outcomes w = [Works, Works, Works]" and "fs_names w ''/d/t.json'' = Some 0"
    and "fs_data w 0 = saved_text 1000 sample_tokens"
  shows "\<exists>m w'. TokenStore_Load sample_store 1500 w = (Inr m, w')"
proof -
  have "\<exists>m. decode_tokens (saved_text 1000 sample_tokens) = Some m"
    using decode_marshal [of "live_tokens (f64_of_int 1000) sample_tokens"] sample_tokens_clean
    by (simp add: saved_text_def)
  then show ?thesis using assms
    by (auto simp: TokenStore_Load_def sample_store_def NewTokenStore_def os_Stat_def os_Chmod_def
        os_ReadFile_def next_outcome_def call_result_def)
qed

text \<open>
  C12. Saving is atomic and durable. Whatever calls fail and wherever the process ends (the
  outcomes in \<open>w\<close> are arbitrary), a power cut after \<^verbatim>\<open>Save\<close> leaves under the token file's name
  either a content that a cut before it could have left or the whole new text; after a
  \<^verbatim>\<open>Save\<close> that reports success it leaves the new text and nothing else. The next \<^verbatim>\<open>Save\<close> starts
  from a state of the same kind.
\<close>

theorem save_crash_atomic:
  assumes "gomap_ok m" and "safe_name w (filePath s) (tmp_of s)"
    and "TokenStore_Save s t m w = (r, w')"
  shows "safe_name w' (filePath s) (tmp_of s) \<and>
    (\<forall>c. crash_content w' (filePath s) c \<longrightarrow>
       crash_content w (filePath s) c \<or> c = Some (saved_text t m)) \<and>
    (r = Inr () \<longrightarrow> (\<forall>c. crash_content w' (filePath s) c \<longleftrightarrow> c = Some (saved_text t m)))"
  using Save_keeps [OF assms] by (auto simp: save_keeps_def)

lemma save_crash_atomic_witness:
  "\<exists>w'. TokenStore_Save sample_store 1000 sample_tokens (empty_fs (replicate 10 Works)) = (Inr (), w') \<and>
    (\<forall>c. crash_content w' ''/d/t.json'' c \<longleftrightarrow> c = Some (saved_text 1000 sample_tokens))"
proof -
  obtain w' where w': "TokenStore_Save sample_store 1000 sample_tokens (empty_fs (replicate 10 Works)) = (Inr (), w')"
    using sample_save by blast
  have "gomap_ok sample_tokens" using sample_tokens_clean by simp
  moreover have "safe_name (empty_fs (replicate 10 Works)) (filePath sample_store) (tmp_of sample_store)"
    using json_ok_empty by (simp add: json_ok_def)
  ultimately show ?thesis
    using save_crash_atomic [of sample_tokens _ sample_store 1000 "Inr ()" w'] w'
    by (auto simp: sample_store_def NewTokenStore_def)
qed

text \<open>
  C18. Persistence round trip of the file store. After a \<^verbatim>\<open>Save\<close> that reports success, a later
  \<^verbatim>\<open>Load\<close> that succeeds returns exactly the saved tokens that are still live at both clock
  readings: the decimal text of every expiry time, the sorted keys and the indentation are
  read back by the scanner as the map that was written.
\<close>

theorem json_save_load:
  assumes "json_ok s w" and "clock t" and "clock t'" and "clean_tokens m"
    and "TokenStore_Save s t m w = (Inr u, w1)" and "TokenStore_Load s t' w1 = (Inr m', w2)"
  shows "map_of m' = map_of (live_tokens (of_int (max t t')) m)"
  using js.save_load [OF assms(1-4), of u w1 m' w2] assms(5,6) by (simp add: JSON_Store_def)

lemma json_save_load_witness:
  "\<exists>w1 w2 m'. TokenStore_Save sample_store 1000 sample_tokens (empty_fs (replicate 10 Works)) = (Inr (), w1) \<and>
    TokenStore_Load sample_store 1500 w1 = (Inr m', w2) \<and> map_of m' = [''b'' \<mapsto> 5000]"
proof -
  obtain w1 where w1: "TokenStore_Save sample_store 1000 sample_tokens (empty_fs (replicate 10 Works)) = (Inr (), w1)"
    and l: "\<exists>m w'. TokenStore_Load sample_store 1500 w1 = (Inr m, w')"
    using sample_save sample_load by blast
  from l obtain m' w2 where w2: "TokenStore_Load sample_store 1500 w1 = (Inr m', w2)" by blast
  have "map_of m' = map_of (live_tokens (of_int (max 1000 1500)) sample_tokens)"
    by (rule json_save_load [OF json_ok_empty _ _ sample_tokens_clean w1 w2]) (simp_all add: clock_def)
  then show ?thesis using w1 w2 by (auto simp: live_tokens_def sample_tokens_def)
qed

text \<open>
A corrupted token file is never lost. Loading a file that does not decode either fails
  and leaves the bytes where they are, or, with recovery on, starts empty and has moved the
  same bytes to the backup name; without recovery it always fails.
\<close>

theorem load_corrupt_keeps_bytes:
  assumes "file_content w (filePath s) = Some d" and "d \<noteq> []" and "decode_tokens d = None"
    and "TokenStore_Load s t w = (r, w')"
  shows "(\<exists>e. r = Inl e) \<and> file_content w' (filePath s) = Some d \<or>
    r = Inr [] \<and> allowRecover s \<and> file_content w' (filePath s) = None \<and>
      file_content w' (filePath s @ ''.bak.'' @ show_int t) = Some d"
proof -
  let ?p = "filePath s"
  obtain st w1 where s1: "os_Stat ?p w = (st, w1)" by fastforce
  obtain r2 w2 where s2: "os_Chmod ?p (6 * 64) w1 = (r2, w2)" by fastforce
  obtain rd w3 where s3: "os_ReadFile ?p w2 = (rd, w3)" by fastforce
  have fc: "file_content w2 ?p = Some d" "file_content w3 ?p = Some d"
    using Stat_looks [OF s1] Chmod_looks [OF s2] ReadFile_looks [OF s3] assms(1)
    by (metis same_files_safe(3))+
  have ex: "st \<noteq> NotExist" using Stat_looks [OF s1] assms(1) by auto
  show ?thesis
  proof (cases rd)
    case (Inl e)
    with assms(4) s1 s2 s3 ex fc show ?thesis by (auto simp: TokenStore_Load_def)
  next
    case (Inr d')
    then have d': "d' = d" using ReadFile_looks(2) [OF s3] fc by simp
    obtain r4 w4 where s4: "os_Rename ?p (?p @ ''.bak.'' @ show_int t) w3 = (r4, w4)" by fastforce
    have mv: "if r4 = Inr () then file_content w4 ?p = None \<and>
        file_content w4 (?p @ ''.bak.'' @ show_int t) = Some d else file_content w4 ?p = Some d"
      using Rename_moves [OF s4 backup_path(1)] unfolding fc .
    show ?thesis
      using assms(2-4) s1 s2 s3 s4 ex Inr d' fc mv
      by (auto simp: TokenStore_Load_def split: if_splits sum.splits)
  qed
qed

definition corrupt_fs :: fs where
  "corrupt_fs = (empty_fs (replicate 4 Works))
     \<lparr>fs_names := [''/d/t.json'' \<mapsto> 0], fs_data := \<lambda>_. ''x'', fs_next := 1\<rparr>"

lemma load_corrupt_keeps_bytes_witness:
  "\<exists>w'. TokenStore_Load sample_store 7 corrupt_fs = (Inr [], w') \<and>
    file_content w' (''/d/t.json'' @ ''.bak.'' @ show_int 7) = Some ''x''"
proof -
  obtain r w' where l: "TokenStore_Load sample_store 7 corrupt_fs = (r, w')" by fastforce
  have bad: "decode_tokens ''x'' = None" by code_simp
  have p: "filePath sample_store = ''/d/t.json''" by (simp add: sample_store_def NewTokenStore_def)
  have "fst (TokenStore_Load sample_store 7 corrupt_fs) = Inr []"
    using bad by (simp add: TokenStore_Load_def fs_ops go_defs Let_def empty_fs_def corrupt_fs_def
        sample_store_def NewTokenStore_def numeral_eq_Suc)
  then have "r = Inr []" by (simp add: l)
  moreover have "file_content corrupt_fs ''/d/t.json'' = Some ''x''"
    by (simp add: file_content_def corrupt_fs_def)
  ultimately show ?thesis
    using load_corrupt_keeps_bytes [of corrupt_fs sample_store "''x''" 7 r w'] bad l p by auto
qed

end
