(* ===== verification/SQLStore.thy ===== *)
theory SQLStore
  imports JSONStore
begin

text \<open>
  \<^verbatim>\<open>internal/storage/sqlite_store.go\<close> and \<^verbatim>\<open>migration.go\<close>. The database driver
  (\<^verbatim>\<open>modernc.org/sqlite\<close> behind \<^verbatim>\<open>database/sql\<close>) is not part of the repository: it is a parameter,
  the record \<^verbatim>\<open>sql_engine\<close> of the calls the code makes, with the SQL text as an argument.
  What the code relies on is the predicate \<^verbatim>\<open>sql_engine_ok\<close>: transactions are atomic, a query
  returns the matching rows. \<^verbatim>\<open>list_engine\<close> is a table kept in a list that meets it.

  Closing rows and statements has no effect a caller sees and is left out.
\<close>

type_synonym sql_row = "string + string \<times> int"

record 'db sql_engine =
  eng_Open :: "string \<Rightarrow> 'db \<Rightarrow> 'db"
  eng_Exec :: "string \<Rightarrow> 'db \<Rightarrow> unit result \<times> 'db"
  eng_Query :: "string \<Rightarrow> int \<Rightarrow> 'db \<Rightarrow> (sql_row list \<times> unit result) result \<times> 'db"
  eng_Begin :: "'db \<Rightarrow> unit result \<times> 'db"
  eng_TxExec :: "string \<Rightarrow> 'db \<Rightarrow> unit result \<times> 'db"
  eng_TxPrepare :: "string \<Rightarrow> 'db \<Rightarrow> unit result \<times> 'db"
  eng_StmtExec :: "string \<Rightarrow> string \<Rightarrow> int \<Rightarrow> 'db \<Rightarrow> unit result \<times> 'db"
  eng_Commit :: "'db \<Rightarrow> unit result \<times> 'db"
  eng_Rollback :: "'db \<Rightarrow> 'db"
  eng_CloseDB :: "'db \<Rightarrow> unit result \<times> 'db"

definition pragma_sql :: string where
  "pragma_sql = ''PRAGMA journal_mode = WAL; PRAGMA synchronous = NORMAL; PRAGMA busy_timeout = 5000; PRAGMA journal_size_limit = 10485760;''"

definition schema_sql :: string where
  "schema_sql = ''CREATE TABLE IF NOT EXISTS access_tokens (token_hash TEXT PRIMARY KEY, expires_at INTEGER NOT NULL) WITHOUT ROWID; CREATE INDEX IF NOT EXISTS idx_access_tokens_expiry ON access_tokens(expires_at); CREATE TABLE IF NOT EXISTS schema_version (version INTEGER PRIMARY KEY);''"

definition select_sql :: string where
  "select_sql = ''SELECT token_hash, expires_at FROM access_tokens WHERE expires_at > ?''"

definition delete_sql :: string where
  "delete_sql = ''DELETE FROM access_tokens''"

definition insert_sql :: string where
  "insert_sql = ''INSERT INTO access_tokens (token_hash, expires_at) VALUES (?, ?)''"

definition checkpoint_sql :: string where
  "checkpoint_sql = ''PRAGMA wal_checkpoint(TRUNCATE)''"

definition applySQLitePragmas :: "'db sql_engine \<Rightarrow> 'db \<Rightarrow> unit result \<times> 'db" where
  "applySQLitePragmas E db =
    (case eng_Exec E pragma_sql db of
       (Inl e, db1) \<Rightarrow> (Inl (''failed to apply pragmas: '' @ e), db1)
     | (Inr _, db1) \<Rightarrow> (Inr (), db1))"

definition initSQLiteSchema :: "'db sql_engine \<Rightarrow> 'db \<Rightarrow> unit result \<times> 'db" where
  "initSQLiteSchema E db =
    (case eng_Exec E schema_sql db of
       (Inl e, db1) \<Rightarrow> (Inl (''failed to initialize schema: '' @ e), db1)
     | (Inr _, db1) \<Rightarrow> (Inr (), db1))"

definition NewSQLiteStore :: "'db sql_engine \<Rightarrow> string \<Rightarrow> 'db \<Rightarrow> unit result \<times> 'db" where
  "NewSQLiteStore E path db =
    (let db0 = eng_Open E path db in
     case applySQLitePragmas E db0 of
       (Inl e, db1) \<Rightarrow> (Inl e, snd (eng_CloseDB E db1))
     | (Inr _, db1) \<Rightarrow>
         (case initSQLiteSchema E db1 of
            (Inl e, db2) \<Rightarrow> (Inl e, snd (eng_CloseDB E db2))
          | (Inr _, db2) \<Rightarrow> (Inr (), db2)))"

fun rows_loop :: "sql_row list \<Rightarrow> tokens \<Rightarrow> tokens result" where
  "rows_loop [] tokens = Inr tokens"
| "rows_loop (Inl e # rows) tokens = Inl (''failed to scan row: '' @ e)"
| "rows_loop (Inr (hash, expiry) # rows) tokens = rows_loop rows (AList.update hash (f64_of_int expiry) tokens)"

definition SQLiteStore_Load :: "'db sql_engine \<Rightarrow> int \<Rightarrow> 'db \<Rightarrow> tokens result \<times> 'db" where
  "SQLiteStore_Load E t db =
    (case eng_Query E select_sql t db of
       (Inl e, db1) \<Rightarrow> (Inl (''failed to query tokens: '' @ e), db1)
     | (Inr (rows, rows_err), db1) \<Rightarrow>
         (case rows_loop rows [] of
            Inl e \<Rightarrow> (Inl e, db1)
          | Inr tokens \<Rightarrow>
              (case rows_err of
                 Inl e \<Rightarrow> (Inl (''rows error: '' @ e), db1)
               | Inr _ \<Rightarrow> (Inr tokens, db1))))"

fun insert_loop :: "'db sql_engine \<Rightarrow> int \<Rightarrow> tokens \<Rightarrow> 'db \<Rightarrow> unit result \<times> 'db" where
  "insert_loop E now [] db = (Inr (), db)"
| "insert_loop E now ((hash, expiry) # tokens) db =
    (if f64_to_int64 expiry > now then
       (case eng_StmtExec E insert_sql hash (f64_to_int64 expiry) db of
          (Inl e, db1) \<Rightarrow> (Inl (''failed to insert token: '' @ e), db1)
        | (Inr _, db1) \<Rightarrow> insert_loop E now tokens db1)
     else insert_loop E now tokens db)"

text \<open>The deferred \<^verbatim>\<open>Rollback\<close> runs on every path after \<^verbatim>\<open>Begin\<close>, also after a commit.\<close>

definition SQLiteStore_Save :: "'db sql_engine \<Rightarrow> int \<Rightarrow> tokens \<Rightarrow> 'db \<Rightarrow> unit result \<times> 'db" where
  "SQLiteStore_Save E t tokens db =
    (case eng_Begin E db of
       (Inl e, db1) \<Rightarrow> (Inl (''failed to begin transaction: '' @ e), db1)
     | (Inr _, db1) \<Rightarrow>
         apsnd (eng_Rollback E)
          (case eng_TxExec E delete_sql db1 of
             (Inl e, db2) \<Rightarrow> (Inl (''failed to clear tokens: '' @ e), db2)
           | (Inr _, db2) \<Rightarrow>
               (case eng_TxPrepare E insert_sql db2 of
                  (Inl e, db3) \<Rightarrow> (Inl (''failed to prepare statement: '' @ e), db3)
                | (Inr _, db3) \<Rightarrow>
                    (case insert_loop E t tokens db3 of
                       (Inl e, db4) \<Rightarrow> (Inl e, db4)
                     | (Inr _, db4) \<Rightarrow> eng_Commit E db4))))"

definition Checkpoint :: "'db sql_engine \<Rightarrow> 'db \<Rightarrow> unit result \<times> 'db" where
  "Checkpoint E db = eng_Exec E checkpoint_sql db"

definition SQLiteStore_Close :: "'db sql_engine \<Rightarrow> 'db \<Rightarrow> unit result \<times> 'db" where
  "SQLiteStore_Close E db = eng_CloseDB E db"

definition SQLite_Store :: "'db sql_engine \<Rightarrow> 'db Store" where
  "SQLite_Store E = \<lparr>st_Load = SQLiteStore_Load E, st_Save = SQLiteStore_Save E, st_Close = SQLiteStore_Close E\<rparr>"

subsection \<open>migration.go\<close>

text \<open>
  The clock readings are those of the load of the file, the load of the database and the save.
  The deferred second \<^verbatim>\<open>Close\<close> runs on every path after the open.
\<close>

definition MigrateJSONToSQLite ::
    "'db sql_engine \<Rightarrow> string \<Rightarrow> string \<Rightarrow> int \<Rightarrow> int \<Rightarrow> int \<Rightarrow> fs \<times> 'db \<Rightarrow> unit result \<times> fs \<times> 'db" where
  "MigrateJSONToSQLite E jsonPath sqlitePath t1 t2 t3 = (\<lambda>(w, db).
    let (st, w1) = os_Stat jsonPath w in
    if st = NotExist then (Inl (''source tokens.json not found at '' @ jsonPath), w1, db)
    else
    (case TokenStore_Load (NewTokenStore jsonPath False) t1 w1 of
       (Inl e, w2) \<Rightarrow> (Inl (''failed to load tokens from JSON: '' @ e), w2, db)
     | (Inr tokens, w2) \<Rightarrow>
    (case NewSQLiteStore E sqlitePath db of
       (Inl e, db1) \<Rightarrow> (Inl (''failed to open SQLite at '' @ sqlitePath @ '': '' @ e), w2, db1)
     | (Inr _, db1) \<Rightarrow>
    (let (r, w', db') =
      (case SQLiteStore_Load E t2 db1 of
         (Inl e, db2) \<Rightarrow> (Inl (''failed to check existing SQLite tokens: '' @ e), w2, db2)
       | (Inr existing, db2) \<Rightarrow>
      if length existing > 0 then
        (Inl ''SQLite store is not empty, migration aborted to prevent data loss'', w2, db2)
      else
      (case SQLiteStore_Save E t3 tokens db2 of
         (Inl e, db3) \<Rightarrow> (Inl (''failed to save tokens to SQLite: '' @ e), w2, db3)
       | (Inr _, db3) \<Rightarrow>
      (case Checkpoint E db3 of
         (Inl e, db4) \<Rightarrow> (Inl (''failed to checkpoint SQLite WAL: '' @ e), w2, db4)
       | (Inr _, db4) \<Rightarrow>
      (case SQLiteStore_Close E db4 of
         (Inl e, db5) \<Rightarrow> (Inl (''failed to close SQLite: '' @ e), w2, db5)
       | (Inr _, db5) \<Rightarrow>
      (let backupPath = jsonPath @ ''.migrated'' in
       case os_Rename jsonPath backupPath w2 of
         (Inl e, w3) \<Rightarrow>
           (Inl (''failed to rename migrated JSON file to '' @ backupPath @ '': '' @ e), w3, db5)
       | (Inr _, w3) \<Rightarrow> (Inr (), w3, db5))))))
     in (r, w', snd (SQLiteStore_Close E db'))))))"

declare applySQLitePragmas_def [model_defs] initSQLiteSchema_def [model_defs] NewSQLiteStore_def [model_defs]
  SQLiteStore_Load_def [model_defs] SQLiteStore_Save_def [model_defs] Checkpoint_def [model_defs]
  SQLiteStore_Close_def [model_defs] SQLite_Store_def [model_defs] MigrateJSONToSQLite_def [model_defs]

subsection \<open>What the code relies on\<close>

text \<open>
  The committed rows are \<open>table\<close>, the rows a transaction would commit are \<open>tx\<close>. No call but a
  successful commit changes the committed rows; a query returns each matching row once.
\<close>

definition row_map :: "(string, int) gomap \<Rightarrow> int \<Rightarrow> string \<Rightarrow> int option" where
  "row_map tab t k = (case map_of tab k of None \<Rightarrow> None | Some x \<Rightarrow> if x > t then Some x else None)"

definition keeps_table :: "('db \<Rightarrow> bool) \<Rightarrow> ('db \<Rightarrow> (string, int) gomap) \<Rightarrow> 'db \<Rightarrow> 'db \<Rightarrow> bool" where
  "keeps_table good table db db' \<longleftrightarrow> good db' \<and> table db' = table db"

definition sql_engine_ok ::
    "'db sql_engine \<Rightarrow> ('db \<Rightarrow> bool) \<Rightarrow> ('db \<Rightarrow> (string, int) gomap) \<Rightarrow> ('db \<Rightarrow> (string, int) gomap) \<Rightarrow> bool" where
  "sql_engine_ok E good table tx \<longleftrightarrow>
    (\<forall>db. good db \<longrightarrow>
      gomap_ok (table db) \<and>
      (\<forall>p. keeps_table good table db (eng_Open E p db)) \<and>
      (\<forall>q. keeps_table good table db (snd (eng_Exec E q db))) \<and>
      (\<forall>t. keeps_table good table db (snd (eng_Query E select_sql t db))) \<and>
      (\<forall>t rows. fst (eng_Query E select_sql t db) = Inr (map Inr rows, Inr ()) \<longrightarrow>
         gomap_ok rows \<and> (\<forall>k. map_of rows k = row_map (table db) t k)) \<and>
      keeps_table good table db (snd (eng_Begin E db)) \<and>
      keeps_table good table db (snd (eng_TxExec E delete_sql db)) \<and>
      (fst (eng_TxExec E delete_sql db) = Inr () \<longrightarrow> tx (snd (eng_TxExec E delete_sql db)) = []) \<and>
      keeps_table good table db (snd (eng_TxPrepare E insert_sql db)) \<and>
      tx (snd (eng_TxPrepare E insert_sql db)) = tx db \<and>
      (\<forall>k x. keeps_table good table db (snd (eng_StmtExec E insert_sql k x db))) \<and>
      (\<forall>k x. fst (eng_StmtExec E insert_sql k x db) = Inr () \<longrightarrow>
         map_of (tx db) k = None \<and> map_of (tx (snd (eng_StmtExec E insert_sql k x db))) = (map_of (tx db))(k \<mapsto> x)) \<and>
      good (snd (eng_Commit E db)) \<and>
      (fst (eng_Commit E db) = Inr () \<longrightarrow> map_of (table (snd (eng_Commit E db))) = map_of (tx db)) \<and>
      (fst (eng_Commit E db) \<noteq> Inr () \<longrightarrow> table (snd (eng_Commit E db)) = table db) \<and>
      keeps_table good table db (eng_Rollback E db) \<and>
      keeps_table good table db (snd (eng_CloseDB E db)))"

definition sql_holds :: "('db \<Rightarrow> (string, int) gomap) \<Rightarrow> 'db \<Rightarrow> tokens" where
  "sql_holds table db = map (\<lambda>(k, x). (k, of_int x)) (table db)"

text \<open>Rows out of a clean store: what the code wrote.\<close>

definition sql_ok :: "('db \<Rightarrow> bool) \<Rightarrow> ('db \<Rightarrow> (string, int) gomap) \<Rightarrow> 'db \<Rightarrow> bool" where
  "sql_ok good table db \<longleftrightarrow> good db \<and> (\<forall>k x. map_of (table db) k = Some x \<longrightarrow> 0 < x \<and> x < 10 ^ 15)"

lemma map_of_sql_holds: "map_of (sql_holds table db) k = map_option of_int (map_of (table db) k)"
  by (simp add: sql_holds_def map_of_map)

subsection \<open>The database store keeps the contract\<close>

lemma rows_loop_Inr:
  "rows_loop rows acc = Inr m \<Longrightarrow> gomap_ok acc \<Longrightarrow>
    gomap_ok m \<and> (\<exists>rs. rows = map Inr rs \<and> (gomap_ok rs \<longrightarrow>
      (\<forall>k. map_of m k = (case map_of rs k of None \<Rightarrow> map_of acc k | Some x \<Rightarrow> Some (f64_of_int x)))))"
proof (induction rows acc rule: rows_loop.induct)
  case (1 tokens)
  then show ?case by simp
next
  case (2 e rows tokens)
  then show ?case by simp
next
  case (3 hash expiry rows tokens)
  from 3(1) [OF _ gomap_ok_update] 3(2,3) obtain rs where
      ok: "gomap_ok m" and rs: "rows = map Inr rs" and
      m: "gomap_ok rs \<longrightarrow> (\<forall>k. map_of m k = (case map_of rs k of
        None \<Rightarrow> map_of (AList.update hash (f64_of_int expiry) tokens) k | Some x \<Rightarrow> Some (f64_of_int x)))"
    by auto
  have "Inr (hash, expiry) # rows = map Inr ((hash, expiry) # rs)" using rs by simp
  moreover have "map_of m k = (case map_of ((hash, expiry) # rs) k of
      None \<Rightarrow> map_of tokens k | Some x \<Rightarrow> Some (f64_of_int x))" if "gomap_ok ((hash, expiry) # rs)" for k
  proof -
    from that have "gomap_ok rs" "map_of rs hash = None"
      by (auto simp: gomap_ok_def map_of_eq_None_iff)
    with m show ?thesis by (cases "map_of rs k") (auto simp: update_conv)
  qed
  ultimately show ?case using ok by (intro conjI exI [of _ "(hash, expiry) # rs"]) auto
qed

lemma f64_whole_int:
  assumes "whole_seconds v"
  shows "f64_to_int64 v = \<lfloor>v\<rfloor>" and "of_int (f64_to_int64 v) = v" and "0 < f64_to_int64 v"
    and "f64_to_int64 v < 10 ^ 15"
proof -
  obtain n where n: "v = of_nat n" "0 < n" "n < 10 ^ 15" using assms by (rule whole_seconds_nat)
  then have "int n \<le> 2 ^ 53" by simp
  then have "f64_to_int64 (of_int (int n)) = int n" by (intro f64_to_int64_exact) simp_all
  then have i: "f64_to_int64 v = int n" using n by simp
  show "f64_to_int64 v = \<lfloor>v\<rfloor>" "of_int (f64_to_int64 v) = v" "0 < f64_to_int64 v" unfolding i using n by simp_all
  show "f64_to_int64 v < 10 ^ 15" unfolding i using n(3) by simp
qed

text \<open>The insert loop writes the live entries into the transaction.\<close>

lemma insert_loop_ok:
  assumes E: "sql_engine_ok E good table tx" and "good db" and "clean_tokens m"
    and "insert_loop E t m db = (r, db')"
  shows "keeps_table good table db db' \<and>
    (r = Inr () \<longrightarrow> map_of (tx db') = map_of (tx db) ++ map_of (map (\<lambda>(k, v). (k, \<lfloor>v\<rfloor>)) (live_tokens (of_int t) m)))"
  using assms(2-4)
proof (induction m arbitrary: db)
  case Nil
  then show ?case by (simp add: keeps_table_def live_tokens_def)
next
  case (Cons kv m)
  obtain k v where kv: "kv = (k, v)" by (cases kv)
  have wv: "whole_seconds v" and cm: "clean_tokens m" and fresh: "map_of m k = None"
    using Cons.prems(2) kv by (auto simp: clean_tokens_def gomap_ok_def map_of_eq_None_iff)
  have cmp: "f64_to_int64 v > t \<longleftrightarrow> v > of_int t" using f64_whole_int(2) [OF wv] by (metis of_int_less_iff)
  show ?case
  proof (cases "f64_to_int64 v > t")
    case False
    then show ?thesis using Cons.IH [OF Cons.prems(1) cm] Cons.prems(3) cmp
      by (simp add: kv live_tokens_def)
  next
    case True
    obtain r1 db1 where s: "eng_StmtExec E insert_sql k (f64_to_int64 v) db = (r1, db1)" by fastforce
    have keep: "keeps_table good table db db1" and
      ins: "r1 = Inr () \<longrightarrow> map_of (tx db1) = (map_of (tx db))(k \<mapsto> f64_to_int64 v)"
      using E Cons.prems(1) s unfolding sql_engine_ok_def by (metis fst_conv snd_conv)+
    then have g1: "good db1" "table db1 = table db" by (simp_all add: keeps_table_def)
    show ?thesis
    proof (cases r1)
      case (Inl e)
      with Cons.prems(3) True s have "r \<noteq> Inr ()" "db' = db1" by (auto simp: kv)
      with keep show ?thesis by simp
    next
      case (Inr u)
      with Cons.prems(3) True s have "insert_loop E t m db1 = (r, db')" by (simp add: kv)
      note ih = Cons.IH [OF g1(1) cm this]
      have lv: "live_tokens (of_int t) ((k, v) # m) = (k, v) # live_tokens (of_int t) m"
        using True cmp by (simp add: live_tokens_def)
      have "map_of (map (\<lambda>(k, v). (k, \<lfloor>v\<rfloor>)) (live_tokens (of_int t) m)) k = None"
        using fresh by (force simp: map_of_eq_None_iff live_tokens_def)
      then have "(map_of (tx db))(k \<mapsto> \<lfloor>v\<rfloor>) ++ map_of (map (\<lambda>(k, v). (k, \<lfloor>v\<rfloor>)) (live_tokens (of_int t) m)) =
          map_of (tx db) ++ map_of (map (\<lambda>(k, v). (k, \<lfloor>v\<rfloor>)) ((k, v) # live_tokens (of_int t) m))"
        by (intro ext) (simp add: map_add_def split: option.splits)
      moreover have "map_of (tx db1) = (map_of (tx db))(k \<mapsto> \<lfloor>v\<rfloor>)"
        using ins Inr f64_whole_int(1) [OF wv] by (metis old.unit.exhaust)
      moreover have "keeps_table good table db db'" using ih g1 by (simp add: keeps_table_def)
      ultimately show ?thesis using ih unfolding kv lv by metis
    qed
  qed
qed

definition whole_rows :: "tokens \<Rightarrow> (string, int) gomap" where
  "whole_rows m = map (\<lambda>(k, v). (k, \<lfloor>v\<rfloor>)) m"

lemma map_of_whole_rows: "map_of (whole_rows m) k = map_option floor (map_of m k)"
  by (simp add: whole_rows_def map_of_map)

lemma map_of_clean: "clean_tokens m \<Longrightarrow> map_of m k = Some v \<Longrightarrow> whole_seconds v"
  by (auto simp: clean_tokens_def list_all_iff dest: map_of_SomeD)

lemma map_of_whole_back:
  assumes "clean_tokens m"
  shows "map_option of_int (map_of (whole_rows (live_tokens now m)) k) = map_of (live_tokens now m) k"
  using assms map_of_clean [of "live_tokens now m" k]
  by (cases "map_of (live_tokens now m) k") (auto simp: map_of_whole_rows whole_seconds_def)

lemma sql_Save_result:
  assumes E: "sql_engine_ok E good table tx" and g: "good db" and m: "clean_tokens m"
    and s: "SQLiteStore_Save E t m db = (r, db')"
  shows "good db'"
    and "r = Inr () \<Longrightarrow> map_of (table db') = map_of (whole_rows (live_tokens (of_int t) m))"
    and "r \<noteq> Inr () \<Longrightarrow> table db' = table db"
proof -
  have laws: "keeps_table good table d (snd (eng_Begin E d))" "keeps_table good table d (snd (eng_TxExec E delete_sql d))"
      "fst (eng_TxExec E delete_sql d) = Inr () \<longrightarrow> tx (snd (eng_TxExec E delete_sql d)) = []"
      "keeps_table good table d (snd (eng_TxPrepare E insert_sql d))" "tx (snd (eng_TxPrepare E insert_sql d)) = tx d"
      "good (snd (eng_Commit E d))"
      "fst (eng_Commit E d) = Inr () \<longrightarrow> map_of (table (snd (eng_Commit E d))) = map_of (tx d)"
      "fst (eng_Commit E d) \<noteq> Inr () \<longrightarrow> table (snd (eng_Commit E d)) = table d"
      "keeps_table good table d (eng_Rollback E d)" if "good d" for d
    using E that unfolding sql_engine_ok_def by blast+
  have "good db' \<and> (r = Inr () \<longrightarrow> map_of (table db') = map_of (whole_rows (live_tokens (of_int t) m))) \<and>
      (r \<noteq> Inr () \<longrightarrow> table db' = table db)"
  proof -
    obtain r1 db1 where b: "eng_Begin E db = (r1, db1)" by fastforce
    have k1: "good db1" "table db1 = table db" using laws(1) [OF g] b by (simp_all add: keeps_table_def)
    obtain r2 db2 where d: "eng_TxExec E delete_sql db1 = (r2, db2)" by fastforce
    have k2: "good db2" "table db2 = table db" "r2 = Inr () \<longrightarrow> tx db2 = []"
      using laws(2,3) [OF k1(1)] d k1 by (simp_all add: keeps_table_def)
    obtain r3 db3 where p: "eng_TxPrepare E insert_sql db2 = (r3, db3)" by fastforce
    have k3: "good db3" "table db3 = table db" "tx db3 = tx db2"
      using laws(4,5) [OF k2(1)] p k2 by (simp_all add: keeps_table_def)
    obtain r4 db4 where i: "insert_loop E t m db3 = (r4, db4)" by fastforce
    note il = insert_loop_ok [OF E k3(1) m i]
    have k4: "good db4" "table db4 = table db" using il k3 by (simp_all add: keeps_table_def)
    obtain r5 db5 where c: "eng_Commit E db4 = (r5, db5)" by fastforce
    have k5: "good db5" "r5 = Inr () \<longrightarrow> map_of (table db5) = map_of (tx db4)" "r5 \<noteq> Inr () \<longrightarrow> table db5 = table db"
      using laws(6-8) [OF k4(1)] c k4 by simp_all
    have rb: "good (eng_Rollback E d)" "table (eng_Rollback E d) = table d" if "good d" for d
      using laws(9) [OF that] by (simp_all add: keeps_table_def)
    show ?thesis
      using s b d p i c k1 k2 k3 k4 k5 il rb
      by (cases r1; cases r2; cases r3; cases r4) (auto simp: SQLiteStore_Save_def whole_rows_def)
  qed
  then show "good db'" and "r = Inr () \<Longrightarrow> map_of (table db') = map_of (whole_rows (live_tokens (of_int t) m))"
    and "r \<noteq> Inr () \<Longrightarrow> table db' = table db" by blast+
qed

lemma sql_Load_result:
  assumes E: "sql_engine_ok E good table tx" and g: "sql_ok good table db" and c: "clock t"
    and l: "SQLiteStore_Load E t db = (r, db')"
  shows "keeps_table good table db db'"
    and "r = Inr m \<Longrightarrow> gomap_ok m \<and> map_of m = map_of (live_tokens (of_int t) (sql_holds table db))"
proof -
  have gd: "good db" using g by (simp add: sql_ok_def)
  obtain q db1 where q: "eng_Query E select_sql t db = (q, db1)" by fastforce
  have k: "keeps_table good table db db1" and ok: "gomap_ok (table db)"
    and rows: "\<And>rows. q = Inr (map Inr rows, Inr ()) \<Longrightarrow> gomap_ok rows \<and> (\<forall>k. map_of rows k = row_map (table db) t k)"
    using E gd q unfolding sql_engine_ok_def by (metis fst_conv snd_conv)+
  then show "keeps_table good table db db'"
    using l q by (auto simp: SQLiteStore_Load_def split: sum.splits)
  show "gomap_ok m \<and> map_of m = map_of (live_tokens (of_int t) (sql_holds table db))" if "r = Inr m"
  proof -
    from that l q obtain rs where qq: "q = Inr (rs, Inr ())" and lp: "rows_loop rs [] = Inr m"
      by (auto simp: SQLiteStore_Load_def split: sum.splits)
    from rows_loop_Inr [OF lp] obtain rs' where mm: "gomap_ok m" "rs = map Inr rs'"
      and v: "gomap_ok rs' \<Longrightarrow> map_of m k = (case map_of rs' k of None \<Rightarrow> map_of [] k | Some x \<Rightarrow> Some (f64_of_int x))" for k
      by (metis gomap_ok_empty)
    from rows qq mm have r': "gomap_ok rs'" "map_of rs' k = row_map (table db) t k" for k by auto
    have oh: "gomap_ok (sql_holds table db)"
      using ok by (simp add: sql_holds_def gomap_ok_def case_prod_unfold comp_def)
    have "map_of m k = map_of (live_tokens (of_int t) (sql_holds table db)) k" for k
    proof (cases "map_of (table db) k")
      case None
      then show ?thesis using v [OF r'(1)] r'(2) [of k] oh by (simp add: map_of_live map_of_sql_holds row_map_def)
    next
      case (Some x)
      with g have "0 < x \<and> x < 10 ^ 15" by (auto simp: sql_ok_def)
      then have "f64_of_int x = of_int x" by (intro f64_of_int_exact) auto
      then show ?thesis using v [OF r'(1)] r'(2) [of k] oh Some
        by (simp add: map_of_live map_of_sql_holds row_map_def)
    qed
    with mm(1) show ?thesis by blast
  qed
qed

lemma sqlite_token_store:
  assumes E: "sql_engine_ok E good table tx"
  shows "token_store (SQLite_Store E) (sql_ok good table) (sql_holds table)"
proof
  fix db :: 'a assume "sql_ok good table db"
  then have "gomap_ok (table db)" using E by (simp add: sql_ok_def sql_engine_ok_def)
  then show "gomap_ok (sql_holds table db)"
    by (simp add: sql_holds_def gomap_ok_def case_prod_unfold comp_def)
next
  fix db db' t and rl :: "tokens result"
  assume a: "sql_ok good table db" "clock t" "st_Load (SQLite_Store E) t db = (rl, db')"
  then have "keeps_table good table db db'" using sql_Load_result(1) [OF E a(1,2)] by (simp add: SQLite_Store_def)
  with a(1) show "sql_ok good table db' \<and> map_of (sql_holds table db') = map_of (sql_holds table db)"
    by (simp add: sql_ok_def keeps_table_def sql_holds_def)
next
  fix db db' t m
  assume a: "sql_ok good table db" "clock t" "st_Load (SQLite_Store E) t db = (Inr m, db')"
  then show "gomap_ok m \<and> map_of m = map_of (live_tokens (of_int t) (sql_holds table db))"
    using sql_Load_result(2) [OF E a(1,2)] by (simp add: SQLite_Store_def)
next
  fix db db' t m and r :: "unit result"
  assume a: "sql_ok good table db" "clock t" "clean_tokens m" "st_Save (SQLite_Store E) t m db = (r, db')"
  then have s: "SQLiteStore_Save E t m db = (r, db')" "good db" by (simp_all add: SQLite_Store_def sql_ok_def)
  note sv = sql_Save_result [OF E s(2) a(3) s(1)]
  have new: "map_option of_int (map_of (whole_rows (live_tokens (of_int t) m)) k) = map_of (live_tokens (of_int t) m) k" for k
    using a(3) map_of_clean [of "live_tokens (of_int t) m" k]
    by (cases "map_of (live_tokens (of_int t) m) k") (auto simp: map_of_whole_rows whole_seconds_def)
  have whole: "0 < x \<and> x < 10 ^ 15" if "map_of (whole_rows (live_tokens (of_int t) m)) k = Some x" for k x
    using that a(3) map_of_clean [of "live_tokens (of_int t) m" k] f64_whole_int
    by (force simp: map_of_whole_rows)
  show "sql_ok good table db'"
    using a(1) sv whole by (cases "r = Inr ()") (auto simp: sql_ok_def)
next
  fix db db' t m u
  assume a: "sql_ok good table db" "clock t" "clean_tokens m" "st_Save (SQLite_Store E) t m db = (Inr u, db')"
  then have s: "SQLiteStore_Save E t m db = (Inr u, db')" "good db" by (simp_all add: SQLite_Store_def sql_ok_def)
  note sv = sql_Save_result(2) [OF E s(2) a(3) s(1)]
  show "map_of (sql_holds table db') = map_of (live_tokens (of_int t) m)"
  proof
    fix k
    show "map_of (sql_holds table db') k = map_of (live_tokens (of_int t) m) k"
      using a(3) sv map_of_clean [of "live_tokens (of_int t) m" k]
      by (cases "map_of (live_tokens (of_int t) m) k") (auto simp: map_of_sql_holds map_of_whole_rows whole_seconds_def)
  qed
next
  fix db db' t m e
  assume a: "sql_ok good table db" "clock t" "clean_tokens m" "st_Save (SQLite_Store E) t m db = (Inl e, db')"
  then have s: "SQLiteStore_Save E t m db = (Inl e, db')" "good db" by (simp_all add: SQLite_Store_def sql_ok_def)
  from sql_Save_result(3) [OF E s(2) a(3) s(1)]
  show "map_of (sql_holds table db') = map_of (sql_holds table db) \<or>
      map_of (sql_holds table db') = map_of (live_tokens (of_int t) m)"
    by (simp add: sql_holds_def)
next
  fix db db' and r :: "unit result"
  assume "sql_ok good table db" "st_Close (SQLite_Store E) db = (r, db')"
  then have "keeps_table good table db db'"
    using E by (metis SQLite_Store_def SQLiteStore_Close_def Store.select_convs(3) snd_conv sql_engine_ok_def sql_ok_def)
  with \<open>sql_ok good table db\<close> show "sql_ok good table db' \<and> map_of (sql_holds table db') = map_of (sql_holds table db)"
    by (simp add: sql_holds_def sql_ok_def keeps_table_def)
qed

text \<open>A database engine that behaves as documented gives a store that keeps its contract.\<close>

locale sql_database =
  fixes E :: "'db sql_engine" and good :: "'db \<Rightarrow> bool"
    and table :: "'db \<Rightarrow> (string, int) gomap" and tx :: "'db \<Rightarrow> (string, int) gomap"
  assumes engine_ok: "sql_engine_ok E good table tx"

sublocale sql_database \<subseteq> token_store "SQLite_Store E" "sql_ok good table" "sql_holds table"
  by (rule sqlite_token_store [OF engine_ok])

subsection \<open>A database in a list\<close>

record list_db =
  ld_table :: "(string, int) gomap"
  ld_work :: "(string, int) gomap option"
  ld_faults :: "outcome list"

definition ld_call :: "list_db \<Rightarrow> unit result \<times> list_db" where
  "ld_call db =
    (case ld_faults db of
       [] \<Rightarrow> (Inr (), db)
     | x # xs \<Rightarrow> (call_result x, db\<lparr>ld_faults := xs\<rparr>))"

definition ld_step :: "(list_db \<Rightarrow> unit result \<times> list_db) \<Rightarrow> list_db \<Rightarrow> unit result \<times> list_db" where
  "ld_step f db = (case ld_call db of (Inl e, db1) \<Rightarrow> (Inl e, db1) | (Inr _, db1) \<Rightarrow> f db1)"

definition list_engine :: "list_db sql_engine" where
  "list_engine = \<lparr>
     eng_Open = \<lambda>p db. db,
     eng_Exec = \<lambda>q. ld_step (\<lambda>db. (Inr (), db)),
     eng_Query = \<lambda>q t db. (case ld_call db of
         (Inl e, db1) \<Rightarrow> (Inl e, db1)
       | (Inr _, db1) \<Rightarrow> (Inr (map Inr (filter (\<lambda>(k, x). x > t) (ld_table db1)), Inr ()), db1)),
     eng_Begin = ld_step (\<lambda>db. (Inr (), db\<lparr>ld_work := Some (ld_table db)\<rparr>)),
     eng_TxExec = \<lambda>q. ld_step (\<lambda>db. (case ld_work db of
         None \<Rightarrow> (Inl ''no transaction'', db)
       | Some _ \<Rightarrow> (Inr (), db\<lparr>ld_work := Some []\<rparr>))),
     eng_TxPrepare = \<lambda>q. ld_step (\<lambda>db. (Inr (), db)),
     eng_StmtExec = \<lambda>q k x. ld_step (\<lambda>db. (case ld_work db of
         None \<Rightarrow> (Inl ''no transaction'', db)
       | Some m \<Rightarrow> if map_of m k = None then (Inr (), db\<lparr>ld_work := Some (AList.update k x m)\<rparr>)
           else (Inl ''UNIQUE constraint failed'', db))),
     eng_Commit = ld_step (\<lambda>db. (case ld_work db of
         None \<Rightarrow> (Inl ''no transaction'', db)
       | Some m \<Rightarrow> (Inr (), db\<lparr>ld_table := m, ld_work := None\<rparr>))),
     eng_Rollback = (\<lambda>db. db\<lparr>ld_work := None\<rparr>),
     eng_CloseDB = ld_step (\<lambda>db. (Inr (), db))\<rparr>"

definition ld_good :: "list_db \<Rightarrow> bool" where
  "ld_good db \<longleftrightarrow> gomap_ok (ld_table db) \<and> (case ld_work db of None \<Rightarrow> True | Some m \<Rightarrow> gomap_ok m)"

definition ld_tx :: "list_db \<Rightarrow> (string, int) gomap" where
  "ld_tx db = (case ld_work db of None \<Rightarrow> [] | Some m \<Rightarrow> m)"

lemma ld_call_keeps: "ld_call db = (r, db') \<Longrightarrow> ld_table db' = ld_table db \<and> ld_work db' = ld_work db"
  by (auto simp: ld_call_def split: list.splits)

lemma list_engine_ok: "sql_engine_ok list_engine ld_good ld_table ld_tx"
  unfolding sql_engine_ok_def
  by (intro allI impI conjI;
      (auto simp: list_engine_def ld_step_def keeps_table_def ld_good_def ld_tx_def row_map_def
        map_of_filter_gomap update_conv'
        dest!: ld_call_keeps split: prod.splits sum.splits option.splits if_splits)?)

interpretation sq: sql_database list_engine ld_good ld_table ld_tx
  by unfold_locales (rule list_engine_ok)

lemma keeps_table_trans: "keeps_table good table a b \<Longrightarrow> keeps_table good table b c \<Longrightarrow> keeps_table good table a c"
  by (simp add: keeps_table_def)

lemma sql_open_keeps:
  assumes E: "sql_engine_ok E good table tx" and g: "good db"
    and "NewSQLiteStore E p db = (r, db')"
  shows "keeps_table good table db db'"
proof -
  have laws: "keeps_table good table d (eng_Open E p d)" "keeps_table good table d (snd (eng_Exec E q d))"
      "keeps_table good table d (snd (eng_CloseDB E d))" if "good d" for d q
    using E that by (simp_all add: sql_engine_ok_def)
  obtain r1 db1 where e1: "eng_Exec E pragma_sql (eng_Open E p db) = (r1, db1)" by fastforce
  obtain r2 db2 where e2: "eng_Exec E schema_sql db1 = (r2, db2)" by fastforce
  have k0: "good (eng_Open E p db)" "table (eng_Open E p db) = table db"
    using laws(1) [OF g] by (simp_all add: keeps_table_def)
  have k1: "good db1" "table db1 = table db" using laws(2) [OF k0(1), of pragma_sql] e1 k0 by (simp_all add: keeps_table_def)
  have k2: "good db2" "table db2 = table db" using laws(2) [OF k1(1), of schema_sql] e2 k1 by (simp_all add: keeps_table_def)
  show ?thesis
    using assms(3) e1 e2 laws(3) [OF k1(1)] laws(3) [OF k2(1)] k1 k2
    by (auto simp: NewSQLiteStore_def applySQLitePragmas_def initSQLiteSchema_def keeps_table_def
        split: sum.splits prod.splits)
qed

lemma sql_exec_close_keep:
  assumes "sql_engine_ok E good table tx" and "good db"
  shows "Checkpoint E db = (r, db') \<Longrightarrow> keeps_table good table db db'"
    and "SQLiteStore_Close E db = (r, db') \<Longrightarrow> keeps_table good table db db'"
    and "keeps_table good table db (snd (SQLiteStore_Close E db))"
proof -
  have laws: "keeps_table good table db (snd (eng_Exec E q db))" "keeps_table good table db (snd (eng_CloseDB E db))" for q
    using assms by (simp_all add: sql_engine_ok_def)
  show "Checkpoint E db = (r, db') \<Longrightarrow> keeps_table good table db db'"
    using laws(1) [of checkpoint_sql] by (simp add: Checkpoint_def)
  show "SQLiteStore_Close E db = (r, db') \<Longrightarrow> keeps_table good table db db'"
    and "keeps_table good table db (snd (SQLiteStore_Close E db))"
    using laws(2) by (simp_all add: SQLiteStore_Close_def)
qed

text \<open>The part of the migration between opening and closing the database.\<close>

definition migrate_tables ::
    "'db sql_engine \<Rightarrow> string \<Rightarrow> int \<Rightarrow> int \<Rightarrow> tokens \<Rightarrow> fs \<Rightarrow> 'db \<Rightarrow> unit result \<times> fs \<times> 'db" where
  "migrate_tables E p t2 t3 tokens w2 db1 =
      (case SQLiteStore_Load E t2 db1 of
         (Inl e, db2) \<Rightarrow> (Inl (''failed to check existing SQLite tokens: '' @ e), w2, db2)
       | (Inr existing, db2) \<Rightarrow>
      if length existing > 0 then
        (Inl ''SQLite store is not empty, migration aborted to prevent data loss'', w2, db2)
      else
      (case SQLiteStore_Save E t3 tokens db2 of
         (Inl e, db3) \<Rightarrow> (Inl (''failed to save tokens to SQLite: '' @ e), w2, db3)
       | (Inr _, db3) \<Rightarrow>
      (case Checkpoint E db3 of
         (Inl e, db4) \<Rightarrow> (Inl (''failed to checkpoint SQLite WAL: '' @ e), w2, db4)
       | (Inr _, db4) \<Rightarrow>
      (case SQLiteStore_Close E db4 of
         (Inl e, db5) \<Rightarrow> (Inl (''failed to close SQLite: '' @ e), w2, db5)
       | (Inr _, db5) \<Rightarrow>
      (case os_Rename p (p @ ''.migrated'') w2 of
         (Inl e, w3) \<Rightarrow>
           (Inl (''failed to rename migrated JSON file to '' @ (p @ ''.migrated'') @ '': '' @ e), w3, db5)
       | (Inr _, w3) \<Rightarrow> (Inr (), w3, db5))))))"

lemma Migrate_stages:
  "MigrateJSONToSQLite E p q t1 t2 t3 (w, db) =
    (case os_Stat p w of (st, w1) \<Rightarrow>
     if st = NotExist then (Inl (''source tokens.json not found at '' @ p), w1, db)
     else case TokenStore_Load (NewTokenStore p False) t1 w1 of
       (Inl e, w2) \<Rightarrow> (Inl (''failed to load tokens from JSON: '' @ e), w2, db)
     | (Inr tokens, w2) \<Rightarrow>
    (case NewSQLiteStore E q db of
       (Inl e, db1) \<Rightarrow> (Inl (''failed to open SQLite at '' @ q @ '': '' @ e), w2, db1)
     | (Inr _, db1) \<Rightarrow>
         (case migrate_tables E p t2 t3 tokens w2 db1 of (r, w', db') \<Rightarrow> (r, w', snd (SQLiteStore_Close E db')))))"
  unfolding MigrateJSONToSQLite_def migrate_tables_def Let_def by (simp only: prod.case)

lemma migrate_tables_keeps:
  assumes E: "sql_engine_ok E good table tx" and g: "sql_ok good table db" and m: "clean_tokens m"
    and c: "clock t2" and mt: "migrate_tables E p t2 t3 m w db = (r, w', db')"
  shows "good db' \<and>
    (r = Inr () \<longrightarrow>
      map_of (table db') = map_of (whole_rows (live_tokens (of_int t3) m)) \<and>
      file_content w' p = None \<and> file_content w' (p @ ''.migrated'') = file_content w p) \<and>
    (r \<noteq> Inr () \<longrightarrow> file_content w' p = file_content w p) \<and>
    (live_tokens (of_int t2) (sql_holds table db) \<noteq> [] \<longrightarrow> r \<noteq> Inr () \<and> table db' = table db)"
proof -
  obtain rl db2 where l: "SQLiteStore_Load E t2 db = (rl, db2)" by fastforce
  have k2: "good db2" "table db2 = table db"
    using sql_Load_result(1) [OF E g c l] by (simp_all add: keeps_table_def)
  show ?thesis
  proof (cases "rl = Inr []")
    case False
    with mt l k2 show ?thesis by (auto simp: migrate_tables_def split: sum.splits if_splits)
  next
    case True
    have gm: "gomap_ok (live_tokens (of_int t2) (sql_holds table db))"
      using token_store.holds_gomap [OF sqlite_token_store [OF E] g] by simp
    from True have "map_of (live_tokens (of_int t2) (sql_holds table db)) = map_of []"
      using sql_Load_result(2) [OF E g c l] by simp
    then have none: "live_tokens (of_int t2) (sql_holds table db) = []" by simp
    obtain rs db3 where s: "SQLiteStore_Save E t3 m db2 = (rs, db3)" by fastforce
    note sv = sql_Save_result [OF E k2(1) m s]
    obtain rc db4 where ck: "Checkpoint E db3 = (rc, db4)" by fastforce
    obtain rz db5 where cl: "SQLiteStore_Close E db4 = (rz, db5)" by fastforce
    have k4: "good db4" "table db4 = table db3"
      using sql_exec_close_keep(1) [OF E sv(1) ck] by (simp_all add: keeps_table_def)
    have k5: "good db5" "table db5 = table db3"
      using sql_exec_close_keep(2) [OF E k4(1) cl] k4 by (simp_all add: keeps_table_def)
    obtain rr w3 where rn: "os_Rename p (p @ ''.migrated'') w = (rr, w3)" by fastforce
    have mv: "if rr = Inr () then file_content w3 p = None \<and> file_content w3 (p @ ''.migrated'') = file_content w p
        else file_content w3 p = file_content w p"
      using Rename_moves [OF rn] by simp
    show ?thesis
    proof (cases "isl rs \<or> isl rc \<or> isl rz")
      case fail: True
      with mt l True s ck cl none sv(1) k4 k5 show ?thesis
        by (cases rs; cases rc; cases rz) (auto simp: migrate_tables_def)
    next
      case False
      then have "migrate_tables E p t2 t3 m w db =
          (case rr of Inl e \<Rightarrow>
             (Inl (''failed to rename migrated JSON file to '' @ (p @ ''.migrated'') @ '': '' @ e), w3, db5)
           | Inr _ \<Rightarrow> (Inr (), w3, db5))"
        using l True s ck cl rn by (cases rs; cases rc; cases rz) (auto simp: migrate_tables_def)
      moreover have "rs = Inr ()" using False by (cases rs) auto
      ultimately show ?thesis using mt mv none sv(2) k5 by (cases rr) auto
    qed
  qed
qed

definition one_row :: list_db where
  "one_row = \<lparr>ld_table = [(''k'', 7)], ld_work = None, ld_faults = []\<rparr>"





definition source_fs :: fs where
  "source_fs = (empty_fs (replicate 10 Works))
     \<lparr>fs_names := [''/d/t.json'' \<mapsto> 0], fs_names_disk := [[''/d/t.json'' \<mapsto> 0]],
      fs_data := \<lambda>_. marshal_tokens [(''b'', 5000)], fs_clean := \<lambda>_. True, fs_next := 1\<rparr>"

lemma b_row_clean: "clean_tokens [(''b'', 5000)]"
  by (simp add: clean_tokens_def gomap_ok_def plain_text_def plain_char_def whole_seconds_def)

lemma source_decodes: "decode_tokens (marshal_tokens [(''b'', 5000)]) = Some [(''b'', 5000)]"
  "marshal_tokens [(''b'', 5000)] \<noteq> []"
  using decode_marshal [OF b_row_clean] by (simp_all add: marshal_tokens_def json_indent_flat_def)

lemma migration_runs:
  "\<exists>w' db'. MigrateJSONToSQLite list_engine ''/d/t.json'' ''/d/t.db'' 1000 1001 1002 (source_fs, one_row) = (Inr (), w', db')"
proof -
  have "\<exists>w2. TokenStore_Load (NewTokenStore ''/d/t.json'' False) 1000 (snd (os_Stat ''/d/t.json'' source_fs)) =
      (Inr [(''b'', 5000)], w2) \<and> fs_names w2 ''/d/t.json'' = Some 0 \<and> fs_outcomes w2 = replicate 6 Works"
    using source_decodes
    by (simp add: TokenStore_Load_def NewTokenStore_def fs_ops go_defs Let_def empty_fs_def source_fs_def
        numeral_eq_Suc f64_of_int_exact)
  then obtain w2 where l: "TokenStore_Load (NewTokenStore ''/d/t.json'' False) 1000 (snd (os_Stat ''/d/t.json'' source_fs)) =
      (Inr [(''b'', 5000)], w2)" and w2: "fs_names w2 ''/d/t.json'' = Some 0" "fs_outcomes w2 = replicate 6 Works"
    by blast
  have s: "fst (os_Stat ''/d/t.json'' source_fs) = Exists"
    by (simp add: os_Stat_def next_outcome_def call_result_def source_fs_def empty_fs_def numeral_eq_Suc)
  have o: "NewSQLiteStore list_engine ''/d/t.db'' one_row = (Inr (), one_row)"
    by (simp add: NewSQLiteStore_def applySQLitePragmas_def initSQLiteSchema_def list_engine_def ld_step_def
        ld_call_def one_row_def)
  have rn: "\<exists>w3. os_Rename ''/d/t.json'' (''/d/t.json'' @ ''.migrated'') w2 = (Inr (), w3)"
    using w2 by (simp add: os_Rename_def next_outcome_def call_result_def numeral_eq_Suc)
  have ld: "SQLiteStore_Load list_engine 1001 one_row = (Inr [], one_row)"
    by (simp add: SQLiteStore_Load_def list_engine_def ld_call_def one_row_def)
  have sv: "SQLiteStore_Save list_engine 1002 [(''b'', 5000)] one_row =
      (Inr (), \<lparr>ld_table = [(''b'', 5000)], ld_work = None, ld_faults = []\<rparr>)"
    by (simp add: SQLiteStore_Save_def list_engine_def ld_step_def ld_call_def one_row_def f64_to_int64_def)
  have cc: "Checkpoint list_engine db = (Inr (), db)" "SQLiteStore_Close list_engine db = (Inr (), db)"
    if "ld_faults db = []" for db
    using that by (simp_all add: Checkpoint_def SQLiteStore_Close_def list_engine_def ld_step_def ld_call_def)
  have "\<exists>w3 db3. migrate_tables list_engine ''/d/t.json'' 1001 1002 [(''b'', 5000)] w2 one_row = (Inr (), w3, db3)"
    using rn by (auto simp: migrate_tables_def ld sv cc)
  then show ?thesis
    using s l o by (cases "os_Stat ''/d/t.json'' source_fs") (auto simp: Migrate_stages)
qed



end
