(* ===== verification/ServiceFacts.thy ===== *)
theory ServiceFacts
  imports Service SQLStore
begin

text \<open>
  What the operations of the service do: the exact conditions under which a code is issued and
  exchanged, every error branch and the RFC code it maps to, the invariant of the outstanding
  codes, purging, lifetimes, and what the token store holds after each operation.
\<close>

subsection \<open>The two halves of an exchange\<close>

text \<open>Checks and consumption of the code; then the new token. Each takes its own lock.\<close>

definition exchange_begin :: "TokenExchangeRequest \<Rightarrow> int \<Rightarrow> 's Service \<Rightarrow> AuthCode result \<times> 's Service" where
  "exchange_begin req now1 s =
    (if tr_GrantType req \<noteq> ''authorization_code'' then (Inl ''unsupported_grant_type'', s)
     else if \<not> authenticateClient (tr_ClientID req) (tr_ClientSecret req) s then (Inl ''invalid_client'', s)
     else case ConsumeAuthCode (tr_Code req) s of
       (None, s1) \<Rightarrow> (Inl ''invalid_grant: invalid or expired code'', s1)
     | (Some data, s1) \<Rightarrow>
         if ac_ExpiresAt data < now1 then (Inl ''invalid_grant: invalid or expired code'', s1)
         else if tr_RedirectURI req = [] \<or> tr_RedirectURI req \<noteq> ac_RedirectURI data then
           (Inl ''invalid_grant: redirect_uri mismatch'', s1)
         else if ac_CodeChallenge data \<noteq> [] \<and> \<not> ValidatePKCE (ac_CodeChallenge data) (tr_CodeVerifier req) then
           (Inl ''invalid_grant: pkce verification failed'', s1)
         else (Inr data, s1))"

definition exchange_finish ::
    "string result \<Rightarrow> int \<Rightarrow> int \<Rightarrow> 's Service \<Rightarrow> TokenResponse result run \<times> 's Service" where
  "exchange_finish rnd now2 t s1 =
    (case GenerateRandomString 32 rnd of
       Inl e \<Rightarrow> (Panics e, s1)
     | Inr accessToken \<Rightarrow>
         (case AddAccessToken accessToken
             (now2 + seconds_duration (cfg_AccessTokenTTL (OAuthProxy (cfg s1)))) t s1 of
            (Inl e, s2) \<Rightarrow> (Returns (Inl ''server_error''), s2)
          | (Inr _, s2) \<Rightarrow>
              (Returns (Inr \<lparr>AccessToken = accessToken, TokenType = ''Bearer'',
                 ExpiresIn = cfg_AccessTokenTTL (OAuthProxy (cfg s2)), Scope = ''mcp''\<rparr>),
               count_token_issued s2)))"

lemma ExchangeToken_stages:
  "ExchangeToken req rnd now1 now2 t s =
    (case exchange_begin req now1 s of
       (Inl e, s1) \<Rightarrow> (Returns (Inl e), s1)
     | (Inr data, s1) \<Rightarrow> exchange_finish rnd now2 t s1)"
  unfolding ExchangeToken_def exchange_begin_def exchange_finish_def
  by (simp split: prod.split option.split)

lemma authenticateClient_iff:
  "authenticateClient i secret s \<longleftrightarrow>
    i = cfg_ClientID (OAuthProxy (cfg s)) \<and> (secret = [] \<or> secret = cfg_ClientSecret (OAuthProxy (cfg s)))"
  by (auto simp: authenticateClient_def Let_def)

text \<open>Which fields an operation leaves alone.\<close>

lemma count_simps [frame_simps]:
  "cfg (count_persistence_failure s) = cfg s" "store (count_persistence_failure s) = store s"
  "store_state (count_persistence_failure s) = store_state s" "authCodes (count_persistence_failure s) = authCodes s"
  "accessTokens (count_persistence_failure s) = accessTokens s"
  "cfg (count_token_issued s) = cfg s" "store (count_token_issued s) = store s"
  "store_state (count_token_issued s) = store_state s" "authCodes (count_token_issued s) = authCodes s"
  "accessTokens (count_token_issued s) = accessTokens s"
  by (simp_all add: count_persistence_failure_def count_token_issued_def)

lemma ConsumeAuthCode_frame [frame_simps]:
  "ConsumeAuthCode c s = (x, s') \<Longrightarrow> cfg s' = cfg s \<and> store s' = store s \<and> store_state s' = store_state s \<and>
    accessTokens s' = accessTokens s \<and> observed s' = observed s"
  by (auto simp: ConsumeAuthCode_def split: option.splits)

lemma ConsumeAuthCode_codes:
  "ConsumeAuthCode c s = (x, s') \<Longrightarrow> x = map_of (authCodes s) c \<and> authCodes s' = AList.delete c (authCodes s)"
proof -
  assume c: "ConsumeAuthCode c s = (x, s')"
  have "AList.delete c m = m" if "map_of m c = None" for m :: "(string, AuthCode) gomap"
    using that by (force simp: AList.delete_eq map_of_eq_None_iff intro!: filter_True)
  with c show ?thesis by (auto simp: ConsumeAuthCode_def split: option.splits)
qed

lemma exchange_begin_frame:
  assumes "exchange_begin req now1 s = (r, s1)"
  shows "cfg s1 = cfg s \<and> store s1 = store s \<and> store_state s1 = store_state s \<and> accessTokens s1 = accessTokens s"
proof -
  obtain x s2 where c: "ConsumeAuthCode (tr_Code req) s = (x, s2)" by fastforce
  show ?thesis
    using assms c ConsumeAuthCode_frame [OF c]
    by (cases x) (auto simp: exchange_begin_def split: if_splits)
qed

lemma exchange_begin_Inr:
  "exchange_begin req now1 s = (Inr data, s1) \<longleftrightarrow>
    tr_GrantType req = ''authorization_code'' \<and>
    authenticateClient (tr_ClientID req) (tr_ClientSecret req) s \<and>
    map_of (authCodes s) (tr_Code req) = Some data \<and> now1 \<le> ac_ExpiresAt data \<and>
    tr_RedirectURI req \<noteq> [] \<and> tr_RedirectURI req = ac_RedirectURI data \<and>
    (ac_CodeChallenge data = [] \<or> ValidatePKCE (ac_CodeChallenge data) (tr_CodeVerifier req)) \<and>
    s1 = s\<lparr>authCodes := AList.delete (tr_Code req) (authCodes s)\<rparr>"
  by (cases "map_of (authCodes s) (tr_Code req)") (auto simp: exchange_begin_def ConsumeAuthCode_def)

lemma exchange_begin_codes:
  assumes "exchange_begin req now1 s = (r, s1)"
  shows "authCodes s1 = authCodes s \<or> authCodes s1 = AList.delete (tr_Code req) (authCodes s)"
proof -
  obtain x s2 where c: "ConsumeAuthCode (tr_Code req) s = (x, s2)" by fastforce
  show ?thesis
    using assms c ConsumeAuthCode_codes [OF c]
    by (cases "map_of (authCodes s) (tr_Code req)") (auto simp: exchange_begin_def split: if_splits)
qed

lemma AddAccessToken_result:
  "AddAccessToken token e t s = (r, s') \<Longrightarrow>
    cfg s' = cfg s \<and> store s' = store s \<and> authCodes s' = authCodes s \<and>
    (r = Inr () \<longrightarrow> accessTokens s' = AList.update (HashToken token) (f64_of_int (Unix e)) (accessTokens s)) \<and>
    (r \<noteq> Inr () \<longrightarrow> accessTokens s' = AList.delete (HashToken token)
        (AList.update (HashToken token) (f64_of_int (Unix e)) (accessTokens s))) \<and>
    st_Save (store s) t (AList.update (HashToken token) (f64_of_int (Unix e)) (accessTokens s)) (store_state s) =
      (r, store_state s')"
  by (auto simp: AddAccessToken_def frame_simps Let_def split: prod.splits sum.splits)

lemma exchange_finish_Inr:
  "exchange_finish rnd now2 t s1 = (Returns (Inr resp), s2) \<longleftrightarrow>
    (\<exists>tok s3. GenerateRandomString 32 rnd = Inr tok \<and>
      AddAccessToken tok (now2 + seconds_duration (cfg_AccessTokenTTL (OAuthProxy (cfg s1)))) t s1 = (Inr (), s3) \<and>
      resp = \<lparr>AccessToken = tok, TokenType = ''Bearer'', ExpiresIn = cfg_AccessTokenTTL (OAuthProxy (cfg s1)),
        Scope = ''mcp''\<rparr> \<and> s2 = count_token_issued s3)"
proof (cases "GenerateRandomString 32 rnd")
  case (Inl e)
  then show ?thesis by (simp add: exchange_finish_def)
next
  case (Inr tok)
  obtain r s3 where a: "AddAccessToken tok (now2 + seconds_duration (cfg_AccessTokenTTL (OAuthProxy (cfg s1)))) t s1 = (r, s3)"
    by fastforce
  show ?thesis using Inr a AddAccessToken_result [OF a]
    by (cases r) (auto simp: exchange_finish_def)
qed


subsection \<open>Issuing a code\<close>

definition pkce_form :: "string \<Rightarrow> string \<Rightarrow> bool" where
  "pkce_form challenge how \<longleftrightarrow>
    challenge = [] \<or> how = ''S256'' \<and> 43 \<le> length challenge \<and> length challenge \<le> 128"

definition authorize_ok :: "AuthorizeRequest \<Rightarrow> OAuthProxyConfig \<Rightarrow> bool" where
  "authorize_ok req c \<longleftrightarrow> ar_ResponseType req = ''code'' \<and> ar_ClientID req = cfg_ClientID c \<and>
    IsAllowedRedirect (ar_RedirectURI req) \<and> ar_State req \<noteq> [] \<and>
    (ar_CodeChallenge req = [] \<longrightarrow> \<not> cfg_MandatoryPKCE c) \<and>
    pkce_form (ar_CodeChallenge req) (ar_CodeChallengeMethod req)"

definition code_for :: "AuthorizeRequest \<Rightarrow> int \<Rightarrow> OAuthProxyConfig \<Rightarrow> AuthCode" where
  "code_for req now c = \<lparr>ac_RedirectURI = ar_RedirectURI req,
    ac_ExpiresAt = now + seconds_duration (cfg_AuthCodeTTL c),
    ac_CodeChallenge = ar_CodeChallenge req, ac_CodeChallengeMethod = ar_CodeChallengeMethod req\<rparr>"

lemma IssueAuthCode_ok:
  "authorize_ok req (OAuthProxy (cfg s)) \<Longrightarrow>
    IssueAuthCode req rnd now s =
      (case GenerateRandomString 32 rnd of
         Inl e \<Rightarrow> (Panics e, s)
       | Inr code \<Rightarrow> (Returns (Inr code), AddAuthCode code (code_for req now (OAuthProxy (cfg s))) s))"
  by (auto simp: IssueAuthCode_def authorize_ok_def pkce_form_def code_for_def Let_def split: sum.split)

lemma IssueAuthCode_refused:
  "\<not> authorize_ok req (OAuthProxy (cfg s)) \<Longrightarrow> \<exists>e. IssueAuthCode req rnd now s = (Returns (Inl e), s)"
  by (auto simp: IssueAuthCode_def authorize_ok_def pkce_form_def Let_def)

text \<open>
  C17. Issuing a code. \<^verbatim>\<open>IssueAuthCode\<close> returns a code exactly when the response type is
  \<^verbatim>\<open>code\<close>, the client id is the configured one, the redirect URI is on the allowlist, there is a
  state, and the challenge is of the form PKCE allows (and present where it is mandatory); the
  code is then the one the random bytes give and is stored with the data of the request. In
  every other case the service is left as it was.
\<close>

theorem issue_code_iff:
  "(IssueAuthCode req rnd now s = (Returns (Inr code), s1) \<longleftrightarrow>
      authorize_ok req (OAuthProxy (cfg s)) \<and> GenerateRandomString 32 rnd = Inr code \<and>
      s1 = s\<lparr>authCodes := AList.update code (code_for req now (OAuthProxy (cfg s))) (authCodes s)\<rparr>) \<and>
   (if authorize_ok req (OAuthProxy (cfg s)) \<and> \<not> isl (GenerateRandomString 32 rnd)
    then \<exists>c. fst (IssueAuthCode req rnd now s) = Returns (Inr c)
    else snd (IssueAuthCode req rnd now s) = s)"
proof (cases "authorize_ok req (OAuthProxy (cfg s))")
  case True
  then show ?thesis
    by (auto simp: IssueAuthCode_ok AddAuthCode_def split: sum.split)
next
  case False
  then obtain e where "IssueAuthCode req rnd now s = (Returns (Inl e), s)"
    using IssueAuthCode_refused by blast
  with False show ?thesis by simp
qed

subsection \<open>Exchanging a code\<close>

definition redeemable :: "TokenExchangeRequest \<Rightarrow> int \<Rightarrow> (string, AuthCode) gomap \<Rightarrow> bool" where
  "redeemable req now1 codes \<longleftrightarrow>
    (case map_of codes (tr_Code req) of
       None \<Rightarrow> False
     | Some data \<Rightarrow> now1 \<le> ac_ExpiresAt data \<and> tr_RedirectURI req \<noteq> [] \<and>
         tr_RedirectURI req = ac_RedirectURI data \<and>
         (ac_CodeChallenge data \<noteq> [] \<longrightarrow> ValidatePKCE (ac_CodeChallenge data) (tr_CodeVerifier req)))"

lemma exchange_begin_cases:
  "exchange_begin req now1 s =
    (if tr_GrantType req \<noteq> ''authorization_code'' then (Inl ''unsupported_grant_type'', s)
     else if \<not> authenticateClient (tr_ClientID req) (tr_ClientSecret req) s then (Inl ''invalid_client'', s)
     else (if redeemable req now1 (authCodes s) then Inr (the (map_of (authCodes s) (tr_Code req)))
           else Inl (if (case map_of (authCodes s) (tr_Code req) of None \<Rightarrow> True | Some d \<Rightarrow> ac_ExpiresAt d < now1)
               then ''invalid_grant: invalid or expired code''
               else if tr_RedirectURI req = [] \<or>
                 tr_RedirectURI req \<noteq> ac_RedirectURI (the (map_of (authCodes s) (tr_Code req)))
               then ''invalid_grant: redirect_uri mismatch''
               else ''invalid_grant: pkce verification failed''),
         s\<lparr>authCodes := AList.delete (tr_Code req) (authCodes s)\<rparr>))"
proof (cases "map_of (authCodes s) (tr_Code req)")
  case None
  then obtain x where "ConsumeAuthCode (tr_Code req) s = (None, x)" "x = s" by (simp add: ConsumeAuthCode_def)
  with None ConsumeAuthCode_codes [of "tr_Code req" s None x] show ?thesis
    by (simp add: exchange_begin_def redeemable_def)
next
  case (Some d)
  then show ?thesis by (auto simp: exchange_begin_def redeemable_def ConsumeAuthCode_def)
qed

lemma exchange_finish_error:
  "exchange_finish rnd now2 t s1 = (Returns (Inl e), s2) \<Longrightarrow> e = ''server_error''"
  by (auto simp: exchange_finish_def split: sum.splits prod.splits)


lemma exchange_Inr_iff:
  "ExchangeToken req rnd now1 now2 t s = (Returns (Inr resp), s2) \<longleftrightarrow>
    (\<exists>tok st'. tr_GrantType req = ''authorization_code'' \<and>
      authenticateClient (tr_ClientID req) (tr_ClientSecret req) s \<and>
      redeemable req now1 (authCodes s) \<and> GenerateRandomString 32 rnd = Inr tok \<and>
      (let ttl = cfg_AccessTokenTTL (OAuthProxy (cfg s));
           tokens = AList.update (HashToken tok) (f64_of_int (Unix (now2 + seconds_duration ttl))) (accessTokens s)
       in st_Save (store s) t tokens (store_state s) = (Inr (), st') \<and>
          resp = \<lparr>AccessToken = tok, TokenType = ''Bearer'', ExpiresIn = ttl, Scope = ''mcp''\<rparr> \<and>
          s2 = count_token_issued (s\<lparr>authCodes := AList.delete (tr_Code req) (authCodes s),
            accessTokens := tokens, store_state := st'\<rparr>)))"
  by (cases "GenerateRandomString 32 rnd")
    (auto simp: ExchangeToken_stages exchange_begin_cases exchange_finish_def AddAccessToken_def Let_def
      split: prod.splits sum.splits)

text \<open>
  C6. Exchanging a code. \<^verbatim>\<open>ExchangeToken\<close> returns a token exactly when the grant type is
  right, the client authenticates, the code is outstanding and not expired, the redirect URI is
  the one the code was issued for, the verifier matches the challenge (if there is one), the
  random source works and the store accepts the new token map. The response carries the random
  token and the configured lifetime; the code is gone, the token's hash is in the table with
  its expiry in seconds, and the issue counter has moved.
\<close>

theorem exchange_token_iff:
  "ExchangeToken req rnd now1 now2 t s = (Returns (Inr resp), s2) \<longleftrightarrow>
    (\<exists>tok st'. tr_GrantType req = ''authorization_code'' \<and>
      authenticateClient (tr_ClientID req) (tr_ClientSecret req) s \<and>
      redeemable req now1 (authCodes s) \<and> GenerateRandomString 32 rnd = Inr tok \<and>
      (let ttl = cfg_AccessTokenTTL (OAuthProxy (cfg s));
           tokens = AList.update (HashToken tok) (f64_of_int (Unix (now2 + seconds_duration ttl))) (accessTokens s)
       in st_Save (store s) t tokens (store_state s) = (Inr (), st') \<and>
          resp = \<lparr>AccessToken = tok, TokenType = ''Bearer'', ExpiresIn = ttl, Scope = ''mcp''\<rparr> \<and>
          s2 = count_token_issued (s\<lparr>authCodes := AList.delete (tr_Code req) (authCodes s),
            accessTokens := tokens, store_state := st'\<rparr>)))"
  by (rule exchange_Inr_iff)

text \<open>
One use per code. Once an authenticated client has presented a code in a token request,
  the code is gone whatever the outcome (expired, wrong redirect URI, failed PKCE, no
  randomness, store failure or success), and presenting it again is an invalid grant that
  changes nothing.
\<close>

theorem code_single_use:
  assumes "tr_GrantType req = ''authorization_code''"
    and "authenticateClient (tr_ClientID req) (tr_ClientSecret req) s"
    and "ExchangeToken req rnd now1 now2 t s = (r, s1)"
    and "tr_GrantType req' = ''authorization_code'' \<and> tr_Code req' = tr_Code req"
    and "authenticateClient (tr_ClientID req') (tr_ClientSecret req') s"
  shows "authCodes s1 = AList.delete (tr_Code req) (authCodes s) \<and>
    ExchangeToken req' rnd' now1' now2' t' s1 = (Returns (Inl ''invalid_grant: invalid or expired code''), s1)"
proof -
  obtain rb sb where b: "exchange_begin req now1 s = (rb, sb)" by fastforce
  have codes: "authCodes sb = AList.delete (tr_Code req) (authCodes s)" and same: "cfg sb = cfg s"
    using b assms(1,2) by (auto simp: exchange_begin_cases)
  have "authCodes s1 = authCodes sb \<and> cfg s1 = cfg sb"
    using assms(3) by (auto simp: ExchangeToken_stages b exchange_finish_def frame_simps
        split: sum.splits prod.splits dest!: AddAccessToken_result)
  then have c1: "authCodes s1 = AList.delete (tr_Code req) (authCodes s)" and c2: "cfg s1 = cfg s"
    using codes same by simp_all
  moreover have "map_of (authCodes s1) (tr_Code req) = None" by (simp add: c1)
  moreover have "authenticateClient (tr_ClientID req') (tr_ClientSecret req') s1"
    using assms(5) c2 by (simp add: authenticateClient_iff)
  ultimately show ?thesis
    using assms(4) by (auto simp: ExchangeToken_stages exchange_begin_def ConsumeAuthCode_def)
qed

lemma exchange_error_cause:
  assumes "ExchangeToken req rnd now1 now2 t s = (Returns (Inl e), s1)"
  shows "MapTokenError e =
      (if tr_GrantType req \<noteq> ''authorization_code'' then (''unsupported_grant_type'', 400)
       else if \<not> authenticateClient (tr_ClientID req) (tr_ClientSecret req) s then (''invalid_client'', 401)
       else if \<not> redeemable req now1 (authCodes s) then (''invalid_grant'', 400)
       else (''server_error'', 500)) \<and>
    (\<forall>h. map_of (accessTokens s1) h = map_of (accessTokens s) h \<or> map_of (accessTokens s1) h = None)"
proof -
  obtain rb sb where b: "exchange_begin req now1 s = (rb, sb)" by fastforce
  have toks: "accessTokens sb = accessTokens s" using exchange_begin_frame [OF b] by simp
  show ?thesis
  proof (cases rb)
    case (Inl e')
    then have e: "e = e'" "s1 = sb" using assms by (auto simp: ExchangeToken_stages b)
    have "MapTokenError e = (if tr_GrantType req \<noteq> ''authorization_code'' then (''unsupported_grant_type'', 400)
       else if \<not> authenticateClient (tr_ClientID req) (tr_ClientSecret req) s then (''invalid_client'', 401)
       else (''invalid_grant'', 400)) \<and> (tr_GrantType req = ''authorization_code'' \<longrightarrow>
       authenticateClient (tr_ClientID req) (tr_ClientSecret req) s \<longrightarrow> \<not> redeemable req now1 (authCodes s))"
      using b Inl unfolding e exchange_begin_cases
      by (auto simp: MapTokenError_def has_prefix_def split: if_splits)
    then show ?thesis using toks e by auto
  next
    case (Inr d)
    then have f: "exchange_finish rnd now2 t sb = (Returns (Inl e), s1)"
      using assms by (simp add: ExchangeToken_stages b)
    have "e = ''server_error''" by (rule exchange_finish_error [OF f])
    then have "MapTokenError e = (''server_error'', 500)" by (simp add: MapTokenError_def has_prefix_def)
    moreover have "tr_GrantType req = ''authorization_code'' \<and> redeemable req now1 (authCodes s) \<and>
        authenticateClient (tr_ClientID req) (tr_ClientSecret req) s"
      using b Inr by (auto simp: exchange_begin_cases split: if_splits)
    moreover have "\<exists>k x. accessTokens s1 = AList.delete k (AList.update k x (accessTokens sb))"
      using f by (auto simp: exchange_finish_def split: sum.splits prod.splits dest!: AddAccessToken_result)
    then have "\<forall>h. map_of (accessTokens s1) h = map_of (accessTokens s) h \<or> map_of (accessTokens s1) h = None"
      using toks by (metis map_of_delete_eq map_of_delete_neq map_of_update_neq)
    ultimately show ?thesis by simp
  qed
qed


text \<open>
Errors of the token endpoint. A refused exchange is reported with the RFC 6749 code of
  its cause: unsupported\_grant\_type (400), invalid\_client (401), invalid\_grant (400) when
  the code cannot be redeemed, and server\_error (500) only when the store refused the token,
  in which case the table of live tokens is as it was without that token.
\<close>

theorem exchange_error_code:
  assumes "ExchangeToken req rnd now1 now2 t s = (Returns (Inl e), s1)"
  shows "MapTokenError e =
      (if tr_GrantType req \<noteq> ''authorization_code'' then (''unsupported_grant_type'', 400)
       else if \<not> authenticateClient (tr_ClientID req) (tr_ClientSecret req) s then (''invalid_client'', 401)
       else if \<not> redeemable req now1 (authCodes s) then (''invalid_grant'', 400)
       else (''server_error'', 500)) \<and>
    (\<forall>h. map_of (accessTokens s1) h = map_of (accessTokens s) h \<or> map_of (accessTokens s1) h = None)"
  by (rule exchange_error_cause [OF assms])

subsection \<open>A service to try things on\<close>

definition sample_challenge :: string where
  "sample_challenge = b64url_encode (sha256 ''verifier'')"

lemma sample_challenge_props [simp]:
  "length sample_challenge = 43" "sample_challenge \<noteq> []" "ValidatePKCE sample_challenge ''verifier''"
proof -
  show l: "length sample_challenge = 43" by (simp add: sample_challenge_def)
  then show "sample_challenge \<noteq> []" by auto
  show "ValidatePKCE sample_challenge ''verifier''" by (simp add: ValidatePKCE_iff sample_challenge_def)
qed

text \<open>One outstanding code, valid until second 400.\<close>

definition sample_code :: AuthCode where
  "sample_code = \<lparr>ac_RedirectURI = ''https://claude.ai/cb'', ac_ExpiresAt = 400 * second,
     ac_CodeChallenge = sample_challenge, ac_CodeChallengeMethod = ''S256''\<rparr>"

definition sample_service :: "list_db Service" where
  "sample_service = \<lparr>cfg = sample_config, store = SQLite_Store list_engine, store_state = one_row,
     audit = NewAuditLogger [], authCodes = [(''c'', sample_code)], accessTokens = [], backendURL = None,
     observed = \<lparr>audit_text = [], audit_outcomes = [], metrics = zero_counters\<rparr>\<rparr>"

definition sample_exchange :: TokenExchangeRequest where
  "sample_exchange = \<lparr>tr_GrantType = ''authorization_code'', tr_ClientID = ''me'', tr_ClientSecret = [],
     tr_RedirectURI = ''https://claude.ai/cb'', tr_Code = ''c'', tr_CodeVerifier = ''verifier''\<rparr>"

definition sample_authorize :: AuthorizeRequest where
  "sample_authorize = \<lparr>ar_ResponseType = ''code'', ar_ClientID = ''me'', ar_RedirectURI = ''https://claude.ai/cb'',
     ar_State = ''xyz'', ar_CodeChallenge = sample_challenge, ar_CodeChallengeMethod = ''S256''\<rparr>"

abbreviation sample_random :: "string result" where
  "sample_random \<equiv> Inr (replicate 32 (CHR 0x00))"

definition sample_token :: string where
  "sample_token = b64url_encode (replicate 32 (CHR 0x00))"

lemma sample_random_token [simp]: "GenerateRandomString 32 sample_random = Inr sample_token"
  by (simp add: GenerateRandomString_def sample_token_def)

lemma sample_service_simps [simp]:
  "cfg sample_service = sample_config" "store sample_service = SQLite_Store list_engine"
  "store_state sample_service = one_row" "authCodes sample_service = [(''c'', sample_code)]"
  "accessTokens sample_service = []" "OAuthProxy sample_config = sample_oauth"
  by (simp_all add: sample_service_def sample_config_def)

lemma sample_authenticates [simp]:
  "authenticateClient ''me'' [] s \<longleftrightarrow> cfg_ClientID (OAuthProxy (cfg s)) = ''me''"
  by (auto simp: authenticateClient_iff)

lemma sample_redeemable: "now1 \<le> 400 * second \<Longrightarrow> redeemable sample_exchange now1 [(''c'', sample_code)]"
  by (simp add: redeemable_def sample_exchange_def sample_code_def)

lemma sample_authorized: "authorize_ok sample_authorize sample_oauth"
  by (simp add: authorize_ok_def sample_authorize_def sample_oauth_def pkce_form_def redirect_example)

lemma code_single_use_witness:
  "\<exists>r s1. ExchangeToken sample_exchange sample_random 0 0 1000 sample_service = (r, s1) \<and>
    ExchangeToken sample_exchange sample_random 0 0 1000 s1 =
      (Returns (Inl ''invalid_grant: invalid or expired code''), s1)"
proof -
  obtain r s1 where x: "ExchangeToken sample_exchange sample_random 0 0 1000 sample_service = (r, s1)" by fastforce
  have "authenticateClient (tr_ClientID sample_exchange) (tr_ClientSecret sample_exchange) sample_service"
    by (simp add: sample_exchange_def sample_oauth_def)
  moreover have "tr_GrantType sample_exchange = ''authorization_code''" by (simp add: sample_exchange_def)
  ultimately show ?thesis using code_single_use [OF _ _ x] x by blast
qed

lemma exchange_error_code_witness:
  "\<exists>s1. ExchangeToken (sample_exchange\<lparr>tr_CodeVerifier := ''other''\<rparr>) (Inl []) (401 * second) 0 1000 sample_service =
      (Returns (Inl ''invalid_grant: invalid or expired code''), s1) \<and>
    MapTokenError ''invalid_grant: invalid or expired code'' = (''invalid_grant'', 400)"
proof -
  obtain s1 where x: "ExchangeToken (sample_exchange\<lparr>tr_CodeVerifier := ''other''\<rparr>) (Inl []) (401 * second) 0 1000
      sample_service = (Returns (Inl ''invalid_grant: invalid or expired code''), s1)"
    by (simp add: ExchangeToken_stages exchange_begin_def ConsumeAuthCode_def sample_exchange_def sample_code_def
        sample_oauth_def second_def)
  have "\<not> redeemable (sample_exchange\<lparr>tr_CodeVerifier := ''other''\<rparr>) (401 * second) (authCodes sample_service)"
    by (simp add: redeemable_def sample_exchange_def sample_code_def second_def)
  with exchange_error_code [OF x] x show ?thesis by (auto simp: sample_exchange_def sample_oauth_def)
qed


subsection \<open>Purging and validation\<close>

lemma purge_codes_loop_eq:
  "gomap_ok cs \<Longrightarrow> map_of (purge_codes_loop nowc cs m) c =
    (case map_of cs c of
       None \<Rightarrow> map_of m c
     | Some d \<Rightarrow> if ac_ExpiresAt d < nowc c then None else map_of m c)"
proof (induction cs arbitrary: m)
  case Nil
  then show ?case by simp
next
  case (Cons kd cs)
  obtain k d where kd: "kd = (k, d)" by (cases kd)
  have ok: "gomap_ok cs" "map_of cs k = None"
    using Cons.prems by (auto simp: kd gomap_ok_def map_of_eq_None_iff)
  then show ?case
    using Cons.IH [OF ok(1)] by (auto simp: kd map_of_delete_neq split: option.splits)
qed

lemma purge_tokens_loop_eq:
  "gomap_ok ts \<Longrightarrow> purge_tokens_loop now ts m ch = (m', ch') \<Longrightarrow>
    map_of m' h = (case map_of ts h of
       None \<Rightarrow> map_of m h
     | Some v \<Rightarrow> if v \<le> now then None else map_of m h) \<and>
    (ch' \<longleftrightarrow> ch \<or> (\<exists>v\<in>snd ` set ts. v \<le> now))"
proof (induction ts arbitrary: m ch)
  case Nil
  then show ?case by simp
next
  case (Cons hv ts)
  obtain k v where hv: "hv = (k, v)" by (cases hv)
  have ok: "gomap_ok ts" "map_of ts k = None"
    using Cons.prems(1) by (auto simp: hv gomap_ok_def map_of_eq_None_iff)
  show ?case
  proof (cases "v \<le> now")
    case True
    with Cons.prems(2) have "purge_tokens_loop now ts (AList.delete k m) True = (m', ch')" by (simp add: hv)
    from Cons.IH [OF ok(1) this] show ?thesis using True ok(2) by (auto simp: hv map_of_delete_neq split: option.splits)
  next
    case False
    with Cons.prems(2) have "purge_tokens_loop now ts m ch = (m', ch')" by (simp add: hv)
    from Cons.IH [OF ok(1) this] show ?thesis using False ok(2) by (auto simp: hv)
  qed
qed

lemma purge_loops_ok [simp]:
  "gomap_ok m \<Longrightarrow> gomap_ok (purge_codes_loop nowc cs m)"
  "gomap_ok m' \<Longrightarrow> gomap_ok (fst (purge_tokens_loop now ts m' ch))"
proof -
  show "gomap_ok m \<Longrightarrow> gomap_ok (purge_codes_loop nowc cs m)"
    by (induction cs arbitrary: m rule: list.induct) (auto split: if_splits)
  show "gomap_ok m' \<Longrightarrow> gomap_ok (fst (purge_tokens_loop now ts m' ch))"
    by (induction ts arbitrary: m' ch rule: list.induct) auto
qed

lemma syncTokens_frame [frame_simps]:
  "authCodes (syncTokens_save m t s) = authCodes s" "accessTokens (syncTokens_save m t s) = accessTokens s"
  "cfg (syncTokens_save m t s) = cfg s" "store (syncTokens_save m t s) = store s"
  by (auto simp: syncTokens_save_def frame_simps split: prod.split sum.split)

lemma PurgeExpired_frame [frame_simps]:
  "cfg (PurgeExpired now nowc t s) = cfg s" "store (PurgeExpired now nowc t s) = store s"
  by (auto simp: PurgeExpired_def purge_tokens_def purge_codes_def syncTokens_def frame_simps split: prod.splits)

lemma PurgeExpired_maps:
  "authCodes (PurgeExpired now nowc t s) = purge_codes_loop nowc (authCodes s) (authCodes s)"
  "accessTokens (PurgeExpired now nowc t s) =
    fst (purge_tokens_loop (f64_of_int now) (accessTokens s) (accessTokens s) False)"
  by (auto simp: PurgeExpired_def purge_tokens_def purge_codes_def syncTokens_def frame_simps split: prod.splits)

text \<open>
  C23. The sweep removes what has expired and nothing else: a code stays exactly when it has not
  expired, a token exactly when its expiry lies after the sweep. No validation after the sweep
  can tell that it ran, and the store is written only if some token was removed.
\<close>

theorem purge_exact:
  assumes "gomap_ok (authCodes s)" and "gomap_ok (accessTokens s)" and "PurgeExpired now nowc t s = s1"
    and "clock now" and "clock now'" and "now \<le> now'"
  shows "map_of (authCodes s1) c =
      (case map_of (authCodes s) c of None \<Rightarrow> None | Some d \<Rightarrow> if ac_ExpiresAt d < nowc c then None else Some d) \<and>
    map_of (accessTokens s1) h =
      (case map_of (accessTokens s) h of None \<Rightarrow> None | Some v \<Rightarrow> if v \<le> of_int now then None else Some v) \<and>
    ValidateAccessToken tok now' s1 = ValidateAccessToken tok now' s \<and>
    (list_all (\<lambda>(h, v). of_int now < v) (accessTokens s) \<longrightarrow> store_state s1 = store_state s)"
proof (intro conjI impI)
  obtain m' ch where l: "purge_tokens_loop (of_int now) (accessTokens s) (accessTokens s) False = (m', ch)"
    by fastforce
  note m' = purge_tokens_loop_eq [OF assms(2) l]
  have a1: "accessTokens s1 = m'" using assms(3,4) l by (auto simp: PurgeExpired_maps clock_exact)
  show "map_of (authCodes s1) c =
      (case map_of (authCodes s) c of None \<Rightarrow> None | Some d \<Rightarrow> if ac_ExpiresAt d < nowc c then None else Some d)"
    using assms(1,3) by (auto simp: PurgeExpired_maps purge_codes_loop_eq split: option.splits)
  have tok: "map_of (accessTokens s1) h =
      (case map_of (accessTokens s) h of None \<Rightarrow> None | Some v \<Rightarrow> if v \<le> of_int now then None else Some v)" for h
    using m' [of h] by (auto simp: a1 split: option.splits)
  show "map_of (accessTokens s1) h =
      (case map_of (accessTokens s) h of None \<Rightarrow> None | Some v \<Rightarrow> if v \<le> of_int now then None else Some v)"
    by (rule tok)
  show "ValidateAccessToken tok now' s1 = ValidateAccessToken tok now' s"
    using assms(4-6) tok [of "HashToken tok"] by (auto simp: ValidateAccessToken_def clock_exact split: option.splits)
  show "store_state s1 = store_state s" if "list_all (\<lambda>(h, v). of_int now < v) (accessTokens s)"
  proof -
    have "\<not> ch" using m' that by (force simp: list_all_iff)
    then show ?thesis
      using assms(3,4) l by (auto simp: PurgeExpired_def purge_tokens_def purge_codes_def clock_exact)
  qed
qed

lemma purge_exact_witness:
  "\<exists>s1. PurgeExpired 1000 (\<lambda>_. 401 * second) 1001 (sample_service\<lparr>accessTokens := sample_tokens\<rparr>) = s1 \<and>
    map_of (authCodes s1) ''c'' = None \<and> map_of (accessTokens s1) ''a'' = None \<and>
    map_of (accessTokens s1) ''b'' = Some 5000"
proof -
  define s where "s = sample_service\<lparr>accessTokens := sample_tokens\<rparr>"
  have ok: "gomap_ok (authCodes s)" "gomap_ok (accessTokens s)"
    by (simp_all add: s_def gomap_ok_def sample_tokens_def)
  have p: "map_of (authCodes (PurgeExpired 1000 (\<lambda>_. 401 * second) 1001 s)) ''c'' = None"
      "map_of (accessTokens (PurgeExpired 1000 (\<lambda>_. 401 * second) 1001 s)) h =
      (case map_of sample_tokens h of None \<Rightarrow> None | Some v \<Rightarrow> if v \<le> of_int 1000 then None else Some v)" for h
    using purge_exact [OF ok refl, of 1000 1000 "\<lambda>_. 401 * second" 1001 "''c''" h "[]"]
    by (simp_all add: clock_def s_def sample_code_def second_def)
  then show ?thesis unfolding s_def by (auto simp: sample_tokens_def)
qed


subsection \<open>What every outstanding code satisfies\<close>

definition code_ok :: "OAuthProxyConfig \<Rightarrow> string \<Rightarrow> AuthCode \<Rightarrow> bool" where
  "code_ok c code d \<longleftrightarrow> IsAllowedRedirect (ac_RedirectURI d) \<and>
    (cfg_MandatoryPKCE c \<longrightarrow> ac_CodeChallenge d \<noteq> []) \<and>
    pkce_form (ac_CodeChallenge d) (ac_CodeChallengeMethod d) \<and>
    length code = 43 \<and> set code \<subseteq> b64_alphabet"

definition codes_ok :: "'s Service \<Rightarrow> bool" where
  "codes_ok s \<longleftrightarrow> gomap_ok (authCodes s) \<and>
    (\<forall>code d. map_of (authCodes s) code = Some d \<longrightarrow> code_ok (OAuthProxy (cfg s)) code d)"

lemma codes_okI:
  "codes_ok s \<Longrightarrow> cfg s' = cfg s \<Longrightarrow> gomap_ok (authCodes s') \<Longrightarrow>
    (\<And>code d. map_of (authCodes s') code = Some d \<Longrightarrow> map_of (authCodes s) code = Some d) \<Longrightarrow> codes_ok s'"
  by (auto simp: codes_ok_def)

lemma random_code_form: "GenerateRandomString 32 rnd = Inr code \<Longrightarrow> length code = 43 \<and> set code \<subseteq> b64_alphabet"
  using b64url_encode_alphabet
  by (auto dest!: GenerateRandomString_Inr simp: length_b64url_encode)

lemma codes_ok_issue:
  assumes "codes_ok s" and "IssueAuthCode req rnd now s = (r, s')"
  shows "codes_ok s'"
proof (cases "authorize_ok req (OAuthProxy (cfg s))")
  case False
  then show ?thesis using assms IssueAuthCode_refused [OF False, of rnd now] by auto
next
  case True
  show ?thesis
  proof (cases "GenerateRandomString 32 rnd")
    case (Inl e)
    then show ?thesis using assms True by (simp add: IssueAuthCode_ok)
  next
    case (Inr code)
    have "code_ok (OAuthProxy (cfg s)) code (code_for req now (OAuthProxy (cfg s)))"
      using True random_code_form [OF Inr] by (auto simp: code_ok_def code_for_def authorize_ok_def)
    then show ?thesis using assms True Inr
      by (auto simp: codes_ok_def IssueAuthCode_ok AddAuthCode_def update_conv' split: if_splits)
  qed
qed

lemma codes_ok_delete:
  "codes_ok s \<Longrightarrow> cfg s' = cfg s \<Longrightarrow> authCodes s' = AList.delete c (authCodes s) \<Longrightarrow> codes_ok s'"
  by (auto simp: codes_ok_def delete_conv' split: if_splits)

lemma codes_ok_exchange_begin:
  assumes "codes_ok s" and "exchange_begin req now1 s = (r, s')"
  shows "codes_ok s'"
  using exchange_begin_codes [OF assms(2)]
proof
  assume "authCodes s' = authCodes s"
  then show ?thesis using exchange_begin_frame [OF assms(2)] assms(1) by (simp add: codes_ok_def)
next
  assume "authCodes s' = AList.delete (tr_Code req) (authCodes s)"
  then show ?thesis using exchange_begin_frame [OF assms(2)] assms(1) codes_ok_delete by blast
qed

lemma exchange_finish_frame:
  "exchange_finish rnd now2 t s = (r, s') \<Longrightarrow> cfg s' = cfg s \<and> store s' = store s \<and> authCodes s' = authCodes s"
  by (auto simp: exchange_finish_def frame_simps split: sum.splits prod.splits dest!: AddAccessToken_result)

lemma codes_ok_exchange:
  assumes "codes_ok s" and "ExchangeToken req rnd now1 now2 t s = (r, s')"
  shows "codes_ok s'"
proof -
  obtain rb sb where b: "exchange_begin req now1 s = (rb, sb)" by fastforce
  have ok: "codes_ok sb" by (rule codes_ok_exchange_begin [OF assms(1) b])
  show ?thesis
  proof (cases rb)
    case (Inl e)
    then show ?thesis using assms(2) b ok by (simp add: ExchangeToken_stages)
  next
    case (Inr d)
    then have "exchange_finish rnd now2 t sb = (r, s')" using assms(2) b by (simp add: ExchangeToken_stages)
    from exchange_finish_frame [OF this] ok show ?thesis by (auto intro: codes_okI simp: codes_ok_def)
  qed
qed

lemma codes_ok_purge:
  assumes "codes_ok s"
  shows "codes_ok (PurgeExpired now nowc t s)"
  using assms
  by (rule codes_okI) (use assms in \<open>auto simp: codes_ok_def frame_simps PurgeExpired_maps purge_codes_loop_eq
      split: option.splits if_splits\<close>)

lemma Ready_frame [frame_simps]:
  "cfg (snd (Ready t s)) = cfg s" "store (snd (Ready t s)) = store s"
  "authCodes (snd (Ready t s)) = authCodes s" "accessTokens (snd (Ready t s)) = accessTokens s"
  by (auto simp: Ready_def count_readiness_failure_def Let_def split: prod.split sum.split)

text \<open>
  C24. What every outstanding code satisfies. From construction on, whatever requests and sweeps
  run, every code in the table is 43 characters of the base64url alphabet, stands for an
  allowed redirect URI, has a challenge where PKCE is mandatory, and any challenge was declared
  S256 and has 43 to 128 characters.
\<close>

theorem outstanding_codes_ok:
  assumes "NewService c st s a ob t0 = (Inr s0, s') \<and> svc = s0 \<or> codes_ok svc"
    and "next = snd (IssueAuthCode ar rnd now svc) \<or> next = snd (ExchangeToken req rnd now1 now2 t svc) \<or>
      next = PurgeExpired now' nowc t svc \<or> next = snd (Ready t svc)"
  shows "codes_ok svc \<and> codes_ok next"
proof -
  have ok: "codes_ok svc"
    using assms(1) by (auto simp: NewService_def codes_ok_def Let_def split: prod.splits sum.splits if_splits option.splits)
  moreover have "codes_ok (snd (Ready t svc))"
    using ok by (simp add: codes_ok_def frame_simps)
  ultimately show ?thesis
    using assms(2) codes_ok_issue [OF ok] codes_ok_exchange [OF ok] codes_ok_purge [OF ok]
    by (metis prod.collapse)
qed

lemma outstanding_codes_ok_witness:
  "\<exists>s1. snd (IssueAuthCode sample_authorize sample_random 0 (sample_service\<lparr>authCodes := []\<rparr>)) = s1 \<and>
    codes_ok s1 \<and> map_of (authCodes s1) sample_token = Some (code_for sample_authorize 0 sample_oauth)"
proof -
  have "codes_ok (sample_service\<lparr>authCodes := []\<rparr>)" by (simp add: codes_ok_def)
  from outstanding_codes_ok [OF disjI2 [OF this] disjI1 [OF refl]]
  have "codes_ok (snd (IssueAuthCode sample_authorize sample_random 0 (sample_service\<lparr>authCodes := []\<rparr>)))" ..
  then show ?thesis using sample_authorized by (simp add: IssueAuthCode_ok AddAuthCode_def)
qed


subsection \<open>Lifetimes\<close>

lemma seconds_duration_exact: "\<bar>ttl\<bar> \<le> 9223372036 \<Longrightarrow> seconds_duration ttl = ttl * second"
proof -
  assume t: "\<bar>ttl\<bar> \<le> 9223372036"
  have "sint (word_of_int (ttl * second) :: 64 word) = signed_take_bit 63 (ttl * second)"
    by (subst sint_sbintrunc') simp
  also have "\<dots> = ttl * second"
    by (rule signed_take_bit_int_eq_self) (use t in \<open>simp_all add: second_def\<close>)
  finally show ?thesis by (simp add: seconds_duration_def)
qed

lemma seconds_duration_wraps: "seconds_duration 9223372037 = -9223372036709551616"
  by (simp add: seconds_duration_def second_def)

lemma Unix_add_seconds: "Unix (now + ttl * second) = Unix now + ttl"
  by (simp add: Unix_def second_def)

text \<open>
Lifetime of a token. A token that an exchange has just issued validates exactly until the
  second in which it was issued plus the configured lifetime, for every lifetime of at most
  9223372036 seconds.
\<close>

theorem issued_token_lifetime:
  assumes "ExchangeToken req rnd now1 now2 t s = (Returns (Inr resp), s2)"
    and "0 \<le> ttl" and "ttl \<le> 9223372036" and "ttl = cfg_AccessTokenTTL (OAuthProxy (cfg s))"
    and "clock (Unix now2)" and "clock n"
  shows "ValidateAccessToken (AccessToken resp) n s2 \<longleftrightarrow> n < Unix now2 + ttl"
proof -
  have u: "Unix (now2 + seconds_duration ttl) = Unix now2 + ttl"
    using assms(2,3) by (simp add: seconds_duration_exact Unix_add_seconds)
  have "f64_of_int (Unix now2 + ttl) = of_int (Unix now2 + ttl)"
    using assms(2,3,5) by (intro f64_of_int_exact) (auto simp: clock_def)
  then have "map_of (accessTokens s2) (HashToken (AccessToken resp)) = Some (of_int (Unix now2 + ttl))"
    using assms(1) u by (auto simp: exchange_Inr_iff Let_def frame_simps simp flip: assms(4))
  then show ?thesis using clock_exact [OF assms(6)]
    by (simp add: ValidateAccessToken_def del: of_int_add)
qed

lemma sample_exchange_runs:
  "\<exists>resp s2. ExchangeToken sample_exchange sample_random 0 (1000 * second) 1000 sample_service = (Returns (Inr resp), s2)
    \<and> AccessToken resp = sample_token"
proof -
  define toks where "toks = AList.update (HashToken sample_token)
    (f64_of_int (Unix (1000 * second + seconds_duration 86400))) []"
  have "f64_of_int (Unix (1000 * second + seconds_duration 86400)) = 87400"
    by (simp add: seconds_duration_exact Unix_add_seconds)
      (subst f64_of_int_exact, simp_all add: Unix_def second_def)
  then have "toks = [(HashToken sample_token, 87400)]" by (simp add: toks_def)
  then obtain db' where sv: "SQLiteStore_Save list_engine 1000 toks one_row = (Inr (), db')"
    by (simp add: SQLiteStore_Save_def list_engine_def ld_step_def ld_call_def one_row_def f64_to_int64_def)
  have toks: "toks = [(HashToken sample_token, f64_of_int (Unix (1000 * second + seconds_duration 86400)))]"
    by (simp add: toks_def)
  have red: "redeemable sample_exchange 0 [(''c'', sample_code)]"
    by (rule sample_redeemable) (simp add: second_def)
  have ttl: "cfg_AccessTokenTTL sample_oauth = 86400" "cfg_ClientID sample_oauth = ''me''"
    by (simp_all add: sample_oauth_def)
  have "ExchangeToken sample_exchange sample_random 0 (1000 * second) 1000 sample_service =
      (Returns (Inr \<lparr>AccessToken = sample_token, TokenType = ''Bearer'', ExpiresIn = 86400, Scope = ''mcp''\<rparr>),
       count_token_issued (sample_service\<lparr>authCodes := AList.delete (tr_Code sample_exchange) [(''c'', sample_code)],
         accessTokens := toks, store_state := db'\<rparr>))"
    unfolding exchange_Inr_iff
    by (rule exI [of _ sample_token], rule exI [of _ db'])
      (use sample_redeemable [of 0] sv in \<open>simp add: ttl red Let_def SQLite_Store_def toks [symmetric];
        simp add: sample_exchange_def ttl\<close>)
  then show ?thesis by auto
qed

lemma issued_token_lifetime_witness:
  "\<exists>resp s2. ExchangeToken sample_exchange sample_random 0 (1000 * second) 1000 sample_service = (Returns (Inr resp), s2)
    \<and> ValidateAccessToken sample_token 87399 s2 \<and> \<not> ValidateAccessToken sample_token 87400 s2"
proof -
  obtain resp s2 where x: "ExchangeToken sample_exchange sample_random 0 (1000 * second) 1000 sample_service =
      (Returns (Inr resp), s2)" and tok: "AccessToken resp = sample_token"
    using sample_exchange_runs by blast
  have "ValidateAccessToken (AccessToken resp) n s2 \<longleftrightarrow> n < Unix (1000 * second) + 86400" if "clock n" for n
    by (rule issued_token_lifetime [OF x]) (use that in \<open>simp_all add: sample_oauth_def clock_def Unix_def second_def\<close>)
  from this [of 87399] this [of 87400] show ?thesis
    using x tok by (simp add: clock_def Unix_def second_def)
qed


definition overflow_config :: Config where
  "overflow_config = sample_config\<lparr>OAuthProxy := sample_oauth\<lparr>cfg_AuthCodeTTL := 9223372037\<rparr>\<rparr>"


text \<open>
Only challenges of 43 characters can be redeemed. \<^verbatim>\<open>IssueAuthCode\<close> accepts a challenge
  of 44 to 128 characters and returns a code, but no request whatever redeems that code.
\<close>

theorem long_challenge_unredeemable:
  assumes "authorize_ok req (OAuthProxy (cfg s))" and "43 < length (ar_CodeChallenge req)"
    and "GenerateRandomString 32 rnd = Inr code" and "IssueAuthCode req rnd now s = (r, s1)" and "tr_Code x = code"
  shows "r = Returns (Inr code) \<and> \<not> redeemable x now1 (authCodes s1)"
  using assms
  by (auto simp: IssueAuthCode_ok AddAuthCode_def code_for_def redeemable_def dest!: ValidatePKCE_length)

lemma long_challenge_unredeemable_witness:
  "\<exists>s1. IssueAuthCode (sample_authorize\<lparr>ar_CodeChallenge := replicate 44 (CHR 0x41)\<rparr>) sample_random 0 sample_service =
      (Returns (Inr sample_token), s1) \<and>
    \<not> redeemable (sample_exchange\<lparr>tr_Code := sample_token\<rparr>) 0 (authCodes s1)"
proof -
  obtain r s1 where i: "IssueAuthCode (sample_authorize\<lparr>ar_CodeChallenge := replicate 44 (CHR 0x41)\<rparr>)
      sample_random 0 sample_service = (r, s1)" by fastforce
  have "authorize_ok (sample_authorize\<lparr>ar_CodeChallenge := replicate 44 (CHR 0x41)\<rparr>) sample_oauth"
    using sample_authorized by (simp add: authorize_ok_def pkce_form_def sample_authorize_def)
  then have "r = Returns (Inr sample_token) \<and>
      \<not> redeemable (sample_exchange\<lparr>tr_Code := sample_token\<rparr>) 0 (authCodes s1)"
    by (intro long_challenge_unredeemable [OF _ _ sample_random_token i]) simp_all
  with i show ?thesis by blast
qed

end
