(* ===== verification/ServiceStore.thy ===== *)
theory ServiceStore
  imports ServiceFacts
begin

text \<open>
  The service over a token store: what the contract of \<open>token_store\<close> gives the service, whatever
  the store. Between requests every live token of the table is in the store
  (\<open>service_durable\<close>), every operation that runs alone keeps that, and a token the client was
  given is accepted again after a restart until it expires.
\<close>

lemma plain_hex_digit: "n < 16 \<Longrightarrow> plain_char (hex_digit n)"
proof -
  have "plain_char c" if "48 \<le> ord_of c" "ord_of c < 128" "ord_of c \<noteq> 0x3C" "ord_of c \<noteq> 0x3E" "ord_of c \<noteq> 0x5C" for c
    using that by (auto simp: plain_char_def)
  moreover assume "n < 16"
  then have "ord_of (hex_digit n) = (if n < 10 then 48 + n else 87 + n)" by (simp add: hex_digit_def)
  ultimately show ?thesis using \<open>n < 16\<close> by simp
qed

lemma plain_HashToken [simp]: "plain_text (HashToken tok)"
proof -
  have "list_all plain_char (hex_encode s)" for s
    by (induction s) (simp_all add: plain_hex_digit div_ord_of_less(2))
  then show ?thesis by (simp add: HashToken_def plain_text_def)
qed

lemma clean_tokens_iff:
  "clean_tokens m \<longleftrightarrow> gomap_ok m \<and> (\<forall>k v. map_of m k = Some v \<longrightarrow> plain_text k \<and> whole_seconds v)"
  by (auto simp: clean_tokens_def list_all_iff gomap_ok_def dest: map_of_SomeD)

lemma clean_tokens_cong: "clean_tokens m \<Longrightarrow> gomap_ok m' \<Longrightarrow> map_of m' = map_of m \<Longrightarrow> clean_tokens m'"
  by (simp add: clean_tokens_iff)

lemma clock_whole: "clock u \<Longrightarrow> whole_seconds (f64_of_int u)"
  by (simp add: clock_exact) (simp add: whole_seconds_def clock_def)

definition service_durable :: "('s \<Rightarrow> bool) \<Rightarrow> ('s \<Rightarrow> tokens) \<Rightarrow> int \<Rightarrow> 's Service \<Rightarrow> bool" where
  "service_durable ok holds t s \<longleftrightarrow> ok (store_state s) \<and> clean_tokens (accessTokens s) \<and>
    (\<forall>h v. map_of (accessTokens s) h = Some v \<and> of_int t < v \<longrightarrow> map_of (holds (store_state s)) h = Some v)"

lemma service_durableD:
  assumes "service_durable ok holds t s"
  shows "ok (store_state s)" and "clean_tokens (accessTokens s)"
    and "map_of (accessTokens s) h = Some v \<Longrightarrow> of_int t < v \<Longrightarrow> map_of (holds (store_state s)) h = Some v"
  using assms by (simp_all add: service_durable_def)

context token_store
begin

lemma durable_later: "service_durable ok holds t s \<Longrightarrow> t \<le> t' \<Longrightarrow> service_durable ok holds t' s"
  unfolding service_durable_def by (meson of_int_le_iff order.strict_trans1)

text \<open>One save of the whole table, with the outcome the contract allows.\<close>

lemma save_durable:
  assumes "service_durable ok holds t0 s" and "t0 \<le> t" and "clock t" and "clean_tokens m"
    and "st_Save st t m (store_state s) = (r, w)" and "store_state s' = w"
    and "clean_tokens (accessTokens s')"
    and "\<And>h v. map_of (accessTokens s') h = Some v \<Longrightarrow> map_of m h = Some v"
    and "r \<noteq> Inr () \<Longrightarrow> (\<And>h v. map_of (accessTokens s') h = Some v \<Longrightarrow> map_of (accessTokens s) h = Some v)"
  shows "service_durable ok holds t s'"
proof -
  note d = service_durableD [OF assms(1)]
  have okw: "ok w" by (rule save_ok [OF d(1) assms(3-5)])
  have in_m: "map_of (holds w) = map_of (live_tokens (of_int t) m) \<Longrightarrow> map_of (accessTokens s') h = Some v \<Longrightarrow>
      of_int t < v \<Longrightarrow> map_of (holds w) h = Some v" for h v
    using assms(8) [of h v] assms(4) by (simp add: map_of_live)
  have "map_of (holds w) h = Some v" if h: "map_of (accessTokens s') h = Some v" "of_int t < v" for h v
  proof (cases r)
    case (Inl e)
    with assms(5) save_nothing [OF d(1) assms(3,4)]
    consider "map_of (holds w) = map_of (holds (store_state s))" | "map_of (holds w) = map_of (live_tokens (of_int t) m)"
      by blast
    then show ?thesis
    proof cases
      case 1
      have "of_int t0 < v" using h(2) assms(2) by (meson of_int_le_iff order.strict_trans1)
      with 1 d(3) [of h v] assms(9) [OF _ h(1)] Inl show ?thesis by simp
    qed (use in_m h in blast)
  next
    case (Inr u)
    then show ?thesis using assms(5) save_all [OF d(1) assms(3,4)] in_m h by blast
  qed
  with okw assms(6,7) show ?thesis by (simp add: service_durable_def)
qed

lemma AddAccessToken_durable:
  assumes "service_durable ok holds t0 s" and "t0 \<le> t" and "clock t" and "store s = st"
    and "clock (Unix e)" and "AddAccessToken tok e t s = (r, s')"
  shows "service_durable ok holds t s'"
proof -
  note a = AddAccessToken_result [OF assms(6)] and d = service_durableD [OF assms(1)]
  define m where "m = AList.update (HashToken tok) (f64_of_int (Unix e)) (accessTokens s)"
  have m: "clean_tokens m" using d(2) assms(5) by (simp add: m_def clock_whole)
  show ?thesis
  proof (rule save_durable [OF assms(1-3) m _ refl])
    show "st_Save st t m (store_state s) = (r, store_state s')" using a assms(4) by (simp add: m_def)
    have s': "accessTokens s' = (if r = Inr () then m else AList.delete (HashToken tok) m)" using a by (auto simp: m_def)
    then show "clean_tokens (accessTokens s')" using m by simp
    show "map_of m h = Some v" if "map_of (accessTokens s') h = Some v" for h v
      using that s' by (auto simp: delete_conv' split: if_splits)
    show "map_of (accessTokens s) h = Some v" if "r \<noteq> Inr ()" "map_of (accessTokens s') h = Some v" for h v
      using that s' by (auto simp: m_def delete_conv' update_conv' split: if_splits)
  qed
qed

lemma syncTokens_durable:
  assumes "service_durable ok holds t0 s" and "t0 \<le> t" and "clock t" and "store s = st"
  shows "service_durable ok holds t (syncTokens t s)"
proof -
  obtain r w where w: "st_Save st t (accessTokens s) (store_state s) = (r, w)" by fastforce
  have "store_state (syncTokens t s) = w"
    using w assms(4) by (auto simp: syncTokens_def syncTokens_save_def frame_simps split: sum.split)
  then show ?thesis
    using service_durableD(2) [OF assms(1)]
    by (intro save_durable [OF assms(1-3) _ w]) (simp_all add: syncTokens_def frame_simps)
qed

lemma purge_tokens_sub:
  assumes "clean_tokens (accessTokens s)"
  shows "clean_tokens (fst (purge_tokens_loop now (accessTokens s) (accessTokens s) ch))"
    and "map_of (fst (purge_tokens_loop now (accessTokens s) (accessTokens s) ch)) h = Some v \<Longrightarrow>
      map_of (accessTokens s) h = Some v"
proof -
  obtain m' ch' where l: "purge_tokens_loop now (accessTokens s) (accessTokens s) ch = (m', ch')" by fastforce
  have g: "gomap_ok (accessTokens s)" using assms by simp
  have sub: "map_of m' h = Some v \<Longrightarrow> map_of (accessTokens s) h = Some v" for h v
    using purge_tokens_loop_eq [OF g l, of h] by (auto split: option.splits if_splits)
  moreover have "gomap_ok m'" using purge_loops_ok(2) [OF g, of now "accessTokens s" ch] l by simp
  ultimately show "clean_tokens (fst (purge_tokens_loop now (accessTokens s) (accessTokens s) ch))"
    using assms l by (auto simp: clean_tokens_iff)
  show "map_of (fst (purge_tokens_loop now (accessTokens s) (accessTokens s) ch)) h = Some v \<Longrightarrow>
      map_of (accessTokens s) h = Some v" using sub l by simp
qed

lemma PurgeExpired_durable:
  assumes "service_durable ok holds t0 s" and "t0 \<le> t" and "clock t" and "store s = st"
  shows "service_durable ok holds t (PurgeExpired now nowc t s)"
proof -
  obtain m ch where l: "purge_tokens_loop (f64_of_int now) (accessTokens s) (accessTokens s) False = (m, ch)"
    by fastforce
  define s1 where "s1 = (purge_codes nowc s)\<lparr>accessTokens := m\<rparr>"
  note d = service_durableD [OF assms(1)]
  have m: "clean_tokens m" "\<And>h v. map_of m h = Some v \<Longrightarrow> map_of (accessTokens s) h = Some v"
    using purge_tokens_sub [OF d(2), of "f64_of_int now" False] l by auto
  have "service_durable ok holds t0 s1"
    using d m by (auto simp: service_durable_def s1_def purge_codes_def)
  moreover have "PurgeExpired now nowc t s = (if ch then syncTokens t s1 else s1)"
    using l by (simp add: PurgeExpired_def purge_tokens_def s1_def purge_codes_def)
  moreover have "store s1 = st" using assms(4) by (simp add: s1_def purge_codes_def)
  ultimately show ?thesis using syncTokens_durable durable_later assms(2,3) by presburger
qed

lemma ExchangeToken_durable:
  assumes "service_durable ok holds t0 s" and "t0 \<le> t" and "clock t" and "store s = st"
    and "clock (Unix (now2 + seconds_duration (cfg_AccessTokenTTL (OAuthProxy (cfg s)))))"
    and "ExchangeToken req rnd now1 now2 t s = (r, s')"
  shows "service_durable ok holds t s'"
proof -
  obtain rb sb where b: "exchange_begin req now1 s = (rb, sb)" by fastforce
  note fr = exchange_begin_frame [OF b]
  have db: "service_durable ok holds t0 sb" using assms(1) fr by (simp add: service_durable_def)
  have dt: "service_durable ok holds t sb" by (rule durable_later [OF db assms(2)])
  show ?thesis
  proof (cases "\<exists>d tok. rb = Inr d \<and> GenerateRandomString 32 rnd = Inr tok")
    case False
    then have "s' = sb"
      using assms(6) b by (auto simp: ExchangeToken_stages exchange_finish_def split: sum.splits)
    with dt show ?thesis by simp
  next
    case True
    then obtain d tok where rt: "rb = Inr d" "GenerateRandomString 32 rnd = Inr tok" by blast
    obtain ra sa where a: "AddAccessToken tok
        (now2 + seconds_duration (cfg_AccessTokenTTL (OAuthProxy (cfg sb)))) t sb = (ra, sa)" by fastforce
    have "service_durable ok holds t sa"
      by (rule AddAccessToken_durable [OF db assms(2,3) _ _ a]) (use assms(4,5) fr in simp_all)
    moreover have "s' = sa \<or> s' = count_token_issued sa"
      using assms(6) b rt a by (auto simp: ExchangeToken_stages exchange_finish_def split: sum.splits)
    ultimately show ?thesis by (auto simp: service_durable_def frame_simps)
  qed
qed

lemma Ready_durable:
  assumes "service_durable ok holds t0 s" and "t0 \<le> t" and "clock t" and "store s = st"
  shows "service_durable ok holds t (snd (Ready t s))"
proof -
  obtain r w where w: "st_Load st t (store_state s) = (r, w)" by fastforce
  note d = service_durableD [OF assms(1)]
  have "ok w \<and> map_of (holds w) = map_of (holds (store_state s))" by (rule load_ok [OF d(1) assms(3) w])
  moreover have "store_state (snd (Ready t s)) = store_state s \<or> store_state (snd (Ready t s)) = w"
    using w assms(4) by (auto simp: Ready_def count_readiness_failure_def Let_def split: prod.splits sum.splits)
  ultimately have "service_durable ok holds t0 (snd (Ready t s))"
    using d by (auto simp: service_durable_def frame_simps)
  then show ?thesis by (rule durable_later [OF _ assms(2)])
qed

lemma NewService_durable:
  assumes "ok w" and "clean_tokens (holds w)" and "clock t" and "NewService c st w a ob t = (Inr s, w')"
  shows "service_durable ok holds t s \<and> store s = st \<and> cfg s = c \<and>
    map_of (accessTokens s) = map_of (live_tokens (of_int t) (holds w))"
proof -
  obtain m where l: "st_Load st t w = (Inr m, w')" and s: "accessTokens s = m" "store_state s = w'" "store s = st" "cfg s = c"
    using assms(4) by (auto simp: NewService_def Let_def split: prod.splits sum.splits if_splits option.splits)
  have m: "gomap_ok m" "map_of m = map_of (live_tokens (of_int t) (holds w))"
    using load_live [OF assms(1,3) l] by simp_all
  have "clean_tokens m" by (rule clean_tokens_cong [OF _ m]) (use assms(2) in simp)
  moreover have "map_of (holds w) h = Some v" if "map_of m h = Some v" for h v
    using that m(2) assms(2) by (auto simp: map_of_live split: option.splits if_splits)
  ultimately show ?thesis using load_ok [OF assms(1,3) l] s m by (auto simp: service_durable_def)
qed

end

subsection \<open>A service that handles requests one at a time\<close>

datatype op =
  Authorize AuthorizeRequest "string result" int
| Exchange TokenExchangeRequest "string result" int int int
| Sweep int "string \<Rightarrow> int" int
| Probe int

fun serve_op :: "op \<Rightarrow> 's Service \<Rightarrow> 's Service" where
  "serve_op (Authorize req rnd now) s = snd (IssueAuthCode req rnd now s)"
| "serve_op (Exchange req rnd now1 now2 t) s = snd (ExchangeToken req rnd now1 now2 t s)"
| "serve_op (Sweep now nowc t) s = PurgeExpired now nowc t s"
| "serve_op (Probe t) s = snd (Ready t s)"

fun serve :: "op list \<Rightarrow> 's Service \<Rightarrow> 's Service" where
  "serve [] s = s"
| "serve (p # ps) s = serve ps (serve_op p s)"

text \<open>The reading of the clock with which an operation calls the store.\<close>

fun op_time :: "op \<Rightarrow> int option" where
  "op_time (Authorize req rnd now) = None"
| "op_time (Exchange req rnd now1 now2 t) = Some t"
| "op_time (Sweep now nowc t) = Some t"
| "op_time (Probe t) = Some t"

text \<open>Clocks in range that do not go back, from \<open>t0\<close> to \<open>t\<close>; expiry times in range.\<close>

fun timed :: "Config \<Rightarrow> int \<Rightarrow> op list \<Rightarrow> int \<Rightarrow> bool" where
  "timed c t0 [] t \<longleftrightarrow> t0 \<le> t"
| "timed c t0 (p # ps) t \<longleftrightarrow>
    (case op_time p of None \<Rightarrow> timed c t0 ps t | Some t1 \<Rightarrow> t0 \<le> t1 \<and> clock t1 \<and> timed c t1 ps t) \<and>
    (case p of
       Exchange _ _ _ now2 _ \<Rightarrow> clock (Unix (now2 + seconds_duration (cfg_AccessTokenTTL (OAuthProxy c))))
     | _ \<Rightarrow> True)"

lemma IssueAuthCode_frame [frame_simps]:
  "cfg (snd (IssueAuthCode req rnd now s)) = cfg s" "store (snd (IssueAuthCode req rnd now s)) = store s"
  "store_state (snd (IssueAuthCode req rnd now s)) = store_state s"
  "accessTokens (snd (IssueAuthCode req rnd now s)) = accessTokens s"
  by (auto simp: IssueAuthCode_def AddAuthCode_def Let_def split: sum.split)

lemma ExchangeToken_frame [frame_simps]:
  "cfg (snd (ExchangeToken req rnd now1 now2 t s)) = cfg s" "store (snd (ExchangeToken req rnd now1 now2 t s)) = store s"
proof -
  obtain rb sb where b: "exchange_begin req now1 s = (rb, sb)" by fastforce
  obtain rf sf where f: "exchange_finish rnd now2 t sb = (rf, sf)" by fastforce
  have "snd (ExchangeToken req rnd now1 now2 t s) = sb \<or> snd (ExchangeToken req rnd now1 now2 t s) = sf"
    using b f by (simp add: ExchangeToken_stages split: sum.split)
  with exchange_begin_frame [OF b] exchange_finish_frame [OF f]
  show "cfg (snd (ExchangeToken req rnd now1 now2 t s)) = cfg s"
    "store (snd (ExchangeToken req rnd now1 now2 t s)) = store s" by auto
qed

lemma serve_op_frame [frame_simps]: "cfg (serve_op p s) = cfg s" "store (serve_op p s) = store s"
  by (cases p; simp add: frame_simps)+

lemma serve_frame [frame_simps]: "cfg (serve ps s) = cfg s" "store (serve ps s) = store s"
  by (induction ps arbitrary: s) (simp_all add: frame_simps)

context token_store
begin

lemma serve_op_durable:
  assumes "service_durable ok holds t0 s" and "store s = st" and "timed (cfg s) t0 (p # ps) t"
  shows "service_durable ok holds (case op_time p of None \<Rightarrow> t0 | Some t1 \<Rightarrow> t1) (serve_op p s)"
proof (cases p)
  case (Authorize req rnd now)
  then show ?thesis using assms(1) by (simp add: service_durable_def frame_simps)
next
  case (Exchange req rnd now1 now2 t1)
  obtain r s' where x: "ExchangeToken req rnd now1 now2 t1 s = (r, s')" by fastforce
  show ?thesis
    using ExchangeToken_durable [OF assms(1) _ _ assms(2) _ x] assms(3) Exchange x by simp
next
  case (Sweep now nowc t1)
  then show ?thesis using PurgeExpired_durable [OF assms(1)] assms(2,3) by simp
next
  case (Probe t1)
  then show ?thesis using Ready_durable [OF assms(1)] assms(2,3) by simp
qed

lemma serve_durable:
  assumes "service_durable ok holds t0 s" and "store s = st" and "timed (cfg s) t0 ps t"
  shows "service_durable ok holds t (serve ps s)"
  using assms
proof (induction ps arbitrary: s t0)
  case Nil
  then show ?case using durable_later by simp
next
  case (Cons p ps)
  have "timed (cfg s) (case op_time p of None \<Rightarrow> t0 | Some t1 \<Rightarrow> t1) ps t"
    using Cons.prems(3) by (auto split: option.splits)
  with Cons.IH [OF serve_op_durable [OF Cons.prems]] Cons.prems(2) show ?case by (simp add: frame_simps)
qed

lemma restart_validates:
  assumes "service_durable ok holds t s" and "clock t'" and "clock n" and "t \<le> t'" and "t' \<le> n"
    and "NewService c' st (store_state s) a' ob' t' = (Inr s', w')"
    and "ValidateAccessToken tok n s"
  shows "ValidateAccessToken tok n s'"
proof -
  note d = service_durableD [OF assms(1)]
  obtain v where v: "map_of (accessTokens s) (HashToken tok) = Some v" "of_int n < v"
    using assms(3,7) by (auto simp: ValidateAccessToken_def clock_exact split: option.splits)
  have "of_int t < v" "of_int t' < v" using v(2) assms(4,5) by (meson of_int_le_iff order.strict_trans1 order.trans)+
  then have h: "map_of (holds (store_state s)) (HashToken tok) = Some v" "of_int t' < v" using d(3) v by auto
  obtain m where l: "st_Load st t' (store_state s) = (Inr m, w')" and s': "accessTokens s' = m"
    using assms(6) by (auto simp: NewService_def Let_def split: prod.splits sum.splits if_splits option.splits)
  have "map_of m (HashToken tok) = Some v"
    using load_live [OF d(1) assms(2) l] holds_gomap [OF d(1)] h by (simp add: map_of_live)
  then show ?thesis using v(2) assms(3) s' by (simp add: ValidateAccessToken_def clock_exact)
qed

end

text \<open>
The live tokens are on disk. A service built over a store that meets the contract, after
  any sequence of authorizations, exchanges, sweeps and readiness probes, with stores and random
  sources failing wherever they may, has every unexpired token of its table in the store.
\<close>

theorem live_tokens_persisted:
  assumes "token_store st ok holds" and "ok w" and "clean_tokens (holds w)" and "clock t0"
    and "NewService c st w a ob t0 = (Inr s0, w0)" and "timed c t0 ops t" and "serve ops s0 = s"
  shows "ok (store_state s) \<and> (of_int t < v \<and> map_of (accessTokens s) h = Some v \<longrightarrow>
    map_of (holds (store_state s)) h = Some v)"
proof -
  note n = token_store.NewService_durable [OF assms(1-5)]
  have "service_durable ok holds t s"
    using token_store.serve_durable [OF assms(1), of t0 s0 ops t] n assms(6,7) by simp
  then show ?thesis using service_durableD by blast
qed

text \<open>
Tokens survive a restart. After any such sequence, a service built anew from the store
  that is left accepts every token the old one would accept at that time.
\<close>

theorem restart_keeps_tokens:
  assumes "token_store st ok holds" and "ok w" and "clean_tokens (holds w)" and "clock t0"
    and "NewService c st w a ob t0 = (Inr s0, w0)" and "timed c t0 ops t" and "serve ops s0 = s"
    and "NewService c' st (store_state s) a' ob' t' = (Inr s', w')"
    and "t \<le> t'" and "t' \<le> n" and "clock t'" and "clock n"
    and "ValidateAccessToken tok n s"
  shows "ValidateAccessToken tok n s'"
proof -
  note n = token_store.NewService_durable [OF assms(1-5)]
  have "service_durable ok holds t s"
    using token_store.serve_durable [OF assms(1), of t0 s0 ops t] n assms(6,7) by simp
  from token_store.restart_validates [OF assms(1) this assms(11,12,9,10,8,13)] show ?thesis .
qed

subsection \<open>The contract at work\<close>

definition one_token :: list_db where
  "one_token = \<lparr>ld_table = [(HashToken ''tok'', 5000)], ld_work = None, ld_faults = []\<rparr>"

lemma one_token_ok: "sql_ok ld_good ld_table one_token" "sql_holds ld_table one_token = [(HashToken ''tok'', 5000)]"
  by (simp_all add: sql_ok_def sql_holds_def one_token_def ld_good_def gomap_ok_def whole_seconds_def)

lemma one_token_clean: "clean_tokens (sql_holds ld_table one_token)"
  by (simp add: one_token_ok clean_tokens_def gomap_ok_def whole_seconds_def)

lemma sample_NewService:
  assumes "cfg_HugoMCPURL (OAuthProxy c) = ''http://127.0.0.1/api/mcp''" and "st_Load st t w = (Inr m, w')"
  shows "\<exists>s. NewService c st w a ob t = (Inr s, w') \<and> accessTokens s = m \<and> store_state s = w' \<and> cfg s = c"
proof -
  obtain u where "url_parse ''http://127.0.0.1/api/mcp'' = Some u"
    using sample_urls(1) by (auto simp: url_ok_def split: option.splits)
  then show ?thesis using assms by (simp add: NewService_def Let_def)
qed

abbreviation sample_audit :: AuditLogger where
  "sample_audit \<equiv> NewAuditLogger []"

abbreviation sample_obs :: obs where
  "sample_obs \<equiv> observed sample_service"

lemma one_token_load:
  "t < 5000 \<Longrightarrow> st_Load (SQLite_Store list_engine) t one_token = (Inr [(HashToken ''tok'', 5000)], one_token)"
  using f64_of_int_exact [of 5000]
  by (simp add: SQLite_Store_def SQLiteStore_Load_def list_engine_def ld_call_def one_token_def)

text \<open>Started at second 1000, one authorization and one probe, stopped and started again at 2000.\<close>

definition sample_ops :: "op list" where
  "sample_ops = [Authorize sample_authorize sample_random 0, Probe 1500]"

lemma sample_ops_keep:
  assumes "accessTokens s = [(HashToken ''tok'', 5000)]" and "store_state s = one_token"
    and "store s = SQLite_Store list_engine"
  shows "accessTokens (serve sample_ops s) = [(HashToken ''tok'', 5000)]" and "store_state (serve sample_ops s) = one_token"
proof -
  show "accessTokens (serve sample_ops s) = [(HashToken ''tok'', 5000)]"
    by (simp add: sample_ops_def frame_simps assms)
  have "store_state (snd (Ready 1500 x)) = one_token" if "store_state x = one_token" "store x = SQLite_Store list_engine" for x
    using that one_token_load [of 1500]
    by (auto simp: Ready_def count_readiness_failure_def Let_def split: prod.splits sum.splits)
  then show "store_state (serve sample_ops s) = one_token" by (simp add: sample_ops_def frame_simps assms)
qed

lemma sample_start:
  assumes "t < 5000"
  shows "\<exists>s. NewService sample_config (SQLite_Store list_engine) one_token a ob t = (Inr s, one_token) \<and>
    accessTokens s = [(HashToken ''tok'', 5000)] \<and> store_state s = one_token \<and> store s = SQLite_Store list_engine \<and>
    cfg s = sample_config"
  using sample_NewService [OF _ one_token_load [OF assms], of sample_config a ob]
  by (auto simp: sample_config_def sample_oauth_def NewService_def Let_def
      split: prod.splits sum.splits if_splits option.splits)

lemma restart_keeps_tokens_witness:
  "\<exists>s0 s' w'. NewService sample_config (SQLite_Store list_engine) one_token sample_audit sample_obs 1000 = (Inr s0, one_token) \<and>
    NewService sample_config (SQLite_Store list_engine) (store_state (serve sample_ops s0)) sample_audit sample_obs 2000 = (Inr s', w') \<and>
    ValidateAccessToken ''tok'' 4999 s'"
proof -
  obtain s0 where s0: "NewService sample_config (SQLite_Store list_engine) one_token sample_audit sample_obs 1000 = (Inr s0, one_token)"
      "accessTokens s0 = [(HashToken ''tok'', 5000)]" "store_state s0 = one_token" "store s0 = SQLite_Store list_engine"
    using sample_start [of 1000] by auto
  note s1 = sample_ops_keep [OF s0(2-4)]
  obtain s' where s': "NewService sample_config (SQLite_Store list_engine) (store_state (serve sample_ops s0)) sample_audit sample_obs 2000
      = (Inr s', one_token)"
    using sample_start [of 2000] s1(2) by auto
  have ck: "clock 1000" "clock 1500" "clock 2000" "clock 4999" by (simp_all add: clock_def)
  have "timed sample_config 1000 sample_ops 1500" by (simp add: sample_ops_def ck)
  moreover have "ValidateAccessToken ''tok'' 4999 (serve sample_ops s0)"
    by (simp add: ValidateAccessToken_def s1(1) clock_exact [OF ck(4)])
  ultimately have "ValidateAccessToken ''tok'' 4999 s'"
    using restart_keeps_tokens [OF sq.token_store_axioms one_token_ok(1) one_token_clean ck(1) s0(1) _ refl s' _ _ ck(3,4)]
    by simp
  with s0 s' show ?thesis by blast
qed

lemma live_tokens_persisted_witness:
  "\<exists>s0. NewService sample_config (SQLite_Store list_engine) one_token sample_audit sample_obs 1000 = (Inr s0, one_token) \<and>
    map_of (sql_holds ld_table (store_state (serve sample_ops s0))) (HashToken ''tok'') = Some 5000"
proof -
  obtain s0 where s0: "NewService sample_config (SQLite_Store list_engine) one_token sample_audit sample_obs 1000 = (Inr s0, one_token)"
      "accessTokens s0 = [(HashToken ''tok'', 5000)]" "store_state s0 = one_token" "store s0 = SQLite_Store list_engine"
    using sample_start [of 1000] by auto
  have ck: "clock 1000" "clock 1500" by (simp_all add: clock_def)
  have "timed sample_config 1000 sample_ops 1500" by (simp add: sample_ops_def ck)
  from live_tokens_persisted [OF sq.token_store_axioms one_token_ok(1) one_token_clean ck(1) s0(1) this refl,
      of 5000 "HashToken ''tok''"] sample_ops_keep(1) [OF s0(2-4)] s0(1)
  show ?thesis by auto
qed

end
