(* ===== verification/ServiceRuns.thy ===== *)
theory ServiceRuns
  imports ServiceStore
begin

text \<open>
  Concurrent requests. The handlers of the server run in parallel and take the locks of the
  service one critical section at a time. A step of \<open>wstep\<close> is one critical section: issuing a
  code, consuming one, writing the new token (table and store, under one lock), the parts of a
  sweep, and the store write at the end of a sweep, which takes no lock of the service. The
  world also carries what is in flight and, as history, which codes were issued and which
  tokens were granted.
\<close>

record 's world =
  svc :: "'s Service"
  exchanging :: "(TokenExchangeRequest \<times> AuthCode) list"
  unsynced :: nat
  syncing :: "tokens list"
  issued :: "(string \<times> AuthCode) list"
  granted :: "(TokenExchangeRequest \<times> AuthCode \<times> string) list"

definition fresh_world :: "'s Service \<Rightarrow> 's world" where
  "fresh_world s = \<lparr>svc = s, exchanging = [], unsynced = 0, syncing = [], issued = [], granted = []\<rparr>"

inductive wstep :: "'s world \<Rightarrow> 's world \<Rightarrow> bool" where
  authorize: "IssueAuthCode req rnd now (svc w) = (r, s) \<Longrightarrow>
    wstep w (w\<lparr>svc := s,
      issued := (case r of Returns (Inr code) \<Rightarrow> [(code, code_for req now (OAuthProxy (cfg (svc w))))] | _ \<Rightarrow> [])
        @ issued w\<rparr>)"
| begin_exchange: "exchange_begin req now1 (svc w) = (r, s) \<Longrightarrow>
    wstep w (w\<lparr>svc := s, exchanging := (case r of Inr d \<Rightarrow> [(req, d)] | Inl e \<Rightarrow> []) @ exchanging w\<rparr>)"
| finish_exchange: "(req, d) \<in> set (exchanging w) \<Longrightarrow> exchange_finish rnd now2 t (svc w) = (r, s) \<Longrightarrow>
    wstep w (w\<lparr>svc := s, exchanging := remove1 (req, d) (exchanging w),
      granted := (case r of Returns (Inr resp) \<Rightarrow> [(req, d, AccessToken resp)] | _ \<Rightarrow> []) @ granted w\<rparr>)"
| sweep_codes: "wstep w (w\<lparr>svc := purge_codes nowc (svc w)\<rparr>)"
| sweep_tokens: "purge_tokens now (svc w) = (s, changed) \<Longrightarrow>
    wstep w (w\<lparr>svc := s, unsynced := (if changed then unsynced w + 1 else unsynced w)\<rparr>)"
| sync_snapshot: "unsynced w = Suc n \<Longrightarrow>
    wstep w (w\<lparr>unsynced := n, syncing := accessTokens (svc w) # syncing w\<rparr>)"
| sync_save: "m \<in> set (syncing w) \<Longrightarrow>
    wstep w (w\<lparr>svc := syncTokens_save m t (svc w), syncing := remove1 m (syncing w)\<rparr>)"
| probe: "wstep w (w\<lparr>svc := snd (Ready t (svc w))\<rparr>)"

abbreviation wsteps :: "'s world \<Rightarrow> 's world \<Rightarrow> bool" where
  "wsteps \<equiv> wstep\<^sup>*\<^sup>*"

inductive_cases wstepE: "wstep w w'"

lemmas purge_simps = purge_codes_def purge_tokens_def

lemma delete_keys_sub: "fst ` set (AList.delete k m) \<subseteq> fst ` set m"
  by (auto simp: AList.delete_eq)

lemma map_of_delete_sub: "map_of (AList.delete k m) c = Some d \<Longrightarrow> map_of m c = Some d"
  by (simp add: delete_conv' split: if_splits)

lemma purge_codes_loop_sub:
  "map_of (purge_codes_loop nowc cs m) c = Some d \<Longrightarrow> map_of m c = Some d"
proof (induction cs arbitrary: m)
  case (Cons kd cs)
  obtain k e where kd: "kd = (k, e)" by (cases kd)
  from Cons.prems Cons.IH show ?case by (auto simp: kd split: if_splits dest: map_of_delete_sub)
qed simp

lemma purge_tokens_loop_keys:
  "purge_tokens_loop now ts m ch = (m', ch') \<Longrightarrow> fst ` set m' \<subseteq> fst ` set m"
proof (induction ts arbitrary: m ch)
  case (Cons kv ts)
  obtain k v where kv: "kv = (k, v)" by (cases kv)
  show ?case
  proof (cases "v \<le> now")
    case True
    then have "fst ` set m' \<subseteq> fst ` set (AList.delete k m)"
      using Cons.IH [of "AList.delete k m" True] Cons.prems by (simp add: kv)
    then show ?thesis by (rule order.trans) (rule delete_keys_sub)
  next
    case False
    then show ?thesis using Cons.IH [of m ch] Cons.prems by (simp add: kv)
  qed
qed simp

subsection \<open>The grant protocol\<close>

text \<open>
  The specification: codes are issued, dropped, taken by a request that presents them properly,
  and a taken code gives at most one token.
\<close>

record grants =
  outstanding :: "string \<rightharpoonup> AuthCode"
  taken :: "(TokenExchangeRequest \<times> AuthCode) list"
  given_out :: "(string \<times> AuthCode) list"
  tokens_for :: "(TokenExchangeRequest \<times> AuthCode \<times> string) list"

definition presents :: "OAuthProxyConfig \<Rightarrow> TokenExchangeRequest \<Rightarrow> AuthCode \<Rightarrow> bool" where
  "presents c req d \<longleftrightarrow> tr_ClientID req = cfg_ClientID c \<and>
    tr_RedirectURI req = ac_RedirectURI d \<and>
    (ac_CodeChallenge d = [] \<or> ac_CodeChallenge d = b64url_encode (sha256 (tr_CodeVerifier req)))"

inductive grant_step :: "OAuthProxyConfig \<Rightarrow> grants \<Rightarrow> grants \<Rightarrow> bool" for c where
  issue: "code_ok c code d \<Longrightarrow>
    grant_step c g (g\<lparr>outstanding := (outstanding g)(code \<mapsto> d), given_out := (code, d) # given_out g\<rparr>)"
| drop: "codes \<subseteq>\<^sub>m outstanding g \<Longrightarrow> grant_step c g (g\<lparr>outstanding := codes\<rparr>)"
| take: "outstanding g (tr_Code req) = Some d \<Longrightarrow> presents c req d \<Longrightarrow>
    grant_step c g (g\<lparr>outstanding := (outstanding g)(tr_Code req := None), taken := (req, d) # taken g\<rparr>)"
| give: "(req, d) \<in> set (taken g) \<Longrightarrow>
    grant_step c g (g\<lparr>taken := remove1 (req, d) (taken g), tokens_for := (req, d, tok) # tokens_for g\<rparr>)"
| give_up: "(req, d) \<in> set (taken g) \<Longrightarrow> grant_step c g (g\<lparr>taken := remove1 (req, d) (taken g)\<rparr>)"

inductive_cases grant_stepE: "grant_step c g g'"

definition grants_of :: "'s world \<Rightarrow> grants" where
  "grants_of w = \<lparr>outstanding = map_of (authCodes (svc w)), taken = exchanging w, given_out = issued w,
     tokens_for = granted w\<rparr>"

lemma grant_skip: "grant_step c g g"
  using grant_step.drop [of "outstanding g" g c] by simp

lemma grant_drop:
  "map_of codes \<subseteq>\<^sub>m outstanding g \<Longrightarrow> g' = g\<lparr>outstanding := map_of codes\<rparr> \<Longrightarrow> grant_step c g g'"
  using grant_step.drop by blast

text \<open>Every step of the service is a step of the protocol, and keeps the configuration.\<close>

lemma world_simulates:
  assumes "wstep w w'"
  shows "grant_step (OAuthProxy (cfg (svc w))) (grants_of w) (grants_of w') \<and> cfg (svc w') = cfg (svc w)"
  using assms
proof cases
  case (authorize req rnd now r s)
  show ?thesis
  proof (cases "\<exists>code. authorize_ok req (OAuthProxy (cfg (svc w))) \<and> GenerateRandomString 32 rnd = Inr code")
    case True
    then obtain code where ok: "authorize_ok req (OAuthProxy (cfg (svc w)))" "GenerateRandomString 32 rnd = Inr code"
      by blast
    define d where "d = code_for req now (OAuthProxy (cfg (svc w)))"
    have "code_ok (OAuthProxy (cfg (svc w))) code d"
      using ok(1) random_code_form [OF ok(2)] by (auto simp: code_ok_def code_for_def authorize_ok_def d_def)
    from grant_step.issue [OF this, of "grants_of w"] show ?thesis
      using authorize ok by (auto simp: IssueAuthCode_ok AddAuthCode_def grants_of_def update_conv' d_def)
  next
    case False
    then have "snd (IssueAuthCode req rnd now (svc w)) = svc w" "\<And>code. fst (IssueAuthCode req rnd now (svc w)) \<noteq> Returns (Inr code)"
      using IssueAuthCode_refused [of req "svc w" rnd now]
      by (cases "authorize_ok req (OAuthProxy (cfg (svc w)))"; force simp: IssueAuthCode_ok split: sum.splits)+
    then have "grants_of w' = grants_of w" "cfg (svc w') = cfg (svc w)"
      using authorize by (auto simp: grants_of_def split: run.splits sum.splits)
    then show ?thesis by (simp add: grant_skip)
  qed
next
  case (begin_exchange req now1 r s)
  show ?thesis
  proof (cases r)
    case (Inl e)
    have "map_of (authCodes s) \<subseteq>\<^sub>m map_of (authCodes (svc w))"
      using exchange_begin_codes [OF begin_exchange(2)] by (auto simp: map_le_def delete_conv' split: if_splits)
    then show ?thesis
      using begin_exchange Inl exchange_begin_frame [OF begin_exchange(2)]
      by (intro conjI grant_drop) (auto simp: grants_of_def)
  next
    case (Inr d)
    then have x: "exchange_begin req now1 (svc w) = (Inr d, s)" using begin_exchange by simp
    have "outstanding (grants_of w) (tr_Code req) = Some d" "presents (OAuthProxy (cfg (svc w))) req d"
      using x [unfolded exchange_begin_Inr]
      by (auto simp: presents_def grants_of_def authenticateClient_iff ValidatePKCE_iff)
    from grant_step.take [OF this] show ?thesis
      using begin_exchange Inr x [unfolded exchange_begin_Inr] by (auto simp: grants_of_def delete_conv')
  qed
next
  case (finish_exchange req d rnd now2 t r s)
  note f = exchange_finish_frame [OF finish_exchange(3)]
  have m: "(req, d) \<in> set (taken (grants_of w))" using finish_exchange by (simp add: grants_of_def)
  show ?thesis
  proof (cases "\<exists>resp. r = Returns (Inr resp)")
    case True
    then show ?thesis
      using grant_step.give [OF m] finish_exchange f by (auto simp: grants_of_def)
  next
    case False
    then have "(case r of Returns (Inr resp) \<Rightarrow> [(req, d, AccessToken resp)] | _ \<Rightarrow> []) = []"
      by (auto split: run.split sum.split)
    then show ?thesis
      using grant_step.give_up [OF m] finish_exchange f by (auto simp: grants_of_def)
  qed
next
  case (sweep_codes nowc)
  have "map_of (purge_codes_loop nowc (authCodes (svc w)) (authCodes (svc w))) \<subseteq>\<^sub>m map_of (authCodes (svc w))"
    unfolding map_le_def
  proof
    fix a assume "a \<in> dom (map_of (purge_codes_loop nowc (authCodes (svc w)) (authCodes (svc w))))"
    then obtain d where "map_of (purge_codes_loop nowc (authCodes (svc w)) (authCodes (svc w))) a = Some d" by blast
    with purge_codes_loop_sub [OF this]
    show "map_of (purge_codes_loop nowc (authCodes (svc w)) (authCodes (svc w))) a = map_of (authCodes (svc w)) a" by simp
  qed
  then show ?thesis using sweep_codes
    by (intro conjI grant_drop [where codes = "authCodes (svc w')"])
      (auto simp: grants_of_def purge_codes_def)
next
  case (sweep_tokens now s changed)
  then have "grants_of w' = grants_of w" "cfg (svc w') = cfg (svc w)"
    by (auto simp: grants_of_def purge_tokens_def split: prod.splits)
  then show ?thesis by (simp add: grant_skip)
next
  case (sync_snapshot n)
  then have "grants_of w' = grants_of w" "cfg (svc w') = cfg (svc w)" by (auto simp: grants_of_def)
  then show ?thesis by (simp add: grant_skip)
next
  case (sync_save m t)
  then have "grants_of w' = grants_of w" "cfg (svc w') = cfg (svc w)" by (auto simp: grants_of_def frame_simps)
  then show ?thesis by (simp add: grant_skip)
next
  case (probe t)
  then have "grants_of w' = grants_of w" "cfg (svc w') = cfg (svc w)" by (auto simp: grants_of_def frame_simps)
  then show ?thesis by (simp add: grant_skip)
qed

lemma run_simulates:
  assumes "wsteps (fresh_world s) w"
  shows "(grant_step (OAuthProxy (cfg s)))\<^sup>*\<^sup>* (grants_of (fresh_world s)) (grants_of w) \<and> cfg (svc w) = cfg s"
  using assms
proof (induction rule: rtranclp_induct)
  case (step v w)
  from world_simulates [OF step(2)] step(3) show ?case by (metis rtranclp.rtrancl_into_rtrancl)
qed (simp add: fresh_world_def)

text \<open>
  C4. The service refines the grant protocol. Every interleaving of the critical sections of
  concurrent requests, sweeps and store writes is, seen through the outstanding codes, the
  exchanges in flight, the codes issued and the tokens granted, a run of the protocol in which
  codes are issued in form, taken at most once by a request that presents them properly, and a
  taken code gives at most one token.
\<close>

theorem service_refines_grants:
  assumes "wsteps (fresh_world s) w" and "authCodes s = []"
  shows "(grant_step (OAuthProxy (cfg s)))\<^sup>*\<^sup>*
    \<lparr>outstanding = Map.empty, taken = [], given_out = [], tokens_for = []\<rparr> (grants_of w)"
  using run_simulates [OF assms(1)] assms(2) by (simp add: grants_of_def fresh_world_def)

subsection \<open>Invariants of the protocol\<close>

text \<open>How often a code occurs in a history.\<close>

definition uses :: "string \<Rightarrow> ('a \<Rightarrow> string) \<Rightarrow> 'a list \<Rightarrow> nat" where
  "uses code f xs = length (filter (\<lambda>x. f x = code) xs)"

lemma uses_simps [simp]:
  "uses code f [] = 0" "uses code f (x # xs) = (if f x = code then 1 else 0) + uses code f xs"
  by (simp_all add: uses_def)

lemma uses_remove1:
  "x \<in> set xs \<Longrightarrow> uses code f (remove1 x xs) + (if f x = code then 1 else 0) = uses code f xs"
  by (induction xs) auto

definition grants_bound :: "OAuthProxyConfig \<Rightarrow> grants \<Rightarrow> bool" where
  "grants_bound c g \<longleftrightarrow>
    (\<forall>(code, d)\<in>set (given_out g). code_ok c code d) \<and>
    (\<forall>code d. outstanding g code = Some d \<longrightarrow> (code, d) \<in> set (given_out g)) \<and>
    (\<forall>(req, d)\<in>set (taken g). presents c req d \<and> (tr_Code req, d) \<in> set (given_out g)) \<and>
    (\<forall>(req, d, tok)\<in>set (tokens_for g). presents c req d \<and> (tr_Code req, d) \<in> set (given_out g))"

lemma grants_bound_step:
  assumes "grant_step c g g'" and "grants_bound c g"
  shows "grants_bound c g'"
  using assms(1)
proof cases
  case (issue code d)
  then show ?thesis using assms(2) by (auto simp: grants_bound_def)
next
  case (drop codes)
  then show ?thesis using assms(2) by (auto simp: grants_bound_def map_le_def dom_def)
next
  case (take req d)
  then show ?thesis using assms(2) by (auto simp: grants_bound_def)
next
  case (give req d tok)
  then show ?thesis using assms(2) by (auto simp: grants_bound_def dest!: set_mp [OF set_remove1_subset])
next
  case (give_up req d)
  then show ?thesis using assms(2) by (auto simp: grants_bound_def dest!: set_mp [OF set_remove1_subset])
qed

text \<open>Tokens given, exchanges in flight and the code itself never exceed the issues of the code.\<close>

definition grants_counted :: "string \<Rightarrow> grants \<Rightarrow> bool" where
  "grants_counted code g \<longleftrightarrow>
    uses code (\<lambda>(req, d, tok). tr_Code req) (tokens_for g) + uses code (\<lambda>(req, d). tr_Code req) (taken g) +
      (if outstanding g code = None then 0 else 1) \<le> uses code fst (given_out g)"

lemma grants_counted_step:
  assumes "grant_step c g g'" and "grants_counted code g"
  shows "grants_counted code g'"
  using assms(1)
proof cases
  case (drop codes)
  then have "outstanding g code = None \<Longrightarrow> codes code = None" by (metis domIff map_le_implies_dom_le subsetD)
  then show ?thesis using assms(2) drop(1)
    by (cases "outstanding g code") (auto simp: grants_counted_def)
next
  case (give req d tok)
  with uses_remove1 [OF give(2), of code "\<lambda>(req, d). tr_Code req"] assms(2)
  show ?thesis by (simp add: grants_counted_def split: if_splits)
next
  case (give_up req d)
  with uses_remove1 [OF give_up(2), of code "\<lambda>(req, d). tr_Code req"] assms(2)
  show ?thesis by (simp add: grants_counted_def split: if_splits)
qed (use assms(2) in \<open>auto simp: grants_counted_def split: if_splits\<close>)

subsection \<open>Reachable worlds\<close>

lemma run_invariant:
  assumes "wsteps (fresh_world s) w" and "authCodes s = []"
  shows "cfg (svc w) = cfg s \<and> grants_bound (OAuthProxy (cfg s)) (grants_of w) \<and> grants_counted code (grants_of w)"
  using assms(1)
proof (induction rule: rtranclp_induct)
  case base
  then show ?case using assms(2)
    by (simp add: fresh_world_def grants_of_def grants_bound_def grants_counted_def)
next
  case (step w w')
  from world_simulates [OF step.hyps(2)] step.IH show ?case
    by (auto intro: grants_bound_step grants_counted_step)
qed

definition token_keys :: "string set \<Rightarrow> 's world \<Rightarrow> bool" where
  "token_keys K w \<longleftrightarrow>
    dom (map_of (accessTokens (svc w))) \<subseteq> K \<union> (\<lambda>(req, d, tok). HashToken tok) ` set (granted w)"

lemma token_keys_sub:
  assumes "token_keys K w" and "dom (map_of (accessTokens (svc w'))) \<subseteq> dom (map_of (accessTokens (svc w)))"
    and "set (granted w) \<subseteq> set (granted w')"
  shows "token_keys K w'"
  unfolding token_keys_def
  by (rule order.trans [OF assms(2)], rule order.trans [OF assms(1) [unfolded token_keys_def]])
    (rule Un_mono [OF subset_refl image_mono [OF assms(3)]])

lemma finish_keys:
  assumes "exchange_finish rnd now2 t s = (r, s')"
  shows "dom (map_of (accessTokens s')) \<subseteq> dom (map_of (accessTokens s)) \<or>
    (\<exists>resp. r = Returns (Inr resp) \<and>
      dom (map_of (accessTokens s')) \<subseteq> insert (HashToken (AccessToken resp)) (dom (map_of (accessTokens s))))"
proof (cases "GenerateRandomString 32 rnd")
  case (Inl e)
  then show ?thesis using assms by (simp add: exchange_finish_def)
next
  case (Inr tok)
  obtain ra sa where a: "AddAccessToken tok (now2 + seconds_duration (cfg_AccessTokenTTL (OAuthProxy (cfg s)))) t s = (ra, sa)"
    by fastforce
  note res = AddAccessToken_result [OF a]
  have s': "accessTokens s' = accessTokens sa" "ra = Inr () \<Longrightarrow> \<exists>resp. r = Returns (Inr resp) \<and> AccessToken resp = tok"
    using assms Inr a by (auto simp: exchange_finish_def frame_simps split: sum.splits)
  show ?thesis
  proof (cases ra)
    case (Inl e)
    have "dom (map_of (AList.delete k (AList.update k v m))) \<subseteq> dom (map_of m)" for k v and m :: tokens
      by (auto simp: delete_conv' update_conv' split: if_splits)
    then show ?thesis using res Inl s'(1) by simp
  next
    case (Inr u)
    then show ?thesis using res s' by (auto simp: update_conv')
  qed
qed

lemma token_keys_step:
  assumes "wstep w w'" and "token_keys K w"
  shows "token_keys K w'"
  using assms(1)
proof cases
  case (authorize req rnd now r s)
  have "accessTokens s = accessTokens (svc w)"
    using IssueAuthCode_frame(4) [of req rnd now "svc w"] authorize(2) by simp
  then show ?thesis by (intro token_keys_sub [OF assms(2)]) (simp_all add: authorize)
next
  case (begin_exchange req now1 r s)
  then show ?thesis
    by (intro token_keys_sub [OF assms(2)]) (simp_all add: exchange_begin_frame [OF begin_exchange(2)])
next
  case (finish_exchange req d rnd now2 t r s)
  from finish_keys [OF finish_exchange(3)] show ?thesis
  proof
    assume "dom (map_of (accessTokens s)) \<subseteq> dom (map_of (accessTokens (svc w)))"
    then show ?thesis by (intro token_keys_sub [OF assms(2)]) (auto simp: finish_exchange(1))
  next
    assume "\<exists>resp. r = Returns (Inr resp) \<and>
      dom (map_of (accessTokens s)) \<subseteq> insert (HashToken (AccessToken resp)) (dom (map_of (accessTokens (svc w))))"
    then obtain resp where "r = Returns (Inr resp)"
      "dom (map_of (accessTokens s)) \<subseteq> insert (HashToken (AccessToken resp)) (dom (map_of (accessTokens (svc w))))" by blast
    then show ?thesis using assms(2) by (auto simp: token_keys_def finish_exchange(1))
  qed
next
  case (sweep_codes nowc)
  then show ?thesis by (intro token_keys_sub [OF assms(2)]) (simp_all add: purge_codes_def)
next
  case (sweep_tokens now s changed)
  obtain m ch where l: "purge_tokens_loop (f64_of_int now) (accessTokens (svc w)) (accessTokens (svc w)) False = (m, ch)"
    by fastforce
  then have "accessTokens s = m" using sweep_tokens(2) by (simp add: purge_tokens_def) auto
  then show ?thesis using purge_tokens_loop_keys [OF l]
    by (intro token_keys_sub [OF assms(2)]) (simp_all add: sweep_tokens(1) dom_map_of_conv_image_fst)
qed (intro token_keys_sub [OF assms(2)]; simp add: frame_simps)+

text \<open>
  C2. One code, one token. However requests, sweeps and store writes interleave, the number of
  tokens granted on a code never exceeds the number of times the code was issued: two parallel
  exchanges of the same code cannot both get a token.
\<close>

theorem tokens_per_code:
  assumes "wsteps (fresh_world s) w" and "authCodes s = []"
  shows "uses code (\<lambda>(req, d, tok). tr_Code req) (granted w) \<le> uses code fst (issued w)"
  using run_invariant [OF assms, of code] by (simp add: grants_counted_def grants_of_def)

text \<open>
  C3. Where an accepted token comes from. In every reachable world, a token the service accepts
  either was in the table it started with, or has the SHA-256 digest of a token it granted; and
  the request it was granted to presented an issued code under the client id of the
  configuration, with the redirect URI the code was issued for (an allowed one) and with a
  verifier whose digest is the challenge, where there is one and always if PKCE is mandatory.
\<close>

theorem accepted_token_origin:
  assumes "wsteps (fresh_world s) w" and "authCodes s = []" and "ValidateAccessToken tok n (svc w)"
  shows "map_of (accessTokens s) (HashToken tok) \<noteq> None \<or>
    (\<exists>(req, d, tok')\<in>set (granted w). sha256 tok' = sha256 tok \<and> (tr_Code req, d) \<in> set (issued w) \<and>
      tr_ClientID req = cfg_ClientID (OAuthProxy (cfg s)) \<and> tr_RedirectURI req = ac_RedirectURI d \<and>
      IsAllowedRedirect (ac_RedirectURI d) \<and>
      (if ac_CodeChallenge d = [] then \<not> cfg_MandatoryPKCE (OAuthProxy (cfg s))
       else ac_CodeChallenge d = b64url_encode (sha256 (tr_CodeVerifier req))))"
proof -
  have "token_keys (dom (map_of (accessTokens s))) w"
    using assms(1)
  proof (induction rule: rtranclp_induct)
    case base
    then show ?case by (simp add: token_keys_def fresh_world_def)
  next
    case (step w w')
    then show ?case using token_keys_step by blast
  qed
  moreover have "HashToken tok \<in> dom (map_of (accessTokens (svc w)))"
    using assms(3) by (auto simp: ValidateAccessToken_def split: option.splits)
  ultimately have "HashToken tok \<in> dom (map_of (accessTokens s)) \<union> (\<lambda>(req, d, tok). HashToken tok) ` set (granted w)"
    unfolding token_keys_def by (rule subsetD)
  then consider "HashToken tok \<in> dom (map_of (accessTokens s))"
    | req d tok' where "(req, d, tok') \<in> set (granted w)" "HashToken tok = HashToken tok'"
    by auto
  then show ?thesis
  proof cases
    case 1
    then show ?thesis by auto
  next
    case 2
    have b: "grants_bound (OAuthProxy (cfg s)) (grants_of w)" using run_invariant [OF assms(1,2)] by blast
    then have p: "presents (OAuthProxy (cfg s)) req d" "(tr_Code req, d) \<in> set (issued w)"
      using 2(1) by (auto simp: grants_bound_def grants_of_def)
    moreover have "code_ok (OAuthProxy (cfg s)) (tr_Code req) d"
      using b p(2) by (auto simp: grants_bound_def grants_of_def)
    moreover have "sha256 tok' = sha256 tok" using 2(2) by (simp add: HashToken_eq_iff)
    ultimately show ?thesis using 2(1)
      by (intro disjI2 bexI [of _ "(req, d, tok')"]) (auto simp: presents_def code_ok_def)
  qed
qed

subsection \<open>A sweep that races with an exchange\<close>

text \<open>One token in the table, which expires at second 500.\<close>

definition stale_service :: "list_db Service" where
  "stale_service = sample_service\<lparr>authCodes := [], accessTokens := [(''old'', 500)]\<rparr>"

definition race_request :: TokenExchangeRequest where
  "race_request = sample_exchange\<lparr>tr_Code := sample_token\<rparr>"

definition race_code :: AuthCode where
  "race_code = code_for sample_authorize 0 sample_oauth"

definition granted_tokens :: tokens where
  "granted_tokens = [(HashToken sample_token, 87400)]"

lemma stale_simps [simp]:
  "cfg stale_service = sample_config" "store stale_service = SQLite_Store list_engine"
  "store_state stale_service = one_row" "authCodes stale_service = []" "accessTokens stale_service = [(''old'', 500)]"
  by (simp_all add: stale_service_def)

text \<open>The code is issued and consumed, then a sweep drops the old token and takes its snapshot.\<close>

definition race_world :: "list_db world" where
  "race_world = \<lparr>svc = stale_service\<lparr>accessTokens := []\<rparr>, exchanging = [(race_request, race_code)],
     unsynced = 0, syncing = [[]], issued = [(sample_token, race_code)], granted = []\<rparr>"

lemma f64_500: "f64_of_int 1000 = 1000"
  using f64_of_int_exact [of 1000] by simp

lemma race_begins: "wsteps (fresh_world stale_service) race_world"
proof -
  define w1 where "w1 = \<lparr>svc = stale_service\<lparr>authCodes := [(sample_token, race_code)]\<rparr>, exchanging = [],
     unsynced = 0, syncing = [], issued = [(sample_token, race_code)], granted = []\<rparr>"
  define w2 where "w2 = \<lparr>svc = stale_service, exchanging = [(race_request, race_code)],
     unsynced = 0, syncing = [], issued = [(sample_token, race_code)], granted = []\<rparr>"
  define w3 where "w3 = w2\<lparr>svc := stale_service\<lparr>accessTokens := []\<rparr>, unsynced := 1\<rparr>"
  have "IssueAuthCode sample_authorize sample_random 0 (svc (fresh_world stale_service)) =
      (Returns (Inr sample_token), svc w1)"
    by (simp add: IssueAuthCode_ok fresh_world_def sample_authorized AddAuthCode_def w1_def race_code_def)
  from wstep.authorize [OF this] have s1: "wstep (fresh_world stale_service) w1"
    by (simp add: fresh_world_def w1_def race_code_def)
  have "exchange_begin race_request 0 (svc w1) = (Inr race_code, svc w2)"
    by (simp add: exchange_begin_Inr w1_def w2_def race_request_def race_code_def code_for_def sample_exchange_def
        sample_oauth_def sample_authorize_def seconds_duration_exact second_def stale_service_def)
  from wstep.begin_exchange [OF this] have s2: "wstep w1 w2" by (simp add: w1_def w2_def)
  have "purge_tokens 1000 (svc w2) = (svc w3, True)"
    by (simp add: purge_tokens_def w2_def w3_def f64_500)
  from wstep.sweep_tokens [OF this] have s3: "wstep w2 w3" by (simp add: w2_def w3_def)
  have "unsynced w3 = Suc 0" by (simp add: w3_def)
  from wstep.sync_snapshot [OF this] have s4: "wstep w3 race_world"
    by (simp add: w3_def w2_def race_world_def)
  show ?thesis using s1 s2 s3 s4 by (meson converse_rtranclp_into_rtranclp rtranclp.rtrancl_refl)
qed

lemma race_exchange:
  "\<exists>s. exchange_finish sample_random (1000 * second) 1000 (svc race_world) =
      (Returns (Inr \<lparr>AccessToken = sample_token, TokenType = ''Bearer'', ExpiresIn = 86400, Scope = ''mcp''\<rparr>), s) \<and>
    accessTokens s = granted_tokens \<and> cfg s = sample_config \<and> store s = SQLite_Store list_engine \<and>
    ld_faults (store_state s) = []"
proof -
  have v: "f64_of_int (Unix (1000 * second + seconds_duration 86400)) = 87400"
    by (simp add: seconds_duration_exact Unix_add_seconds) (subst f64_of_int_exact, simp_all add: Unix_def second_def)
  obtain db' where sv: "SQLiteStore_Save list_engine 1000 granted_tokens one_row = (Inr (), db')" "ld_faults db' = []"
    by (simp add: SQLiteStore_Save_def list_engine_def ld_step_def ld_call_def one_row_def f64_to_int64_def
        granted_tokens_def)
  have "cfg_AccessTokenTTL sample_oauth = 86400" by (simp add: sample_oauth_def)
  then show ?thesis using v sv
    by (simp add: exchange_finish_def AddAccessToken_def race_world_def Let_def SQLite_Store_def
        granted_tokens_def frame_simps)
qed

lemma race_granted:
  "\<exists>w. wsteps (fresh_world stale_service) w \<and> granted w = [(race_request, race_code, sample_token)] \<and>
    issued w = [(sample_token, race_code)] \<and> exchanging w = [] \<and> unsynced w = 0 \<and> syncing w = [[]] \<and>
    accessTokens (svc w) = granted_tokens \<and> cfg (svc w) = sample_config \<and>
    store (svc w) = SQLite_Store list_engine \<and> ld_faults (store_state (svc w)) = []"
proof -
  obtain s where fin: "exchange_finish sample_random (1000 * second) 1000 (svc race_world) =
      (Returns (Inr \<lparr>AccessToken = sample_token, TokenType = ''Bearer'', ExpiresIn = 86400, Scope = ''mcp''\<rparr>), s)"
    and s: "accessTokens s = granted_tokens" "cfg s = sample_config" "store s = SQLite_Store list_engine"
      "ld_faults (store_state s) = []"
    using race_exchange by blast
  have "(race_request, race_code) \<in> set (exchanging race_world)" by (simp add: race_world_def)
  from wstep.finish_exchange [OF this fin] race_begins have "wsteps (fresh_world stale_service)
      (race_world\<lparr>svc := s, exchanging := [], granted := [(race_request, race_code, sample_token)]\<rparr>)"
    by (simp add: race_world_def)
  with s show ?thesis by (intro exI conjI) (assumption, simp_all add: race_world_def)
qed

text \<open>
  C22. A sweep can lose a token. The store write at the end of a sweep uses a snapshot taken
  under the lock but runs after its release. If a token is granted in between, the write puts
  the older table back: the client holds a token the service accepts, the store does not have
  it, and a restart rejects it.
\<close>

theorem stale_sync_loses_token:
  "\<exists>w req d tok s' w'. wsteps (fresh_world stale_service) w \<and> (req, d, tok) \<in> set (granted w) \<and>
    syncing w = [] \<and> unsynced w = 0 \<and> exchanging w = [] \<and>
    ValidateAccessToken tok 2000 (svc w) \<and>
    NewService (cfg (svc w)) (store (svc w)) (store_state (svc w)) (audit (svc w)) (observed (svc w)) 2000 = (Inr s', w') \<and>
    \<not> ValidateAccessToken tok 2000 s'"
proof -
  obtain w5 where w5: "wsteps (fresh_world stale_service) w5" "granted w5 = [(race_request, race_code, sample_token)]"
      "exchanging w5 = []" "unsynced w5 = 0" "syncing w5 = [[]]" "accessTokens (svc w5) = granted_tokens"
      "cfg (svc w5) = sample_config" "store (svc w5) = SQLite_Store list_engine" "ld_faults (store_state (svc w5)) = []"
    using race_granted by blast
  define w6 where "w6 = w5\<lparr>svc := syncTokens_save [] 1001 (svc w5), syncing := []\<rparr>"
  have "[] \<in> set (syncing w5)" by (simp add: w5)
  from wstep.sync_save [OF this, of 1001] have "wstep w5 w6" by (simp add: w6_def w5)
  with w5(1) have run: "wsteps (fresh_world stale_service) w6" by (rule rtranclp.rtrancl_into_rtrancl)
  obtain db where db: "store_state (svc w6) = db" "ld_table db = []" "ld_faults db = []"
    using w5 by (simp add: w6_def syncTokens_save_def SQLite_Store_def SQLiteStore_Save_def list_engine_def
        ld_step_def ld_call_def)
  have st: "store (svc w6) = SQLite_Store list_engine" "cfg (svc w6) = sample_config" "accessTokens (svc w6) = granted_tokens"
    using w5 by (simp_all add: w6_def frame_simps)
  have "st_Load (SQLite_Store list_engine) 2000 db = (Inr [], db)"
    using db by (simp add: SQLite_Store_def SQLiteStore_Load_def list_engine_def ld_call_def)
  from sample_NewService [OF _ this, of sample_config "audit (svc w6)" "observed (svc w6)"]
  obtain s' where new: "NewService sample_config (SQLite_Store list_engine) db (audit (svc w6)) (observed (svc w6)) 2000 =
      (Inr s', db)" "accessTokens s' = []"
    by (auto simp: sample_config_def sample_oauth_def)
  have "ValidateAccessToken sample_token 2000 (svc w6)"
    using st f64_of_int_exact [of 2000] by (simp add: ValidateAccessToken_def granted_tokens_def)
  moreover have "\<not> ValidateAccessToken sample_token 2000 s'" using new by (simp add: ValidateAccessToken_def)
  ultimately show ?thesis using run new st db
    by (intro exI [of _ w6] exI [of _ race_request] exI [of _ race_code] exI [of _ sample_token] exI [of _ s'] exI [of _ db])
      (simp add: w6_def w5)
qed

lemma tokens_per_code_witness:
  "\<exists>w. wsteps (fresh_world stale_service) w \<and> uses sample_token (\<lambda>(req, d, tok). tr_Code req) (granted w) = 1 \<and>
    1 \<le> uses sample_token fst (issued w)"
proof -
  obtain w where w: "wsteps (fresh_world stale_service) w" "granted w = [(race_request, race_code, sample_token)]"
    using race_granted by blast
  from tokens_per_code [OF w(1), of sample_token] w show ?thesis by (auto simp: race_request_def)
qed

lemma accepted_token_origin_witness:
  "\<exists>w. wsteps (fresh_world stale_service) w \<and> ValidateAccessToken sample_token 2000 (svc w) \<and>
    (map_of [(''old'', 500 :: f64)] (HashToken sample_token) \<noteq> None \<or>
      (\<exists>(req, d, tok')\<in>set (granted w). sha256 tok' = sha256 sample_token \<and> IsAllowedRedirect (ac_RedirectURI d)))"
proof -
  obtain w where w: "wsteps (fresh_world stale_service) w" "accessTokens (svc w) = granted_tokens"
    using race_granted by blast
  have v: "ValidateAccessToken sample_token 2000 (svc w)"
    using w(2) f64_of_int_exact [of 2000] by (simp add: ValidateAccessToken_def granted_tokens_def)
  from accepted_token_origin [OF w(1) _ v] w(1) v show ?thesis by fastforce
qed


lemma service_refines_grants_witness:
  "\<exists>w :: list_db world. (grant_step sample_oauth)\<^sup>*\<^sup>*
      \<lparr>outstanding = Map.empty, taken = [], given_out = [], tokens_for = []\<rparr> (grants_of w) \<and>
    tokens_for (grants_of w) = [(race_request, race_code, sample_token)]"
proof -
  obtain w where w: "wsteps (fresh_world stale_service) w" "granted w = [(race_request, race_code, sample_token)]"
    using race_granted by blast
  have "authCodes stale_service = []" by (simp add: stale_service_def)
  moreover have "OAuthProxy (cfg stale_service) = sample_oauth"
    by (simp add: stale_service_def sample_service_def sample_config_def)
  ultimately have "(grant_step sample_oauth)\<^sup>*\<^sup>*
      \<lparr>outstanding = Map.empty, taken = [], given_out = [], tokens_for = []\<rparr> (grants_of w)"
    using service_refines_grants [OF w(1)] by metis
  moreover have "tokens_for (grants_of w) = [(race_request, race_code, sample_token)]"
    by (simp add: grants_of_def w(2))
  ultimately show ?thesis by blast
qed

end
