(* ===== verification/GoForm.thy ===== *)
theory GoForm
  imports GoHTTP GoJSONCodec
begin

text \<open>
  What the handlers use of Go's library beyond a request and a response: \<^verbatim>\<open>mime.ParseMediaType\<close>
  and \<^verbatim>\<open>Request.ParseForm\<close> / \<^verbatim>\<open>FormValue\<close>, and \<^verbatim>\<open>json.Encoder.Encode\<close> onto a response.

  Only whether a media type parses, and which one it is, matters to the program: the parameters
  are checked and dropped.
\<close>

subsection \<open>Media types\<close>

definition token_char :: "char \<Rightarrow> bool" where
  "token_char c \<longleftrightarrow> 0x21 \<le> ord_of c \<and> ord_of c < 0x7F \<and> c \<notin> set (''()<>@,;:/[]?='' @ [CHR 0x5C, CHR 0x22])"

definition tspecial :: "char \<Rightarrow> bool" where
  "tspecial c \<longleftrightarrow> c \<in> set (''()<>@,;:/[]?='' @ [CHR 0x5C, CHR 0x22])"

definition consume_token :: "string \<Rightarrow> string \<times> string" where
  "consume_token v = (takeWhile token_char v, dropWhile token_char v)"

definition trim_left_space :: "string \<Rightarrow> string" where
  "trim_left_space v = trim_left_of space_encodings v"

definition check_media_type :: "string \<Rightarrow> bool" where
  "check_media_type s \<longleftrightarrow>
    (let (typ, rest) = consume_token s in
     typ \<noteq> [] \<and>
     (rest = [] \<or>
       hd rest = CHR ''/'' \<and>
       (let (subtype, rest') = consume_token (tl rest) in subtype \<noteq> [] \<and> rest' = [])))"

text \<open>The rest of a quoted string, after the opening quote: its value and what follows it.\<close>

fun consume_quoted :: "string \<Rightarrow> string \<Rightarrow> (string \<times> string) option" where
  "consume_quoted acc [] = None"
| "consume_quoted acc (c # cs) =
    (if c = CHR 0x22 then Some (acc, cs)
     else if c = CHR 0x5C \<and> cs \<noteq> [] \<and> tspecial (hd cs) then consume_quoted (acc @ [hd cs]) (tl cs)
     else if c = CHR 0x0D \<or> c = CHR 0x0A then None
     else consume_quoted (acc @ [c]) cs)"

definition consume_value :: "string \<Rightarrow> string \<times> string" where
  "consume_value v =
    (if v = [] then ([], v)
     else if hd v \<noteq> CHR 0x22 then consume_token v
     else (case consume_quoted [] (tl v) of None \<Rightarrow> ([], v) | Some r \<Rightarrow> r))"

definition consume_param :: "string \<Rightarrow> (string \<times> string \<times> string) option" where
  "consume_param v =
    (let r0 = trim_left_space v in
     if r0 = [] \<or> hd r0 \<noteq> CHR '';'' then None
     else (let (param, r1) = consume_token (trim_left_space (tl r0)); key = map lower_byte param;
               r2 = trim_left_space r1 in
       if key = [] then None
       else if r2 = [] \<or> hd r2 \<noteq> CHR ''='' then None
       else (let r3 = trim_left_space (tl r2); (val, r4) = consume_value r3 in
         if val = [] \<and> r4 = r3 then None else Some (key, val, r4))))"

text \<open>
  The parameters, each of which shortens the text (the fuel is its length); repeated ones must
  agree. A text that is no parameter is accepted only as a trailing semicolon.
\<close>

fun media_params :: "nat \<Rightarrow> string \<Rightarrow> (string \<times> string) list \<Rightarrow> bool" where
  "media_params 0 v seen = (trim_left_space v = [])"
| "media_params (Suc n) v seen =
    (let v' = trim_left_space v in
     if v' = [] then True
     else case consume_param v' of
       None \<Rightarrow> trim_space v' = '';''
     | Some (key, val, rest) \<Rightarrow>
         (case map_of seen key of
            Some w \<Rightarrow> if w \<noteq> val then False else media_params n rest seen
          | None \<Rightarrow> media_params n rest ((key, val) # seen)))"

definition parse_media_type :: "string \<Rightarrow> string option" where
  "parse_media_type v =
    (let base = fst (cut_at CHR '';'' v); mt = trim_space (to_lower base); rest = drop (length base) v in
     if check_media_type mt \<and> media_params (length rest) rest [] then Some mt else None)"

subsection \<open>Forms\<close>

definition max_form_size :: nat where
  "max_form_size = 10 * 1024 * 1024"

text \<open>The pairs of the body of a POST, and whether an error was met.\<close>

definition parse_post_form :: "request \<Rightarrow> url_values \<times> bool" where
  "parse_post_form r =
    (let ct = header_get (Header r) ''Content-Type'' in
     case parse_media_type (if ct = [] then ''application/octet-stream'' else ct) of
       None \<Rightarrow> ([], True)
     | Some mt \<Rightarrow>
         if mt \<noteq> ''application/x-www-form-urlencoded'' then ([], False)
         else (case Body r of
             Inl e \<Rightarrow> ([], True)
           | Inr b \<Rightarrow> if length b > max_form_size then ([], True) else parse_query b))"

text \<open>
  \<^verbatim>\<open>ParseForm\<close> of a POST request: \<^term>\<open>None\<close> is an error. The pairs of the body come before
  those of the query, so the first value of a key is the body's.
\<close>

definition ParseForm :: "request \<Rightarrow> url_values option" where
  "ParseForm r =
    (let (post, e1) = parse_post_form r; (query, e2) = parse_query (URL_RawQuery r) in
     if e1 \<or> e2 then None else Some (post @ query))"

definition FormValue :: "url_values \<Rightarrow> string \<Rightarrow> string" where
  "FormValue form key = values_get form key"

subsection \<open>JSON replies\<close>

text \<open>A Go map with string keys: its members are printed in the order of the keys.\<close>

definition json_map :: "(string, json) gomap \<Rightarrow> json" where
  "json_map m = JObj (sort_key fst m)"

definition encode_reply :: "json \<Rightarrow> response \<Rightarrow> response" where
  "encode_reply v w = Write (json_encode v @ [CHR 0x0A]) w"

declare token_char_def [go_defs] tspecial_def [go_defs] consume_token_def [go_defs]
  trim_left_space_def [go_defs] check_media_type_def [go_defs] consume_value_def [go_defs]
  consume_param_def [go_defs] parse_media_type_def [go_defs] parse_post_form_def [go_defs]
  ParseForm_def [go_defs] FormValue_def [go_defs] json_map_def [go_defs] encode_reply_def [go_defs]

lemma form_media_type:
  "parse_media_type ''application/x-www-form-urlencoded'' = Some ''application/x-www-form-urlencoded''"
  by code_simp

lemma media_type_examples:
  "parse_media_type ''Text/HTML; Charset=UTF-8'' = Some ''text/html''"
  "parse_media_type ''text/html;'' = Some ''text/html''"
  "parse_media_type ''text/html; a=1; a=2'' = None"
  "parse_media_type ''text'' = Some ''text''" "parse_media_type ''text/'' = None"
  by code_simp+

end
