(* ===== verification/Handlers.thy ===== *)
theory Handlers
  imports ServiceFacts GoForm
begin

text \<open>
  \<^verbatim>\<open>internal/oauthproxy/handlers.go\<close>: the HTTP handlers of the OAuth endpoints. A handler takes
  the readings of the clock and of \<^verbatim>\<open>crypto/rand\<close> it may make, the request and the service, and
  returns the response and the service; where the random source can panic, the response is a
  \<^typ>\<open>'a run\<close>. The response passed in carries the headers the middleware has set.

  A body that cannot be read to its end counts as one that does not decode.
\<close>

text \<open>The time stamp of the audit line, two readings of \<^verbatim>\<open>time.Now()\<close>, and the store's reading.\<close>

record readings =
  rd_stamp :: string
  rd_now1 :: int
  rd_now2 :: int
  rd_store :: int
  rd_random :: "string result"

definition auditLog :: "string \<Rightarrow> request \<Rightarrow> string \<Rightarrow> (string, aval) gomap \<Rightarrow> 's Service \<Rightarrow> 's Service" where
  "auditLog stamp r event flds s =
    (let flds1 = AList.update ''request_id'' (AStr (GetRequestID (Context r))) flds;
         clientID = GetClientRequestID (Context r);
         flds2 = (if clientID \<noteq> [] then AList.update ''client_request_id'' (AStr clientID) flds1 else flds1);
         info = GetRequestInfo r (cfg_TrustedProxies (OAuthProxy (cfg s)))
     in s\<lparr>observed := LogWithIP (audit s) stamp event (SourceIP info) (Some r) flds2 (observed s)\<rparr>)"

definition oauthCoreConfig :: "'s Service \<Rightarrow> CoreConfig" where
  "oauthCoreConfig s =
    (let base = cfg_ProxyBaseURL (OAuthProxy (cfg s)) in
     \<lparr>Issuer = base, Resource = mcpServiceURL base, ScopesSupported = [mcpScope]\<rparr>)"

definition method_not_allowed :: "string \<Rightarrow> response \<Rightarrow> response" where
  "method_not_allowed allow w = http_Error ''Method Not Allowed'' 405 (set_header ''Allow'' allow w)"

definition HandleMetadata :: "readings \<Rightarrow> request \<Rightarrow> response \<Rightarrow> 's Service \<Rightarrow> response \<times> 's Service" where
  "HandleMetadata rd r w s =
    (if Method r \<noteq> ''GET'' then (method_not_allowed ''GET'' w, s)
     else (let s1 = auditLog (rd_stamp rd) r ''metadata_served'' [] s;
               data = AuthorizationServerMetadata (oauthCoreConfig s1)
           in (encode_reply (json_map data) (set_header ''Content-Type'' ''application/json'' w), s1)))"

definition HandleProtectedResourceMetadata ::
    "readings \<Rightarrow> request \<Rightarrow> response \<Rightarrow> 's Service \<Rightarrow> response \<times> 's Service" where
  "HandleProtectedResourceMetadata rd r w s =
    (if Method r \<noteq> ''GET'' then (method_not_allowed ''GET'' w, s)
     else (let s1 = auditLog (rd_stamp rd) r ''resource_metadata_served'' [] s;
               data = ProtectedResourceMetadata (oauthCoreConfig s1)
           in (encode_reply (json_map data) (set_header ''Content-Type'' ''application/json'' w), s1)))"

definition HandleRegister :: "readings \<Rightarrow> request \<Rightarrow> response \<Rightarrow> 's Service \<Rightarrow> response \<times> 's Service" where
  "HandleRegister rd r w s =
    (if Method r \<noteq> ''POST'' then (method_not_allowed ''POST'' w, s)
     else case (case Body r of Inl e \<Rightarrow> None | Inr b \<Rightarrow> Option.bind (json_parse_first b) decode_registration) of
       None \<Rightarrow> (http_Error ''invalid_request'' 400 w, s)
     | Some req \<Rightarrow>
         (case RegisterClient req (Unix (rd_now1 rd)) s of
            Inl e \<Rightarrow>
              (let s1 = auditLog (rd_stamp rd) r ''register_rejected'' [(''reason'', AStr e)] s
               in (encode_reply (json_map [(''error'', JStr ''invalid_redirect_uri'')])
                     (WriteHeader 400 (set_header ''Content-Type'' ''application/json'' w)), s1))
          | Inr resp \<Rightarrow>
              (let s1 = auditLog (rd_stamp rd) r ''client_registered''
                     [(''redirect_uris'', AStrings (rr_RedirectURIs req))] s
               in (encode_reply (registration_response_json resp)
                     (WriteHeader 201 (set_header ''Content-Type'' ''application/json'' w)), s1))))"

definition error_params :: "string \<Rightarrow> string \<Rightarrow> string \<Rightarrow> url_values" where
  "error_params rfcErr rfcDesc state' =
    [(''error'', rfcErr)] @ (if rfcDesc \<noteq> [] then [(''error_description'', rfcDesc)] else [])
      @ (if state' \<noteq> [] then [(''state'', state')] else [])"

definition HandleAuthorize ::
    "readings \<Rightarrow> request \<Rightarrow> response \<Rightarrow> 's Service \<Rightarrow> response run \<times> 's Service" where
  "HandleAuthorize rd r w s =
    (if Method r \<noteq> ''GET'' then (Returns (method_not_allowed ''GET'' w), s)
     else
      (let o' = OAuthProxy (cfg s);
           info = GetRequestInfo r (cfg_TrustedProxies o');
           q = fst (parse_query (URL_RawQuery r)) in
       if \<not> IsIPAllowed (SourceIP info) (cfg_TrustedAuthorizeCIDRs o') then
         (Returns (http_Error ''Forbidden'' 403 w),
          auditLog (rd_stamp rd) r ''authorize_forbidden''
            [(''reason'', AStr ''ip_not_allowed''), (''src_ip'', AStr (SourceIP info)),
             (''client_id'', AStr (values_get q ''client_id''))] s)
       else
        (let redirectURI = values_get q ''redirect_uri'';
             clientID = values_get q ''client_id'';
             state' = values_get q ''state'' in
         if \<not> IsAllowedRedirect redirectURI then
           (Returns (http_Error ''invalid_redirect_uri'' 400 w),
            auditLog (rd_stamp rd) r ''authorize_rejected'' [(''reason'', AStr ''invalid_redirect_uri'')] s)
         else if constant_time_compare clientID (cfg_ClientID o') \<noteq> 1 then
           (Returns (http_Error ''unauthorized_client'' 401 w),
            auditLog (rd_stamp rd) r ''authorize_rejected'' [(''reason'', AStr ''unauthorized_client'')] s)
         else
          (let req = \<lparr>ar_ResponseType = values_get q ''response_type'', ar_ClientID = clientID,
                 ar_RedirectURI = redirectURI, ar_State = state',
                 ar_CodeChallenge = values_get q ''code_challenge'',
                 ar_CodeChallengeMethod = values_get q ''code_challenge_method''\<rparr> in
           case IssueAuthCode req (rd_random rd) (rd_now1 rd) s of
             (Panics e, s1) \<Rightarrow> (Panics e, s1)
           | (Returns (Inl err), s1) \<Rightarrow>
               (let s2 = auditLog (rd_stamp rd) r ''authorize_rejected'' [(''reason'', AStr err)] s1;
                    (rfcErr, rfcDesc) = MapAuthorizeError err;
                    params = error_params rfcErr rfcDesc state'
                in (Returns (http_Redirect (redirectURI @ ''?'' @ values_encode params) 302 w), s2))
           | (Returns (Inr code), s1) \<Rightarrow>
               (let params = [(''code'', code)] @ (if state' \<noteq> [] then [(''state'', state')] else []);
                    s2 = auditLog (rd_stamp rd) r ''authorize_approved''
                      [(''redirect_uri'', AStr (ar_RedirectURI req)), (''pkce'', ABool (ar_CodeChallenge req \<noteq> []))] s1
                in (Returns (http_Redirect (ar_RedirectURI req @ ''?'' @ values_encode params) 302 w), s2))))))"

definition writeTokenError :: "string \<Rightarrow> string \<Rightarrow> nat \<Rightarrow> response \<Rightarrow> response" where
  "writeTokenError errCode desc code w =
    encode_reply (json_map ([(''error'', JStr errCode)] @
        (if desc \<noteq> [] then [(''error_description'', JStr desc)] else [])))
      (WriteHeader code (set_header ''Content-Type'' ''application/json'' w))"

definition count_token_rejected :: "'s Service \<Rightarrow> 's Service" where
  "count_token_rejected s =
    s\<lparr>observed := (observed s)\<lparr>metrics := (metrics (observed s))
        \<lparr>TokensRejectedTotal := Inc (TokensRejectedTotal (metrics (observed s)))\<rparr>\<rparr>\<rparr>"

definition HandleToken ::
    "readings \<Rightarrow> request \<Rightarrow> response \<Rightarrow> 's Service \<Rightarrow> response run \<times> 's Service" where
  "HandleToken rd r w s =
    (if Method r \<noteq> ''POST'' then (Returns (method_not_allowed ''POST'' w), s)
     else case ParseForm r of
       None \<Rightarrow> (Returns (writeTokenError ''invalid_request'' ''invalid form data'' 400 w), s)
     | Some form \<Rightarrow>
         (let req = \<lparr>tr_GrantType = FormValue form ''grant_type'', tr_ClientID = FormValue form ''client_id'',
                tr_ClientSecret = FormValue form ''client_secret'', tr_RedirectURI = FormValue form ''redirect_uri'',
                tr_Code = FormValue form ''code'', tr_CodeVerifier = FormValue form ''code_verifier''\<rparr> in
          case ExchangeToken req (rd_random rd) (rd_now1 rd) (rd_now2 rd) (rd_store rd) s of
            (Panics e, s1) \<Rightarrow> (Panics e, s1)
          | (Returns (Inl err), s1) \<Rightarrow>
              (let s2 = count_token_rejected (auditLog (rd_stamp rd) r ''token_rejected'' [(''reason'', AStr err)] s1);
                   (rfcErr, code) = MapTokenError err
               in (Returns (writeTokenError rfcErr [] code w), s2))
          | (Returns (Inr resp), s1) \<Rightarrow>
              (let s2 = auditLog (rd_stamp rd) r ''token_issued'' [(''pkce'', ABool (tr_CodeVerifier req \<noteq> []))] s1
               in (Returns (encode_reply (token_response_json resp)
                     (set_header ''Content-Type'' ''application/json'' w)), s2))))"

definition wwwAuthenticateHeader :: "'s Service \<Rightarrow> string" where
  "wwwAuthenticateHeader s =
    (let base = cfg_ProxyBaseURL (OAuthProxy (cfg s)) in
     ''Bearer realm='' @ [CHR 0x22] @ base @ [CHR 0x22] @ '', resource_metadata='' @ [CHR 0x22] @ base @
       ''/.well-known/oauth-protected-resource'' @ [CHR 0x22])"

definition unauthorized :: "string \<Rightarrow> response \<Rightarrow> 's Service \<Rightarrow> response" where
  "unauthorized detail w s =
    encode_reply (json_map [(''error'', JStr ''unauthorized''), (''error_description'', JStr detail)])
      (WriteHeader 401
        (set_header ''Content-Type'' ''application/json''
          (set_header ''Www-Authenticate'' (wwwAuthenticateHeader s) w)))"

declare auditLog_def [model_defs] oauthCoreConfig_def [model_defs] HandleMetadata_def [model_defs]
  HandleProtectedResourceMetadata_def [model_defs] HandleRegister_def [model_defs]
  HandleAuthorize_def [model_defs] HandleToken_def [model_defs] writeTokenError_def [model_defs]
  wwwAuthenticateHeader_def [model_defs] unauthorized_def [model_defs]

end
