(* ===== verification/Proxy.thy ===== *)
theory Proxy
  imports Handlers GoPath
begin

text \<open>
  \<^verbatim>\<open>internal/oauthproxy/proxy.go\<close>: the reverse proxy in front of the MCP backend, the gate of the
  anonymous mode and the filter of its tool lists.

  The backend, reached through \<^verbatim>\<open>http.Transport\<close>, is the parameter \<open>backend\<close>: any function from
  the request sent to a response or an error. \<^verbatim>\<open>httputil.ReverseProxy\<close> is modelled up to that
  call and after it: hop-by-hop headers, \<^verbatim>\<open>Director\<close>, \<^verbatim>\<open>ModifyResponse\<close>, \<^verbatim>\<open>ErrorHandler\<close>, the copy of
  headers and body; a failure in the middle of the body aborts the connection with a panic.
  Interim (1xx) responses and trailers are not in the model.
\<close>

definition anonymousInspectionLimitBytes :: nat where
  "anonymousInspectionLimitBytes = 1024 * 1024"

definition appendSubPath :: "ctx \<Rightarrow> string \<Rightarrow> ctx" where
  "appendSubPath ctx subPath = WithValue ctx subPathContextKey (CtxString subPath)"

definition context_string :: "ctx \<Rightarrow> contextKey \<Rightarrow> string" where
  "context_string ctx k = (case map_of ctx k of Some (CtxString p) \<Rightarrow> p | _ \<Rightarrow> [])"

definition context_bool :: "ctx \<Rightarrow> contextKey \<Rightarrow> bool" where
  "context_bool ctx k = (case map_of ctx k of Some (CtxBool b) \<Rightarrow> b | _ \<Rightarrow> False)"

text \<open>Header names are in canonical form throughout: \<^verbatim>\<open>TE\<close> is stored as \<^verbatim>\<open>Te\<close>.\<close>

definition hopByHopHeaders :: "string list" where
  "hopByHopHeaders = [''Connection'', ''Keep-Alive'', ''Proxy-Authenticate'', ''Proxy-Authorization'',
     ''Te'', ''Trailer'', ''Transfer-Encoding'', ''Upgrade'']"

subsection \<open>The response writer that remembers the status\<close>

record proxyResponseWriter =
  rw_inner :: response
  statusCode :: nat

definition rw_WriteHeader :: "nat \<Rightarrow> proxyResponseWriter \<Rightarrow> proxyResponseWriter" where
  "rw_WriteHeader code rw = rw\<lparr>statusCode := code, rw_inner := WriteHeader code (rw_inner rw)\<rparr>"

definition rw_Write :: "string \<Rightarrow> proxyResponseWriter \<Rightarrow> proxyResponseWriter" where
  "rw_Write b rw =
    (let rw' = (if statusCode rw = 0 then rw_WriteHeader 200 rw else rw)
     in rw'\<lparr>rw_inner := Write b (rw_inner rw')\<rparr>)"

text \<open>\<^verbatim>\<open>http.Error\<close> through the wrapper.\<close>

definition rw_Error :: "string \<Rightarrow> nat \<Rightarrow> proxyResponseWriter \<Rightarrow> proxyResponseWriter" where
  "rw_Error msg code rw = rw\<lparr>statusCode := code, rw_inner := http_Error msg code (rw_inner rw)\<rparr>"

subsection \<open>The request to the backend\<close>

record backend_request =
  out_method :: string
  out_scheme :: string
  out_url_host :: string
  out_path :: string
  out_raw_path :: string
  out_query :: string
  out_host :: string
  out_header :: headers
  out_body :: "string result"

record backend_response =
  be_status :: nat
  be_header :: headers
  be_body :: string
  be_error :: "string option"
  be_close :: "unit result"

text \<open>The header changes of \<^verbatim>\<open>Director\<close>, in its order.\<close>

definition director_header :: "string \<Rightarrow> string \<Rightarrow> headers \<Rightarrow> headers" where
  "director_header hugoToken rid h =
    (let h1 = header_set h ''Authorization'' (''Bearer '' @ hugoToken);
         h2 = header_del h1 ''Forwarded'';
         h3 = AList.update ''X-Forwarded-For'' [] h2;
         h4 = foldl header_del h3 [''X-Forwarded-Host'', ''X-Forwarded-Proto'', ''X-Forwarded-Server''];
         h5 = header_set h4 ''X-Request-Id'' rid
     in foldl header_del h5 hopByHopHeaders)"

definition Director :: "request \<Rightarrow> url \<Rightarrow> 's Service \<Rightarrow> backend_request" where
  "Director r u s =
    \<lparr>out_method = Method r, out_scheme = url_scheme u, out_url_host = url_host u,
     out_path = trim_suffix (url_path u) ''/'' @ context_string (Context r) subPathContextKey,
     out_raw_path = URL_RawPath r, out_query = URL_RawQuery r,
     out_host = cfg_HugoHost (OAuthProxy (cfg s)),
     out_header = director_header (cfg_HugoToken (OAuthProxy (cfg s))) (GetRequestID (Context r)) (Header r),
     out_body = Body r\<rparr>"

text \<open>What \<^verbatim>\<open>ReverseProxy\<close> does to the headers after \<^verbatim>\<open>Director\<close>.\<close>

definition trim_chars :: "char set \<Rightarrow> string \<Rightarrow> string" where
  "trim_chars cs s = rev (dropWhile (\<lambda>c. c \<in> cs) (rev (dropWhile (\<lambda>c. c \<in> cs) s)))"

definition te_trailers :: "headers \<Rightarrow> bool" where
  "te_trailers h =
    list_ex (\<lambda>v. list_ex (\<lambda>tok. map lower_byte (trim_chars {CHR '' '', CHR 0x09} tok) = ''trailers'') (split_on CHR '','' v))
      (case map_of h ''Te'' of None \<Rightarrow> [] | Some vs \<Rightarrow> vs)"

definition outgoing_header :: "headers \<Rightarrow> headers \<Rightarrow> headers" where
  "outgoing_header inbound h =
    (let h1 = foldl header_del h (''Proxy-Connection'' # hopByHopHeaders);
         h2 = (if te_trailers inbound then header_set h1 ''Te'' ''trailers'' else h1)
     in if map_of h2 ''User-Agent'' = None then header_set h2 ''User-Agent'' [] else h2)"

definition outgoing_request :: "request \<Rightarrow> url \<Rightarrow> 's Service \<Rightarrow> backend_request" where
  "outgoing_request r u s =
    (let d = Director r u s in d\<lparr>out_header := outgoing_header (Header r) (out_header d)\<rparr>)"

text \<open>The request as \<^verbatim>\<open>ErrorHandler\<close> sees it: the outgoing one, with the peer's address.\<close>

definition error_request :: "request \<Rightarrow> backend_request \<Rightarrow> request" where
  "error_request r out =
    r\<lparr>Header := out_header out, URL_Path := out_path out, URL_RawPath := out_raw_path out\<rparr>"

subsection \<open>The tool-list filter\<close>

definition anonymous_policy :: "'s Service \<Rightarrow> AnonymousMCPPolicy" where
  "anonymous_policy s = \<lparr>PublicTools = cfg_AnonymousPublicTools (OAuthProxy (cfg s))\<rparr>"

definition anonymousPayloadAllowed :: "string \<Rightarrow> 's Service \<Rightarrow> bool \<times> bool \<times> string" where
  "anonymousPayloadAllowed body s = PayloadAllowed (anonymous_policy s) body"

definition isAnonymousPublicTool :: "string \<Rightarrow> 's Service \<Rightarrow> bool" where
  "isAnonymousPublicTool name s = IsPublicTool (anonymous_policy s) name"

fun filter_tools_loop :: "(string \<Rightarrow> bool) \<Rightarrow> json list \<Rightarrow> json list" where
  "filter_tools_loop pub [] = []"
| "filter_tools_loop pub (tool # tools) =
    (case tool of
       JObj toolObj \<Rightarrow>
         (case map_of toolObj ''name'' of
            Some (JStr name) \<Rightarrow>
              (if pub name then tool # filter_tools_loop pub tools else filter_tools_loop pub tools)
          | _ \<Rightarrow> filter_tools_loop pub tools)
     | _ \<Rightarrow> filter_tools_loop pub tools)"

text \<open>On a value read as \<^verbatim>\<open>interface{}\<close>, whose objects are maps. The code changes it in place.\<close>

fun filterAnonymousToolsListJSON :: "(string \<Rightarrow> bool) \<Rightarrow> json \<Rightarrow> json" where
  "filterAnonymousToolsListJSON pub (JArr items) = JArr (map (filterAnonymousToolsListJSON pub) items)"
| "filterAnonymousToolsListJSON pub (JObj typed) =
    (case map_of typed ''result'' of
       Some (JObj result) \<Rightarrow>
         (case map_of result ''tools'' of
            Some (JArr tools) \<Rightarrow>
              JObj (AList.update ''result''
                (JObj (AList.update ''tools'' (JArr (filter_tools_loop pub tools)) result)) typed)
          | _ \<Rightarrow> JObj typed)
     | _ \<Rightarrow> JObj typed)"
| "filterAnonymousToolsListJSON pub v = v"

definition filter_line :: "(string \<Rightarrow> bool) \<Rightarrow> string \<Rightarrow> string" where
  "filter_line pub line =
    (if has_prefix line ''data: '' then
       (case unmarshal_interface (drop 6 line) of
          None \<Rightarrow> line
        | Some event \<Rightarrow> ''data: '' @ json_encode (filterAnonymousToolsListJSON pub event))
     else line)"

definition filterAnonymousToolsListBody :: "string \<Rightarrow> 's Service \<Rightarrow> string" where
  "filterAnonymousToolsListBody body s =
    (let pub = (\<lambda>name. isAnonymousPublicTool name s) in
     case unmarshal_interface body of
       Some value \<Rightarrow> json_encode (filterAnonymousToolsListJSON pub value)
     | None \<Rightarrow> join_with [CHR 0x0A] (map (filter_line pub) (split_on CHR 0x0A body)))"

definition filterAnonymousToolsListResponse :: "backend_response \<Rightarrow> 's Service \<Rightarrow> backend_response result" where
  "filterAnonymousToolsListResponse resp s =
    (let body = take (anonymousInspectionLimitBytes + 1) (be_body resp) in
     if length (be_body resp) \<le> anonymousInspectionLimitBytes \<and> be_error resp \<noteq> None then Inl (the (be_error resp))
     else case be_close resp of
       Inl e \<Rightarrow> Inl e
     | Inr _ \<Rightarrow>
         if length body > anonymousInspectionLimitBytes then
           Inl ''anonymous tools/list response exceeds inspection limit''
         else (let filtered = filterAnonymousToolsListBody body s in
           Inr (resp\<lparr>be_body := filtered, be_error := None, be_close := Inr (),
             be_header := header_set (be_header resp) ''Content-Length'' (show_nat (length filtered))\<rparr>)))"

subsection \<open>The response from the backend\<close>

text \<open>\<^verbatim>\<open>CanonicalMIMEHeaderKey\<close>: unchanged if a byte cannot be in a header name.\<close>

fun canonical_loop :: "bool \<Rightarrow> string \<Rightarrow> string" where
  "canonical_loop up [] = []"
| "canonical_loop up (c # cs) = (if up then upper_byte c else lower_byte c) # canonical_loop (c = CHR ''-'') cs"

definition canonical_key :: "string \<Rightarrow> string" where
  "canonical_key k = (if list_all token_char k then canonical_loop True k else k)"

definition removeHopByHopHeaders :: "headers \<Rightarrow> headers" where
  "removeHopByHopHeaders h =
    (let listed = concat (map (split_on CHR '','') (case map_of h ''Connection'' of None \<Rightarrow> [] | Some vs \<Rightarrow> vs));
         names = filter (\<lambda>k. k \<noteq> []) (map (trim_chars {CHR '' '', CHR 0x09, CHR 0x0A, CHR 0x0D}) listed)
     in foldl header_del h (map canonical_key names @ ''Proxy-Connection'' # hopByHopHeaders))"

definition header_values :: "headers \<Rightarrow> string \<Rightarrow> string list" where
  "header_values h k = (case map_of h k of None \<Rightarrow> [] | Some vs \<Rightarrow> vs)"

text \<open>\<^verbatim>\<open>copyHeader\<close>: adds to what is there.\<close>

definition copyHeader :: "headers \<Rightarrow> headers \<Rightarrow> headers" where
  "copyHeader dst src =
    foldl (\<lambda>h (k, vs). if vs = [] then h else AList.update k (header_values h k @ vs) h) dst src"

definition ErrorHandler ::
    "string \<Rightarrow> string \<Rightarrow> request \<Rightarrow> proxyResponseWriter \<Rightarrow> 's Service \<Rightarrow> proxyResponseWriter \<times> 's Service" where
  "ErrorHandler stamp err r rw s =
    (let s1 = auditLog stamp r ''proxy_error'' [(''error'', AStr err)] s;
         s2 = s1\<lparr>observed := (observed s1)\<lparr>metrics := (metrics (observed s1))
           \<lparr>ProxyErrorsTotal := Inc (ProxyErrorsTotal (metrics (observed s1)))\<rparr>\<rparr>\<rparr>
     in (rw_Error ''proxy error'' 502 rw, s2))"

definition ModifyResponse :: "request \<Rightarrow> backend_response \<Rightarrow> 's Service \<Rightarrow> backend_response result" where
  "ModifyResponse r resp s =
    (if \<not> context_bool (Context r) anonymousToolsListContextKey then Inr resp
     else filterAnonymousToolsListResponse resp s)"

text \<open>\<^verbatim>\<open>ReverseProxy.ServeHTTP\<close>; \<open>stamp\<close> is the time of an error's audit line.\<close>

definition proxy_ServeHTTP ::
    "(backend_request \<Rightarrow> backend_response result) \<Rightarrow> string \<Rightarrow> request \<Rightarrow> url \<Rightarrow> proxyResponseWriter
      \<Rightarrow> 's Service \<Rightarrow> proxyResponseWriter run \<times> 's Service" where
  "proxy_ServeHTTP backend stamp r u rw s =
    (let out = outgoing_request r u s in
     case backend out of
       Inl e \<Rightarrow> apfst Returns (ErrorHandler stamp e (error_request r out) rw s)
     | Inr resp0 \<Rightarrow>
         (case ModifyResponse r (resp0\<lparr>be_header := removeHopByHopHeaders (be_header resp0)\<rparr>) s of
            Inl e \<Rightarrow> apfst Returns (ErrorHandler stamp e (error_request r out) rw s)
          | Inr resp \<Rightarrow>
              (let inner = (rw_inner rw)\<lparr>resp_headers := copyHeader (resp_headers (rw_inner rw)) (be_header resp)\<rparr>;
                   rw1 = rw_WriteHeader (be_status resp) (rw\<lparr>rw_inner := inner\<rparr>)
               in if be_error resp \<noteq> None then (Panics ''net/http: abort Handler'', s)
                  else (Returns (if be_body resp = [] then rw1 else rw_Write (be_body resp) rw1), s))))"

subsection \<open>The gate of the anonymous mode\<close>

text \<open>\<^verbatim>\<open>MaxBytesReader\<close> asks for the connection to be closed when the limit is passed.\<close>

definition read_limited :: "request \<Rightarrow> response \<Rightarrow> string result \<times> response" where
  "read_limited r w =
    (case Body r of
       Inl e \<Rightarrow> (Inl e, w)
     | Inr b \<Rightarrow>
         if length b > anonymousInspectionLimitBytes
         then (Inl ''http: request body too large'', set_header ''Connection'' ''close'' w)
         else (Inr b, w))"

datatype gate = Refused response | Allowed bool request response

definition allowAnonymousMCPRequest :: "string \<Rightarrow> request \<Rightarrow> response \<Rightarrow> 's Service \<Rightarrow> gate \<times> 's Service" where
  "allowAnonymousMCPRequest stamp r w s =
    (if Method r \<noteq> ''POST'' then
       (Refused (http_Error ''anonymous MCP requires POST'' 405 w),
        auditLog stamp r ''anonymous_proxy_rejected''
          [(''reason'', AStr ''method_not_allowed''), (''method'', AStr (Method r))] s)
     else case read_limited r w of
       (Inl e, w1) \<Rightarrow>
         (Refused (http_Error ''invalid anonymous MCP request'' 400 w1),
          auditLog stamp r ''anonymous_proxy_rejected'' [(''reason'', AStr ''body_too_large_or_unreadable'')] s)
     | (Inr body, w1) \<Rightarrow>
         (let r1 = r\<lparr>Body := Inr body\<rparr>; (allowed, toolsList, reason) = anonymousPayloadAllowed body s in
          if \<not> allowed then
            (Refused (http_Error ''anonymous MCP request is not allowed'' 403 w1),
             auditLog stamp r1 ''anonymous_proxy_rejected'' [(''reason'', AStr reason)] s)
          else (Allowed toolsList r1 w1, auditLog stamp r1 ''anonymous_proxy_allowed'' [] s)))"

subsection \<open>The handler\<close>

record proxy_readings = readings +
  rd_stamp_error :: string
  rd_stamp_hit :: string
  rd_duration :: int

text \<open>The checks of the path and the call of the proxy, once the request is admitted.\<close>

definition proxy_admitted ::
    "(backend_request \<Rightarrow> backend_response result) \<Rightarrow> proxy_readings \<Rightarrow> request \<Rightarrow> response \<Rightarrow> 's Service
      \<Rightarrow> response run \<times> 's Service" where
  "proxy_admitted backend rd r w s =
    (let cleanPath = path_clean (URL_Path r) in
     if contains (URL_Path r) ''@'' \<or> contains (URL_RawPath r) ''%2e'' \<or> contains (URL_RawPath r) ''%2E'' then
       (Returns (http_Error ''malformed path'' 400 w),
        auditLog (rd_stamp_hit rd) r ''proxy_rejected''
          [(''reason'', AStr ''malformed_path''), (''path'', AStr (URL_Path r))] s)
     else if cleanPath \<noteq> mcpBasePath \<and> \<not> has_prefix cleanPath (mcpBasePath @ ''/'') then
       (Returns (http_Error ''invalid proxy path'' 404 w),
        auditLog (rd_stamp_hit rd) r ''proxy_rejected''
          [(''reason'', AStr ''invalid_path''), (''path'', AStr (URL_Path r))] s)
     else case backendURL s of
       None \<Rightarrow> (Returns (http_Error ''backend not configured'' 503 w), s)
     | Some u \<Rightarrow>
         (let subPath = trim_prefix cleanPath mcpBasePath;
              r1 = r\<lparr>Context := appendSubPath (Context r) subPath\<rparr>
          in case proxy_ServeHTTP backend (rd_stamp_error rd) r1 u \<lparr>rw_inner = w, statusCode = 0\<rparr> s of
               (Panics e, s1) \<Rightarrow> (Panics e, s1)
             | (Returns rw, s1) \<Rightarrow>
                 (let s2 = s1\<lparr>observed := (observed s1)\<lparr>metrics := (metrics (observed s1))
                        \<lparr>ProxyRequestsTotal := Inc (ProxyRequestsTotal (metrics (observed s1)))\<rparr>\<rparr>\<rparr>;
                      s3 = auditLog (rd_stamp_hit rd) r1 ''proxy_hit''
                        [(''path'', AStr cleanPath), (''method'', AStr (Method r1)),
                         (''status'', AInt (int (statusCode rw))), (''duration_ms'', AInt (rd_duration rd)),
                         (''client_id'', AStr (cfg_ClientID (OAuthProxy (cfg s2))))] s2
                  in (Returns (rw_inner rw), s3))))"

definition HandleProxy ::
    "(backend_request \<Rightarrow> backend_response result) \<Rightarrow> proxy_readings \<Rightarrow> request \<Rightarrow> response \<Rightarrow> 's Service
      \<Rightarrow> response run \<times> 's Service" where
  "HandleProxy backend rd r w s =
    (let auth = header_get (Header r) ''Authorization'' in
     if auth \<noteq> [] then
       (if \<not> has_prefix auth ''Bearer '' then (Returns (unauthorized ''Bearer token required'' w s), s)
        else (let token = trim_space (trim_prefix auth ''Bearer '') in
          if \<not> ValidateAccessToken token (Unix (rd_now1 rd)) s then
            (Returns (unauthorized ''Invalid or expired token'' w s), s)
          else proxy_admitted backend rd r w s))
     else if \<not> cfg_AnonymousEnabled (OAuthProxy (cfg s)) then
       (Returns (unauthorized ''Bearer token required'' w s), s)
     else case allowAnonymousMCPRequest (rd_stamp rd) r w s of
       (Refused w1, s1) \<Rightarrow> (Returns w1, s1)
     | (Allowed toolsList r1 w1, s1) \<Rightarrow>
         (let r2 = (if toolsList
                    then r1\<lparr>Context := WithValue (Context r1) anonymousToolsListContextKey (CtxBool True)\<rparr>
                    else r1)
          in proxy_admitted backend rd r2 w1 s1))"

declare anonymousInspectionLimitBytes_def [model_defs] appendSubPath_def [model_defs]
  hopByHopHeaders_def [model_defs] rw_WriteHeader_def [model_defs] rw_Write_def [model_defs]
  rw_Error_def [model_defs] Director_def [model_defs] anonymousPayloadAllowed_def [model_defs]
  isAnonymousPublicTool_def [model_defs] filterAnonymousToolsListBody_def [model_defs]
  filterAnonymousToolsListResponse_def [model_defs] ErrorHandler_def [model_defs]
  ModifyResponse_def [model_defs] allowAnonymousMCPRequest_def [model_defs] HandleProxy_def [model_defs]

end
