(* ===== verification/Runtime.thy ===== *)
theory Runtime
  imports Proxy SQLStore
begin

text \<open>
  \<^verbatim>\<open>internal/runtime\<close>, \<^verbatim>\<open>internal/httpserver\<close> and \<^verbatim>\<open>cmd/mcp-runtime\<close>: the request-id
  middleware, the routes, the construction of the application, its shutdown, and the command
  line. The stores the application chooses between are lifted to one state, the file system and
  the database.

  \<^verbatim>\<open>http.ServeMux\<close> is modelled for the patterns registered here, which have no host, no method
  and no wildcard; a path that is not clean is answered with a redirect.
\<close>

subsection \<open>middleware.go\<close>

definition generateID :: "string result \<Rightarrow> string run" where
  "generateID rnd =
    (case rnd of
       Inl e \<Rightarrow> Panics (''failed to generate secure request id: '' @ e)
     | Inr b \<Rightarrow> Returns (hex_encode (take 16 b)))"

definition RequestIDMiddleware ::
    "(request \<Rightarrow> response \<Rightarrow> 'a \<Rightarrow> response run \<times> 'a) \<Rightarrow> string result \<Rightarrow> request \<Rightarrow> response \<Rightarrow> 'a
      \<Rightarrow> response run \<times> 'a" where
  "RequestIDMiddleware next rnd r w s =
    (case generateID rnd of
       Panics e \<Rightarrow> (Panics e, s)
     | Returns rid \<Rightarrow>
         (let clientID = trim_space (header_get (Header r) ''X-Request-Id'') in
          if clientID \<noteq> [] then
            (let ctx = WithRequestID (WithClientRequestID (Context r) clientID) rid;
                 w1 = set_header ''X-Client-Request-Id'' clientID (set_header ''X-Request-Id'' rid w)
             in next (r\<lparr>Context := ctx\<rparr>) w1 s)
          else
            (let ctx = WithRequestID (Context r) rid; w1 = set_header ''X-Request-Id'' rid w
             in next (r\<lparr>Context := ctx\<rparr>) w1 s)))"

subsection \<open>http.ServeMux\<close>

definition valid_encoded_path :: "string \<Rightarrow> bool" where
  "valid_encoded_path s \<longleftrightarrow>
    list_all (\<lambda>c. c \<in> set (''!$&()*+,;=:@[]%'' @ [CHR 0x27]) \<or> \<not> should_escape c EncodePath) s"

definition path_escape :: "string \<Rightarrow> string" where
  "path_escape s =
    concat (map (\<lambda>c. if should_escape c EncodePath
      then [CHR ''%'', upper_hex (ord_of c div 16), upper_hex (ord_of c mod 16)] else [c]) s)"

definition EscapedPath :: "request \<Rightarrow> string" where
  "EscapedPath r =
    (if URL_RawPath r \<noteq> [] \<and> valid_encoded_path (URL_RawPath r) \<and>
        unescape EncodePath (URL_RawPath r) = Some (URL_Path r) then URL_RawPath r
     else if URL_Path r = ''*'' then ''*'' else path_escape (URL_Path r))"

definition keep_slash :: "string \<Rightarrow> string \<Rightarrow> string" where
  "keep_slash p np = (if has_suffix p ''/'' \<and> np \<noteq> ''/'' then np @ ''/'' else np)"

definition cleanPath :: "string \<Rightarrow> string" where
  "cleanPath p =
    (if p = [] then ''/''
     else (let p' = (if take 1 p \<noteq> ''/'' then ''/'' @ p else p) in keep_slash p' (path_clean p')))"

definition segment :: "string \<Rightarrow> string" where
  "segment p = (case unescape EncodePath p of None \<Rightarrow> p | Some q \<Rightarrow> q)"

text \<open>The segments of a clean path; a trailing slash gives a last segment that is one.\<close>

definition path_segments :: "string \<Rightarrow> string list" where
  "path_segments p =
    (let ss = split_on CHR ''/'' (drop 1 p) in
     if last ss = [] then map segment (butlast ss) @ [''/''] else map segment ss)"

datatype route = MetadataRoute | ResourceRoute | RegisterRoute | AuthorizeRoute | TokenRoute | ProxyRoute
  | HealthRoute | ReadyzRoute | MetricsRoute

text \<open>The patterns: exact ones, and those that end in a slash and match what is below.\<close>

definition exact_routes :: "(string list \<times> route) list" where
  "exact_routes =
    [([''.well-known'', ''oauth-authorization-server''], MetadataRoute),
     ([''.well-known'', ''oauth-protected-resource''], ResourceRoute),
     ([''register''], RegisterRoute), ([''authorize''], AuthorizeRoute), ([''token''], TokenRoute),
     ([''mcp''], ProxyRoute), ([''health''], HealthRoute), ([''healthz''], HealthRoute),
     ([''readyz''], ReadyzRoute), ([''metrics''], MetricsRoute)]"

definition subtree_routes :: "(string list \<times> route) list" where
  "subtree_routes =
    [([''.well-known'', ''oauth-protected-resource''], ResourceRoute), ([''mcp''], ProxyRoute)]"

definition match_route :: "string list \<Rightarrow> route option" where
  "match_route segs =
    (case map_of exact_routes segs of
       Some rt \<Rightarrow> Some rt
     | None \<Rightarrow> map_option snd (find (\<lambda>(p, rt). length p < length segs \<and> take (length p) segs = p) subtree_routes))"

datatype mux_result = Routed route | MovedTo string | NotFound

definition findHandler :: "request \<Rightarrow> mux_result" where
  "findHandler r =
    (let escaped = EscapedPath r;
         path = (if Method r = ''CONNECT'' then escaped else cleanPath escaped) in
     if path \<noteq> escaped then
       MovedTo (path_escape path @ (if URL_RawQuery r \<noteq> [] then ''?'' @ URL_RawQuery r else []))
     else case match_route (path_segments path) of None \<Rightarrow> NotFound | Some rt \<Rightarrow> Routed rt)"

definition moved :: "request \<Rightarrow> string \<Rightarrow> response \<Rightarrow> response" where
  "moved r loc w =
    (let w1 = set_header ''Location'' (hex_escape_non_ascii loc) w in
     if Method r = ''GET'' \<or> Method r = ''HEAD'' then
       (let w2 = WriteHeader 301 (set_header ''Content-Type'' ''text/html; charset=utf-8'' w1) in
        if Method r = ''GET'' then
          Write (''<a href='' @ [CHR 0x22] @ html_escape loc @ [CHR 0x22] @ ''>Moved Permanently</a>.'' @
            [CHR 0x0A, CHR 0x0A]) w2
        else w2)
     else WriteHeader 301 w1)"

subsection \<open>app.go: routes\<close>

definition health :: "response \<Rightarrow> response" where
  "health w = Write ''OK'' (WriteHeader 200 w)"

definition readyz :: "int \<Rightarrow> response \<Rightarrow> 's Service \<Rightarrow> response \<times> 's Service" where
  "readyz t w s =
    (case Ready t s of
       (Inl e, s1) \<Rightarrow> (http_Error e 503 w, s1)
     | (Inr _, s1) \<Rightarrow> (Write ''OK'' (WriteHeader 200 w), s1))"

definition mux ::
    "(backend_request \<Rightarrow> backend_response result) \<Rightarrow> proxy_readings \<Rightarrow> request \<Rightarrow> response \<Rightarrow> 's Service
      \<Rightarrow> response run \<times> 's Service" where
  "mux backend rd r w s =
    (let plain = readings.truncate rd in
     case findHandler r of
       NotFound \<Rightarrow> (Returns (http_Error ''404 page not found'' 404 w), s)
     | MovedTo loc \<Rightarrow> (Returns (moved r loc w), s)
     | Routed rt \<Rightarrow>
         (case rt of
            MetadataRoute \<Rightarrow> apfst Returns (HandleMetadata plain r w s)
          | ResourceRoute \<Rightarrow> apfst Returns (HandleProtectedResourceMetadata plain r w s)
          | RegisterRoute \<Rightarrow> apfst Returns (HandleRegister plain r w s)
          | AuthorizeRoute \<Rightarrow> HandleAuthorize plain r w s
          | TokenRoute \<Rightarrow> HandleToken plain r w s
          | ProxyRoute \<Rightarrow> HandleProxy backend rd r w s
          | HealthRoute \<Rightarrow> (Returns (health w), s)
          | ReadyzRoute \<Rightarrow> apfst Returns (readyz (rd_store rd) w s)
          | MetricsRoute \<Rightarrow> (Returns (HandleMetrics (metrics (observed s)) r w), s)))"

definition newHandler ::
    "(backend_request \<Rightarrow> backend_response result) \<Rightarrow> proxy_readings \<Rightarrow> string result \<Rightarrow> request \<Rightarrow> 's Service
      \<Rightarrow> response run \<times> 's Service" where
  "newHandler backend rd rnd r s = RequestIDMiddleware (mux backend rd) rnd r fresh_response s"

end
