(* ===== verification/HandlersFacts.thy ===== *)
theory HandlersFacts
  imports Handlers
begin

text \<open>
  What the OAuth endpoints answer: when \<^verbatim>\<open>/authorize\<close> redirects and where to, that the client
  can read the code and the state back from the redirect, what \<^verbatim>\<open>/token\<close> and \<^verbatim>\<open>/register\<close>
  answer in every case, and that a document served is the one the metadata functions describe.
\<close>

subsection \<open>Frames\<close>

lemma auditLog_frame [frame_simps]:
  "cfg (auditLog ts r ev f s) = cfg s" "store (auditLog ts r ev f s) = store s"
  "store_state (auditLog ts r ev f s) = store_state s" "authCodes (auditLog ts r ev f s) = authCodes s"
  "accessTokens (auditLog ts r ev f s) = accessTokens s" "audit (auditLog ts r ev f s) = audit s"
  "backendURL (auditLog ts r ev f s) = backendURL s"
  by (simp_all add: auditLog_def Let_def)

lemma count_token_rejected_frame [frame_simps]:
  "cfg (count_token_rejected s) = cfg s" "store (count_token_rejected s) = store s"
  "store_state (count_token_rejected s) = store_state s" "authCodes (count_token_rejected s) = authCodes s"
  "accessTokens (count_token_rejected s) = accessTokens s"
  by (simp_all add: count_token_rejected_def)

text \<open>Headers of a response that has not been started.\<close>

lemma header_get_if:
  "header_get (header_set h k v) k' = (if k' = k then v else header_get h k')"
  "header_get (header_del h k) k' = (if k' = k then [] else header_get h k')"
  by (auto simp: header_get_set_other header_get_del_other)

lemma set_header_get [simp]:
  "status w = None \<Longrightarrow> header_get (resp_headers (set_header k v w)) k = v"
  "status w = None \<Longrightarrow> k \<noteq> k' \<Longrightarrow> header_get (resp_headers (set_header k v w)) k' = header_get (resp_headers w) k'"
  by (simp_all add: set_header_def header_get_set_other)

lemma resp_headers_started [simp]:
  "resp_headers (WriteHeader c w) = resp_headers w" "resp_headers (Write b w) = resp_headers w"
  "resp_body (WriteHeader c w) = resp_body w" "resp_body (Write b w) = resp_body w @ b"
  "resp_body (set_header k v w) = resp_body w"
  by (simp_all add: WriteHeader_def Write_def set_header_def Let_def)

lemma http_Error_headers:
  assumes "status w = None" and "k \<notin> set [''Content-Length'', ''Content-Encoding'', ''Etag'', ''Last-Modified'',
      ''Cache-Control'', ''Content-Type'', ''X-Content-Type-Options'']"
  shows "header_get (resp_headers (http_Error m c w)) k = header_get (resp_headers w) k"
  using assms by (simp add: http_Error_def Let_def header_get_if)

lemma http_Error_body [simp]: "resp_body (http_Error m c w) = resp_body w @ m @ [CHR 0x0A]"
  by (simp add: http_Error_def Let_def)

lemma http_Redirect_location [simp]:
  "status w = None \<Longrightarrow> header_get (resp_headers (http_Redirect loc c w)) ''Location'' = hex_escape_non_ascii loc"
  by (simp add: http_Redirect_def)

lemma encode_reply_simps [simp]:
  "status (encode_reply v w) = (case status w of None \<Rightarrow> Some 200 | Some c \<Rightarrow> Some c)"
  "resp_headers (encode_reply v w) = resp_headers w"
  "resp_body (encode_reply v w) = resp_body w @ json_encode v @ [CHR 0x0A]"
  by (simp_all add: encode_reply_def)

subsection \<open>The authorize endpoint\<close>

definition query_of :: "request \<Rightarrow> string \<Rightarrow> string" where
  "query_of r k = values_get (fst (parse_query (URL_RawQuery r))) k"

definition authorize_request :: "request \<Rightarrow> AuthorizeRequest" where
  "authorize_request r = \<lparr>ar_ResponseType = query_of r ''response_type'', ar_ClientID = query_of r ''client_id'',
     ar_RedirectURI = query_of r ''redirect_uri'', ar_State = query_of r ''state'',
     ar_CodeChallenge = query_of r ''code_challenge'', ar_CodeChallengeMethod = query_of r ''code_challenge_method''\<rparr>"

definition source_allowed :: "request \<Rightarrow> OAuthProxyConfig \<Rightarrow> bool" where
  "source_allowed r c \<longleftrightarrow> IsIPAllowed (SourceIP (GetRequestInfo r (cfg_TrustedProxies c))) (cfg_TrustedAuthorizeCIDRs c)"

definition may_redirect :: "request \<Rightarrow> OAuthProxyConfig \<Rightarrow> bool" where
  "may_redirect r c \<longleftrightarrow> Method r = ''GET'' \<and> source_allowed r c \<and>
    IsAllowedRedirect (query_of r ''redirect_uri'') \<and> query_of r ''client_id'' = cfg_ClientID c"

definition redirect_reply :: "readings \<Rightarrow> request \<Rightarrow> response \<Rightarrow> 's Service \<Rightarrow> response run \<times> 's Service" where
  "redirect_reply rd r w s =
    (let req = authorize_request r in
     case IssueAuthCode req (rd_random rd) (rd_now1 rd) s of
       (Panics e, s1) \<Rightarrow> (Panics e, s1)
     | (Returns (Inl err), s1) \<Rightarrow>
         (Returns (http_Redirect (ar_RedirectURI req @ ''?'' @
            values_encode (error_params (fst (MapAuthorizeError err)) (snd (MapAuthorizeError err)) (ar_State req))) 302 w),
          auditLog (rd_stamp rd) r ''authorize_rejected'' [(''reason'', AStr err)] s1)
     | (Returns (Inr code), s1) \<Rightarrow>
         (Returns (http_Redirect (ar_RedirectURI req @ ''?'' @ values_encode ([(''code'', code)] @
            (if ar_State req \<noteq> [] then [(''state'', ar_State req)] else []))) 302 w),
          auditLog (rd_stamp rd) r ''authorize_approved''
            [(''redirect_uri'', AStr (ar_RedirectURI req)), (''pkce'', ABool (ar_CodeChallenge req \<noteq> []))] s1))"

lemma HandleAuthorize_redirects:
  "may_redirect r (OAuthProxy (cfg s)) \<Longrightarrow> HandleAuthorize rd r w s = redirect_reply rd r w s"
  by (simp add: HandleAuthorize_def redirect_reply_def may_redirect_def source_allowed_def authorize_request_def
      query_of_def Let_def split: prod.split run.split sum.split)

lemma HandleAuthorize_refuses:
  assumes "\<not> may_redirect r (OAuthProxy (cfg s))" and "status w = None"
  shows "\<exists>w' s'. HandleAuthorize rd r w s = (Returns w', s') \<and> authCodes s' = authCodes s \<and>
    header_get (resp_headers w') ''Location'' = header_get (resp_headers w) ''Location'' \<and>
    status w' = Some (if Method r \<noteq> ''GET'' then 405
      else if \<not> source_allowed r (OAuthProxy (cfg s)) then 403
      else if \<not> IsAllowedRedirect (query_of r ''redirect_uri'') then 400 else 401)"
  using assms
  by (auto simp: HandleAuthorize_def may_redirect_def source_allowed_def query_of_def Let_def
      method_not_allowed_def http_Error_headers frame_simps)

text \<open>
  C9. No open redirect. Every answer of \<^verbatim>\<open>/authorize\<close> that redirects goes to the redirect URI of
  the request, followed by a question mark and an encoded query, and is given only to a GET
  request from an allowed address with an allowed redirect URI and the configured client id.
  Every other request is answered 405, 403, 400 or 401 in that order of checks, without a
  \<^verbatim>\<open>Location\<close> and without issuing a code.
\<close>

theorem authorize_no_open_redirect:
  assumes "HandleAuthorize rd r w s = (Returns w', s')" and "status w = None"
    and "header_get (resp_headers w) ''Location'' = []"
  shows "if may_redirect r (OAuthProxy (cfg s))
    then status w' = Some 302 \<and>
      (\<exists>params. header_get (resp_headers w') ''Location'' =
        hex_escape_non_ascii (query_of r ''redirect_uri'' @ ''?'' @ values_encode params))
    else header_get (resp_headers w') ''Location'' = [] \<and> authCodes s' = authCodes s \<and>
      status w' = Some (if Method r \<noteq> ''GET'' then 405
        else if \<not> source_allowed r (OAuthProxy (cfg s)) then 403
        else if \<not> IsAllowedRedirect (query_of r ''redirect_uri'') then 400 else 401)"
proof (cases "may_redirect r (OAuthProxy (cfg s))")
  case True
  then have "redirect_reply rd r w s = (Returns w', s')" using assms(1) by (simp add: HandleAuthorize_redirects)
  then show ?thesis using True assms(2)
    by (auto simp: redirect_reply_def Let_def authorize_request_def split: prod.splits run.splits sum.splits)
next
  case False
  from HandleAuthorize_refuses [OF False assms(2), of rd] show ?thesis using assms(1,3) False by auto
qed

text \<open>The sample client asks for a code.\<close>

definition sample_authorize_http :: request where
  "sample_authorize_http = \<lparr>Method = ''GET'', RemoteAddr = ''127.0.0.1:5000'', Header = [], URL_Path = ''/authorize'',
     URL_RawPath = [],
     URL_RawQuery = values_encode [(''client_id'', ''me''), (''code_challenge'', sample_challenge),
       (''code_challenge_method'', ''S256''), (''redirect_uri'', ''https://claude.ai/cb''),
       (''response_type'', ''code''), (''state'', ''xyz'')],
     Body = Inr [], Context = []\<rparr>"

lemma sample_query:
  "authorize_request sample_authorize_http = sample_authorize"
  "query_of sample_authorize_http ''redirect_uri'' = ''https://claude.ai/cb''"
  "query_of sample_authorize_http ''client_id'' = ''me''"
proof -
  define vs where "vs = [(''client_id'', ''me''), (''code_challenge'', sample_challenge),
       (''code_challenge_method'', ''S256''), (''redirect_uri'', ''https://claude.ai/cb''),
       (''response_type'', ''code''), (''state'', ''xyz'')]"
  have "parse_query (values_encode vs) = (sort_key fst vs, False)"
    by (rule parse_query_values_encode) (simp_all add: vs_def max_query_params_def)
  moreover have "gomap_ok vs" by (simp add: vs_def gomap_ok_def)
  ultimately have q: "query_of sample_authorize_http k = values_get vs k" for k
    by (simp add: query_of_def sample_authorize_http_def vs_def [symmetric] values_get_def map_of_sort_key)
  show "authorize_request sample_authorize_http = sample_authorize"
    "query_of sample_authorize_http ''redirect_uri'' = ''https://claude.ai/cb''"
    "query_of sample_authorize_http ''client_id'' = ''me''"
    by (simp_all add: authorize_request_def q vs_def values_get_def sample_authorize_def)
qed

lemma sample_http_simps:
  "RemoteAddr sample_authorize_http = ''127.0.0.1:5000''" "header_get (Header sample_authorize_http) k = []"
  by (simp_all add: sample_authorize_http_def header_get_def)

lemma sample_source: "source_allowed sample_authorize_http sample_oauth"
proof -
  have "split_host_port ''127.0.0.1:5000'' = Some (''127.0.0.1'', ''5000'')" by code_simp
  then have "GetRequestInfo sample_authorize_http tps = \<lparr>SourceIP = ''127.0.0.1''\<rparr>" for tps
    by (simp add: GetRequestInfo_def sample_http_simps Let_def split: option.split)
  moreover have "IsIPAllowed ''127.0.0.1'' (''127.0.0.1/32'' # cs)" for cs
  proof -
    have pa: "parse_addr ''127.0.0.1'' = Some (V4 [127, 0, 0, 1], [])" by code_simp
    have "parse_cidr (''127.0.0.1'' @ ''/'' @ ''32'') =
        Some \<lparr>net_ip = map2 (AND) [127, 0, 0, 1] (cidr_mask 32 32), net_mask = cidr_mask 32 32\<rparr>"
      by (rule parse_cidr_v4 [OF pa]) (simp_all add: dtoi_def)
    moreover have "ipnet_contains \<lparr>net_ip = map2 (AND) [127, 0, 0, 1] (cidr_mask 32 32), net_mask = cidr_mask 32 32\<rparr>
        (v4_prefix @ [127, 0, 0, 1])" by code_simp
    ultimately show ?thesis
      by (simp add: IsIPAllowed_def parse_ip_def pa addr_as16_def contains_single)
  qed
  ultimately show ?thesis by (simp add: source_allowed_def sample_oauth_def)
qed

lemma sample_may_redirect: "may_redirect sample_authorize_http sample_oauth"
  using sample_source
  by (simp add: may_redirect_def sample_query redirect_example) (simp add: sample_authorize_http_def sample_oauth_def)

definition sample_readings :: readings where
  "sample_readings = \<lparr>rd_stamp = [], rd_now1 = 0, rd_now2 = 1000 * second, rd_store = 1000, rd_random = sample_random\<rparr>"

lemma sample_authorize_runs:
  "\<exists>w' s'. HandleAuthorize sample_readings sample_authorize_http fresh_response sample_service = (Returns w', s')"
  by (simp add: HandleAuthorize_redirects sample_may_redirect redirect_reply_def sample_query sample_authorized
      IssueAuthCode_ok sample_readings_def)

lemma authorize_no_open_redirect_witness:
  "\<exists>w' s'. HandleAuthorize sample_readings sample_authorize_http fresh_response sample_service = (Returns w', s') \<and>
    status w' = Some 302 \<and>
    (\<exists>params. header_get (resp_headers w') ''Location'' =
      hex_escape_non_ascii (''https://claude.ai/cb'' @ ''?'' @ values_encode params))"
proof -
  obtain w' s' where h: "HandleAuthorize sample_readings sample_authorize_http fresh_response sample_service = (Returns w', s')"
    using sample_authorize_runs by blast
  from authorize_no_open_redirect [OF h] h show ?thesis
    by (simp add: sample_may_redirect sample_query fresh_response_def header_get_def)
qed

subsection \<open>Reading the redirect\<close>

lemma hex_escape_ascii: "ascii s \<Longrightarrow> hex_escape_non_ascii s = s"
  by (induction s) (auto simp: hex_escape_non_ascii_def ascii_def)

lemma values_encode_chars: "set (values_encode vs) \<subseteq> query_safe \<union> set ''&=''"
proof -
  have "set (encode_pair kv) \<subseteq> query_safe \<union> set ''&=''" for kv
    using query_escape_safe by (auto simp: encode_pair_def)
  moreover have "set (join_with ''&'' xs) \<subseteq> \<Union> (set ` set xs) \<union> set ''&''" for xs
    by (induction "''&''" xs rule: join_with.induct) auto
  ultimately show ?thesis unfolding values_encode_def by fastforce
qed

lemma values_encode_ascii: "ascii (values_encode vs)"
  using values_encode_chars query_safe_printable by (fastforce simp: ascii_def list_all_iff)

lemma values_encode_clean:
  "CHR ''?'' \<notin> set (values_encode vs)" "CHR ''#'' \<notin> set (values_encode vs)" "\<not> has_ctl_byte (values_encode vs)"
proof -
  show "CHR ''?'' \<notin> set (values_encode vs)" "CHR ''#'' \<notin> set (values_encode vs)"
    using values_encode_chars [of vs] query_safe_excludes by auto
  have "32 \<le> ord_of c \<and> ord_of c < 127" if "c \<in> set (values_encode vs)" for c
    using that values_encode_chars [of vs] query_safe_printable by fastforce
  then show "\<not> has_ctl_byte (values_encode vs)" by (fastforce simp: has_ctl_byte_def list_ex_iff)
qed

lemma values_encode_Cons: "values_encode ((k, v) # vs) \<noteq> []"
proof -
  have "sort_key fst ((k, v) # vs) \<noteq> []" by (metis list.distinct(1) set_empty set_sort)
  then obtain kv kvs where "sort_key fst ((k, v) # vs) = kv # kvs" by (cases "sort_key fst ((k, v) # vs)") auto
  then show ?thesis by (cases kvs) (simp_all add: values_encode_def encode_pair_def)
qed

lemma values_encode_last: "last (values_encode ((k, v) # vs)) \<noteq> CHR ''?''"
  using values_encode_Cons [of k v vs] values_encode_clean(1) [of "(k, v) # vs"] last_in_set by metis

text \<open>The query of a redirect to a plain URI is what was put in it.\<close>

lemma redirect_readable:
  assumes "IsAllowedRedirect uri" and "ascii uri" and "CHR ''?'' \<notin> set uri" and "CHR ''#'' \<notin> set uri"
    and "gomap_ok ((k, v) # vs)" and "length vs < 100"
  shows "\<exists>u. url_parse uri = Some u \<and>
    url_parse (hex_escape_non_ascii (uri @ ''?'' @ values_encode ((k, v) # vs))) =
      Some (u\<lparr>url_raw_query := values_encode ((k, v) # vs)\<rparr>) \<and>
    (\<forall>x. values_get (fst (parse_query (values_encode ((k, v) # vs)))) x = values_get ((k, v) # vs) x)"
proof -
  obtain u where u: "url_parse uri = Some u" "url_scheme u = ''https''"
    using assms(1) by (auto simp: IsAllowedRedirect_eq)
  have "hex_escape_non_ascii (uri @ ''?'' @ values_encode ((k, v) # vs)) = uri @ ''?'' @ values_encode ((k, v) # vs)"
    by (rule hex_escape_ascii) (use assms(2) values_encode_ascii in \<open>simp add: ascii_def\<close>)
  moreover have "url_parse (uri @ ''?'' @ values_encode ((k, v) # vs)) = Some (u\<lparr>url_raw_query := values_encode ((k, v) # vs)\<rparr>)"
    by (rule url_parse_add_query) (use u assms(3,4) values_encode_clean values_encode_Cons values_encode_last in simp_all)
  moreover have "parse_query (values_encode ((k, v) # vs)) = (sort_key fst ((k, v) # vs), False)"
    by (rule parse_query_values_encode) (use assms(6) in \<open>simp_all add: max_query_params_def\<close>)
  ultimately show ?thesis using u(1) map_of_sort_key [OF assms(5)] by (simp add: values_get_def)
qed

definition plain_redirect :: "string \<Rightarrow> bool" where
  "plain_redirect uri \<longleftrightarrow> ascii uri \<and> CHR ''?'' \<notin> set uri \<and> CHR ''#'' \<notin> set uri"

text \<open>What a client that parses the redirect finds under a key.\<close>

definition location_param :: "response \<Rightarrow> string \<Rightarrow> string" where
  "location_param w k =
    (case url_parse (header_get (resp_headers w) ''Location'') of
       None \<Rightarrow> []
     | Some u \<Rightarrow> values_get (fst (parse_query (url_raw_query u))) k)"

lemma location_param_redirect:
  assumes "IsAllowedRedirect uri" and "plain_redirect uri" and "gomap_ok ((k, v) # vs)" and "length vs < 100"
    and "status w = None"
  shows "location_param (http_Redirect (uri @ ''?'' @ values_encode ((k, v) # vs)) c w) x = values_get ((k, v) # vs) x"
  using redirect_readable [OF assms(1) _ _ _ assms(3,4)] assms(2,5)
  by (auto simp: location_param_def plain_redirect_def)

text \<open>The query of either redirect, as the pairs it was made of.\<close>

lemma redirect_reply_shape:
  assumes "redirect_reply rd r w s = (Returns w', s')"
  shows "\<exists>k v vs. w' = http_Redirect ((query_of r ''redirect_uri'') @ ''?'' @ values_encode ((k, v) # vs)) 302 w \<and>
      gomap_ok ((k, v) # vs) \<and> length vs < 100 \<and> values_get ((k, v) # vs) ''state'' = query_of r ''state'' \<and>
      (if authorize_ok (authorize_request r) (OAuthProxy (cfg s))
       then map_of (authCodes s') (values_get ((k, v) # vs) ''code'') =
         Some (code_for (authorize_request r) (rd_now1 rd) (OAuthProxy (cfg s))) \<and> values_get ((k, v) # vs) ''error'' = []
       else values_get ((k, v) # vs) ''code'' = [] \<and> values_get ((k, v) # vs) ''error'' \<noteq> [] \<and> authCodes s' = authCodes s)"
proof (cases "authorize_ok (authorize_request r) (OAuthProxy (cfg s))")
  case True
  then obtain code where c: "GenerateRandomString 32 (rd_random rd) = Inr code"
    using assms by (cases "GenerateRandomString 32 (rd_random rd)") (auto simp: redirect_reply_def IssueAuthCode_ok)
  define vs where "vs = (if ar_State (authorize_request r) \<noteq> [] then [(''state'', ar_State (authorize_request r))] else [])"
  have "w' = http_Redirect ((query_of r ''redirect_uri'') @ ''?'' @ values_encode ((''code'', code) # vs)) 302 w"
      "authCodes s' = AList.update code (code_for (authorize_request r) (rd_now1 rd) (OAuthProxy (cfg s))) (authCodes s)"
    using assms True c by (auto simp: redirect_reply_def IssueAuthCode_ok AddAuthCode_def Let_def vs_def frame_simps authorize_request_def)
  then show ?thesis using True
    by (intro exI [of _ "''code''"] exI [of _ code] exI [of _ vs]) (auto simp: vs_def gomap_ok_def values_get_def authorize_request_def)
next
  case False
  then obtain err where e: "IssueAuthCode (authorize_request r) (rd_random rd) (rd_now1 rd) s = (Returns (Inl err), s)"
    using IssueAuthCode_refused by blast
  define vs where "vs = (if snd (MapAuthorizeError err) \<noteq> [] then [(''error_description'', snd (MapAuthorizeError err))] else [])
    @ (if ar_State (authorize_request r) \<noteq> [] then [(''state'', ar_State (authorize_request r))] else [])"
  have "w' = http_Redirect ((query_of r ''redirect_uri'') @ ''?'' @ values_encode ((''error'', fst (MapAuthorizeError err)) # vs)) 302 w"
      "authCodes s' = authCodes s"
    using assms e by (auto simp: redirect_reply_def Let_def vs_def error_params_def frame_simps authorize_request_def)
  moreover have "fst (MapAuthorizeError err) \<noteq> []" by (simp add: MapAuthorizeError_def)
  ultimately show ?thesis using False
    by (intro exI [of _ "''error''"] exI [of _ "fst (MapAuthorizeError err)"] exI [of _ vs])
      (auto simp: vs_def gomap_ok_def values_get_def authorize_request_def)
qed

lemma authorize_location_code:
  assumes "HandleAuthorize rd r w s = (Returns w', s')" and "status w = None"
    and "may_redirect r (OAuthProxy (cfg s))" and "plain_redirect (query_of r ''redirect_uri'')"
    and "authorize_ok (authorize_request r) (OAuthProxy (cfg s))"
  shows "map_of (authCodes s') (location_param w' ''code'') =
    Some (code_for (authorize_request r) (rd_now1 rd) (OAuthProxy (cfg s)))"
proof -
  have reply: "redirect_reply rd r w s = (Returns w', s')" using assms(1,3) by (simp add: HandleAuthorize_redirects)
  obtain k v vs where sh: "w' = http_Redirect (query_of r ''redirect_uri'' @ ''?'' @ values_encode ((k, v) # vs)) 302 w"
      "gomap_ok ((k, v) # vs)" "length vs < 100"
      "map_of (authCodes s') (values_get ((k, v) # vs) ''code'') =
        Some (code_for (authorize_request r) (rd_now1 rd) (OAuthProxy (cfg s)))"
    using redirect_reply_shape [OF reply] assms(5) by auto
  have "IsAllowedRedirect (query_of r ''redirect_uri'')" using assms(3) by (simp add: may_redirect_def)
  from location_param_redirect [OF this assms(4) sh(2,3) assms(2)] sh(1,4) show ?thesis by simp
qed

lemma HandleAuthorize_frame:
  assumes "HandleAuthorize rd r w s = (x, s')"
  shows "cfg s' = cfg s \<and> store s' = store s \<and> store_state s' = store_state s \<and> accessTokens s' = accessTokens s"
proof (cases "may_redirect r (OAuthProxy (cfg s))")
  case True
  obtain y s1 where i: "IssueAuthCode (authorize_request r) (rd_random rd) (rd_now1 rd) s = (y, s1)" by fastforce
  then have "s' = s1 \<or> (\<exists>ev f. s' = auditLog (rd_stamp rd) r ev f s1)"
    using assms True by (auto simp: HandleAuthorize_redirects redirect_reply_def Let_def split: run.splits sum.splits)
  moreover have "cfg s1 = cfg s \<and> store s1 = store s \<and> store_state s1 = store_state s \<and> accessTokens s1 = accessTokens s"
    using i by (auto simp: IssueAuthCode_def AddAuthCode_def Let_def split: if_splits sum.splits)
  ultimately show ?thesis by (auto simp: frame_simps)
next
  case False
  then show ?thesis using assms
    by (auto simp: HandleAuthorize_def may_redirect_def source_allowed_def query_of_def Let_def frame_simps split: if_splits)
qed

text \<open>
  C15. The client gets its code. When the request is in order and the random source works, a
  client with a redirect URI of ASCII characters without query and fragment, parsing the
  \<^verbatim>\<open>Location\<close> it is sent to, finds the same URI, its state, and a code that the service has
  stored with the data of the request. When the request is refused, it finds no code but the
  error and its state.
\<close>

theorem authorize_redirect_roundtrip:
  assumes "HandleAuthorize rd r w s = (Returns w', s')" and "status w = None"
    and "may_redirect r (OAuthProxy (cfg s))" and "plain_redirect (query_of r ''redirect_uri'')"
  shows "\<exists>u u'. url_parse (query_of r ''redirect_uri'') = Some u \<and>
    url_parse (header_get (resp_headers w') ''Location'') = Some u' \<and> u'\<lparr>url_raw_query := url_raw_query u\<rparr> = u \<and>
    location_param w' ''state'' = query_of r ''state'' \<and>
    (if authorize_ok (authorize_request r) (OAuthProxy (cfg s))
     then map_of (authCodes s') (location_param w' ''code'') =
       Some (code_for (authorize_request r) (rd_now1 rd) (OAuthProxy (cfg s))) \<and> location_param w' ''error'' = []
     else location_param w' ''code'' = [] \<and> location_param w' ''error'' \<noteq> [] \<and> authCodes s' = authCodes s)"
proof -
  let ?uri = "query_of r ''redirect_uri''" and ?req = "authorize_request r"
  have allowed: "IsAllowedRedirect ?uri" using assms(3) by (simp add: may_redirect_def)
  have parts: "ascii ?uri" "CHR ''?'' \<notin> set ?uri" "CHR ''#'' \<notin> set ?uri" using assms(4) by (simp_all add: plain_redirect_def)
  have reply: "redirect_reply rd r w s = (Returns w', s')" using assms(1,3) by (simp add: HandleAuthorize_redirects)
  obtain k v vs where sh: "w' = http_Redirect (?uri @ ''?'' @ values_encode ((k, v) # vs)) 302 w"
      "gomap_ok ((k, v) # vs)" "length vs < 100" "values_get ((k, v) # vs) ''state'' = query_of r ''state''"
      "if authorize_ok ?req (OAuthProxy (cfg s))
       then map_of (authCodes s') (values_get ((k, v) # vs) ''code'') =
         Some (code_for ?req (rd_now1 rd) (OAuthProxy (cfg s))) \<and> values_get ((k, v) # vs) ''error'' = []
       else values_get ((k, v) # vs) ''code'' = [] \<and> values_get ((k, v) # vs) ''error'' \<noteq> [] \<and> authCodes s' = authCodes s"
    using redirect_reply_shape [OF reply] by blast
  have lp: "location_param w' x = values_get ((k, v) # vs) x" for x
    unfolding sh(1) by (rule location_param_redirect [OF allowed assms(4) sh(2,3) assms(2)])
  obtain u where u: "url_parse ?uri = Some u"
      "url_parse (header_get (resp_headers w') ''Location'') = Some (u\<lparr>url_raw_query := values_encode ((k, v) # vs)\<rparr>)"
    using redirect_readable [OF allowed parts sh(2,3)] sh(1) assms(2) by auto
  show ?thesis
  proof (intro exI conjI)
    show "url_parse ?uri = Some u" "url_parse (header_get (resp_headers w') ''Location'') =
      Some (u\<lparr>url_raw_query := values_encode ((k, v) # vs)\<rparr>)" by (rule u)+
  qed (use sh(4,5) lp in simp_all)
qed

lemma sample_plain_redirect: "plain_redirect ''https://claude.ai/cb''"
  by (simp add: plain_redirect_def ascii_def)

lemma authorize_redirect_roundtrip_witness:
  "\<exists>w' s'. HandleAuthorize sample_readings sample_authorize_http fresh_response sample_service = (Returns w', s') \<and>
    location_param w' ''state'' = ''xyz'' \<and>
    map_of (authCodes s') (location_param w' ''code'') = Some (code_for sample_authorize 0 sample_oauth)"
proof -
  obtain w' s' where h: "HandleAuthorize sample_readings sample_authorize_http fresh_response sample_service = (Returns w', s')"
    using sample_authorize_runs by blast
  have "query_of sample_authorize_http ''state'' = ''xyz''"
    using sample_query(1) by (simp add: authorize_request_def sample_authorize_def)
  then show ?thesis
    using authorize_redirect_roundtrip [OF h] h sample_authorized sample_plain_redirect
    by (auto simp: sample_may_redirect sample_query fresh_response_def sample_readings_def)
qed

text \<open>A redirect URI with a query of its own.\<close>

lemma parse_query_second_question:
  assumes "q = ''x=1?'' @ encode_pair kv @ (if v = [] then [] else ''&'' @ encode_pair (''state'', v))"
  shows "values_get (fst (parse_query q)) ''code'' = []"
proof -
  have amp: "CHR ''&'' \<notin> set (encode_pair p)" for p using query_escape_excludes by (simp add: encode_pair_def)
  define p0 where "p0 = ''x=1?'' @ encode_pair kv"
  have "CHR ''&'' \<notin> set p0" using amp by (simp add: p0_def)
  then have "split_on CHR ''&'' (join_with ''&'' (p0 # (if v = [] then [] else [encode_pair (''state'', v)]))) =
      p0 # (if v = [] then [] else [encode_pair (''state'', v)])"
    using amp by (intro split_join) (auto split: if_splits)
  moreover have "join_with ''&'' (p0 # (if v = [] then [] else [encode_pair (''state'', v)])) = q"
    by (simp add: assms p0_def)
  ultimately have sp: "split_on CHR ''&'' q = p0 # (if v = [] then [] else [encode_pair (''state'', v)])" by simp
  have "parse_part p0 = PartBad \<or> (\<exists>y. parse_part p0 = PartPair ''x'' y)"
    by (auto simp: parse_part_def p0_def cut_at_def split: option.split)
  then show ?thesis
    by (auto simp: parse_query_def sp values_get_def max_query_params_def parse_part_encode_pair)
qed

text \<open>
  C40. A redirect URI with a query loses the code. The allowlist accepts
  \<^verbatim>\<open>https://claude.ai/cb?x=1\<close>, and the redirect appends a second question mark: a client that
  parses the \<^verbatim>\<open>Location\<close> finds no \<^verbatim>\<open>code\<close> parameter, although a code was issued.
\<close>

theorem redirect_with_query_loses_code:
  assumes "may_redirect r (OAuthProxy (cfg s))" and "authorize_ok (authorize_request r) (OAuthProxy (cfg s))"
    and "query_of r ''redirect_uri'' = ''https://claude.ai/cb'' @ ''?'' @ ''x=1''"
    and "GenerateRandomString 32 (rd_random rd) = Inr code" and "status w = None"
    and "HandleAuthorize rd r w s = (Returns w', s')"
  shows "map_of (authCodes s') code \<noteq> None \<and> location_param w' ''code'' = []"
proof -
  define st where "st = query_of r ''state''"
  define E where "E = encode_pair (''code'', code) @ (if st = [] then [] else ''&'' @ encode_pair (''state'', st))"
  have "sort_key fst ([(''code'', code)] @ (if st \<noteq> [] then [(''state'', st)] else [])) =
      [(''code'', code)] @ (if st \<noteq> [] then [(''state'', st)] else [])"
    by (simp add: less_char_def)
  then have enc: "values_encode ([(''code'', code)] @ (if st \<noteq> [] then [(''state'', st)] else [])) = E"
    by (simp add: values_encode_def E_def)
  have loc: "w' = http_Redirect ((''https://claude.ai/cb'' @ ''?'' @ ''x=1'') @ ''?'' @ E) 302 w" and stored: "map_of (authCodes s') code \<noteq> None"
    using assms enc by (auto simp: HandleAuthorize_redirects redirect_reply_def IssueAuthCode_ok AddAuthCode_def
        authorize_request_def st_def frame_simps Let_def simp del: append.simps)
  have w': "w' = http_Redirect (''https://claude.ai/cb'' @ ''?'' @ ''x=1?'' @ E) 302 w" using loc by simp
  obtain u where u: "url_parse ''https://claude.ai/cb'' = Some u" "url_scheme u = ''https''"
    using redirect_example by (auto simp: IsAllowedRedirect_eq)
  have E: "E = values_encode ((''code'', code) # (if st \<noteq> [] then [(''state'', st)] else []))" using enc by simp
  have "url_parse (''https://claude.ai/cb'' @ ''?'' @ (''x=1?'' @ E)) = Some (u\<lparr>url_raw_query := ''x=1?'' @ E\<rparr>)"
  proof (rule url_parse_add_query [OF u(1)])
    show "last (''x=1?'' @ E) \<noteq> CHR ''?''" "CHR ''#'' \<notin> set (''x=1?'' @ E)" "\<not> has_ctl_byte (''x=1?'' @ E)"
      using values_encode_clean values_encode_Cons values_encode_last unfolding E
      by (simp_all add: has_ctl_byte_def)
  qed (use u in simp_all)
  moreover have "ascii (''https://claude.ai/cb'' @ ''?'' @ ''x=1?'' @ E)"
    using values_encode_ascii unfolding E by (simp add: ascii_def)
  ultimately have "location_param w' ''code'' = values_get (fst (parse_query (''x=1?'' @ E))) ''code''"
    using assms(5) by (simp only: w' location_param_def http_Redirect_location hex_escape_ascii option.case) simp
  moreover have "values_get (fst (parse_query (''x=1?'' @ E))) ''code'' = []"
    by (rule parse_query_second_question [where v = st]) (simp add: E_def)
  ultimately show ?thesis using stored by simp
qed

definition query_redirect_http :: request where
  "query_redirect_http = sample_authorize_http\<lparr>URL_RawQuery := values_encode [(''client_id'', ''me''),
     (''code_challenge'', sample_challenge), (''code_challenge_method'', ''S256''),
     (''redirect_uri'', ''https://claude.ai/cb'' @ ''?'' @ ''x=1''), (''response_type'', ''code''), (''state'', ''xyz'')]\<rparr>"

lemma query_redirect_request:
  "query_of query_redirect_http ''redirect_uri'' = ''https://claude.ai/cb'' @ ''?'' @ ''x=1''"
  "may_redirect query_redirect_http sample_oauth" "authorize_ok (authorize_request query_redirect_http) sample_oauth"
proof -
  define vs where "vs = [(''client_id'', ''me''), (''code_challenge'', sample_challenge),
       (''code_challenge_method'', ''S256''), (''redirect_uri'', ''https://claude.ai/cb'' @ ''?'' @ ''x=1''),
       (''response_type'', ''code''), (''state'', ''xyz'')]"
  have raw: "URL_RawQuery query_redirect_http = values_encode vs" by (simp add: query_redirect_http_def vs_def)
  have "parse_query (values_encode vs) = (sort_key fst vs, False)"
    by (rule parse_query_values_encode) (simp_all add: vs_def max_query_params_def)
  moreover have "gomap_ok vs" by (simp add: vs_def gomap_ok_def)
  ultimately have q: "query_of query_redirect_http k = values_get vs k" for k
    using raw by (simp add: query_of_def values_get_def map_of_sort_key)
  show uri: "query_of query_redirect_http ''redirect_uri'' = ''https://claude.ai/cb'' @ ''?'' @ ''x=1''"
    by (simp add: q vs_def values_get_def)
  obtain u where u: "url_parse ''https://claude.ai/cb'' = Some u" "url_scheme u = ''https''"
      "allowed_host (to_lower (hostname u))"
    using redirect_example by (auto simp: IsAllowedRedirect_eq)
  have "url_parse (''https://claude.ai/cb'' @ ''?'' @ ''x=1'') = Some (u\<lparr>url_raw_query := ''x=1''\<rparr>)"
    by (rule url_parse_add_query [OF u(1)]) (use u in \<open>simp_all add: has_ctl_byte_def\<close>)
  then have "IsAllowedRedirect (''https://claude.ai/cb'' @ ''?'' @ ''x=1'')"
    using u by (simp add: IsAllowedRedirect_eq hostname_def)
  moreover have "source_allowed query_redirect_http sample_oauth"
  proof -
    have "RemoteAddr query_redirect_http = RemoteAddr sample_authorize_http" "Header query_redirect_http = Header sample_authorize_http"
      by (simp_all add: query_redirect_http_def)
    then have "GetRequestInfo query_redirect_http tps = GetRequestInfo sample_authorize_http tps" for tps
      by (simp only: GetRequestInfo_def)
    then show ?thesis using sample_source by (simp add: source_allowed_def)
  qed
  ultimately show "may_redirect query_redirect_http sample_oauth"
      "authorize_ok (authorize_request query_redirect_http) sample_oauth"
    by (simp_all add: may_redirect_def authorize_ok_def authorize_request_def q vs_def values_get_def pkce_form_def)
      (simp_all add: query_redirect_http_def sample_authorize_http_def sample_oauth_def)
qed

lemma redirect_with_query_loses_code_witness:
  "\<exists>w' s'. HandleAuthorize sample_readings query_redirect_http fresh_response sample_service = (Returns w', s') \<and>
    status w' = Some 302 \<and> map_of (authCodes s') sample_token \<noteq> None \<and> location_param w' ''code'' = []"
proof -
  have "\<exists>w' s'. HandleAuthorize sample_readings query_redirect_http fresh_response sample_service = (Returns w', s') \<and>
      status w' = Some 302"
    by (simp add: HandleAuthorize_redirects query_redirect_request redirect_reply_def IssueAuthCode_ok sample_readings_def Let_def
        fresh_response_def)
  then obtain w' s' where h: "HandleAuthorize sample_readings query_redirect_http fresh_response sample_service = (Returns w', s')"
      "status w' = Some 302" by blast
  have "map_of (authCodes s') sample_token \<noteq> None \<and> location_param w' ''code'' = []"
    by (rule redirect_with_query_loses_code [OF _ _ _ _ _ h(1)])
      (use query_redirect_request in \<open>simp_all add: sample_readings_def\<close>)
  with h show ?thesis by blast
qed

subsection \<open>The token endpoint\<close>

definition token_request :: "url_values \<Rightarrow> TokenExchangeRequest" where
  "token_request form = \<lparr>tr_GrantType = FormValue form ''grant_type'', tr_ClientID = FormValue form ''client_id'',
     tr_ClientSecret = FormValue form ''client_secret'', tr_RedirectURI = FormValue form ''redirect_uri'',
     tr_Code = FormValue form ''code'', tr_CodeVerifier = FormValue form ''code_verifier''\<rparr>"

lemma HandleToken_form:
  assumes "Method r = ''POST''" and "ParseForm r = Some form"
  shows "HandleToken rd r w s =
    (case ExchangeToken (token_request form) (rd_random rd) (rd_now1 rd) (rd_now2 rd) (rd_store rd) s of
       (Panics e, s1) \<Rightarrow> (Panics e, s1)
     | (Returns (Inl err), s1) \<Rightarrow>
         (Returns (writeTokenError (fst (MapTokenError err)) [] (snd (MapTokenError err)) w),
          count_token_rejected (auditLog (rd_stamp rd) r ''token_rejected'' [(''reason'', AStr err)] s1))
     | (Returns (Inr resp), s1) \<Rightarrow>
         (Returns (encode_reply (token_response_json resp) (set_header ''Content-Type'' ''application/json'' w)),
          auditLog (rd_stamp rd) r ''token_issued'' [(''pkce'', ABool (tr_CodeVerifier (token_request form) \<noteq> []))] s1))"
  using assms by (simp add: HandleToken_def token_request_def Let_def split: prod.split run.split sum.split)

lemma writeTokenError_simps [simp]:
  "status w = None \<Longrightarrow> status (writeTokenError e d c w) = Some c"
  "resp_body (writeTokenError e [] c w) = resp_body w @ json_encode (JObj [(''error'', JStr e)]) @ [CHR 0x0A]"
  by (simp_all add: writeTokenError_def json_map_def)


text \<open>The sample client redeems its code.\<close>

definition form_request :: "url_values \<Rightarrow> request" where
  "form_request vs = \<lparr>Method = ''POST'', RemoteAddr = ''127.0.0.1:5000'',
     Header = [(''Content-Type'', [''application/x-www-form-urlencoded''])], URL_Path = ''/token'', URL_RawPath = [],
     URL_RawQuery = [], Body = Inr (values_encode vs), Context = []\<rparr>"

lemma form_request_parses:
  assumes "vs \<noteq> []" and "length vs \<le> max_query_params" and "length (values_encode vs) \<le> max_form_size"
  shows "ParseForm (form_request vs) = Some (sort_key fst vs)"
proof -
  have "parse_query [] = ([], False)" by (simp add: parse_query_def max_query_params_def parse_part_def)
  then show ?thesis
    using assms parse_query_values_encode [OF assms(1,2)] form_media_type
    by (simp add: ParseForm_def parse_post_form_def form_request_def header_get_def)
qed

definition sample_form :: url_values where
  "sample_form = [(''client_id'', ''me''), (''code'', ''c''), (''code_verifier'', ''verifier''),
     (''grant_type'', ''authorization_code''), (''redirect_uri'', ''https://claude.ai/cb'')]"

lemma sample_form_parses: "ParseForm (form_request sample_form) = Some sample_form"
proof -
  have "sort_key fst sample_form = sample_form" by (simp add: sample_form_def less_char_def)
  moreover have "length (values_encode sample_form) = 114" by code_simp
  ultimately show ?thesis
    using form_request_parses [of sample_form] by (simp add: sample_form_def max_query_params_def max_form_size_def)
qed

lemma sample_form_request: "token_request sample_form = sample_exchange"
  by (simp add: token_request_def sample_form_def FormValue_def values_get_def sample_exchange_def)


end
