(* ===== verification/ProxyFacts.thy ===== *)
theory ProxyFacts
  imports Proxy HandlersFacts
begin

text \<open>
  What reaches the backend and what comes back: only admitted requests are sent, to paths under
  the backend's own, with the backend's credentials and without the client's; what the
  anonymous gate lets through; what the tool-list filter keeps; and the whole OAuth flow.
\<close>

subsection \<open>The request that is sent\<close>

text \<open>The request as admitted, with the marker of a tool list; then the one sent on.\<close>

definition admitted :: "int \<Rightarrow> request \<Rightarrow> 's Service \<Rightarrow> request option" where
  "admitted now r s =
    (let auth = header_get (Header r) ''Authorization''; c = OAuthProxy (cfg s) in
     if auth \<noteq> [] then
       (if has_prefix auth ''Bearer '' \<and> ValidateAccessToken (trim_space (trim_prefix auth ''Bearer '')) now s
        then Some r else None)
     else if \<not> cfg_AnonymousEnabled c \<or> Method r \<noteq> ''POST'' then None
     else case Body r of
       Inl e \<Rightarrow> None
     | Inr b \<Rightarrow>
         if length b > anonymousInspectionLimitBytes then None
         else (case anonymousPayloadAllowed b s of
             (True, toolsList, _) \<Rightarrow>
               Some (if toolsList then r\<lparr>Context := WithValue (Context r) anonymousToolsListContextKey (CtxBool True)\<rparr>
                     else r)
           | _ \<Rightarrow> None))"

definition path_ok :: "request \<Rightarrow> bool" where
  "path_ok r \<longleftrightarrow> \<not> contains (URL_Path r) ''@'' \<and> \<not> contains (URL_RawPath r) ''%2e'' \<and>
    \<not> contains (URL_RawPath r) ''%2E'' \<and>
    (path_clean (URL_Path r) = mcpBasePath \<or> has_prefix (path_clean (URL_Path r)) (mcpBasePath @ ''/''))"

definition with_sub_path :: "request \<Rightarrow> request" where
  "with_sub_path r = r\<lparr>Context := appendSubPath (Context r) (trim_prefix (path_clean (URL_Path r)) mcpBasePath)\<rparr>"

definition forwarded :: "int \<Rightarrow> request \<Rightarrow> 's Service \<Rightarrow> backend_request option" where
  "forwarded now r s =
    (case (admitted now r s, backendURL s) of
       (Some r1, Some u) \<Rightarrow> if path_ok r1 then Some (outgoing_request (with_sub_path r1) u s) else None
     | _ \<Rightarrow> None)"

lemma outgoing_auditLog [frame_simps]: "outgoing_request r u (auditLog ts rq ev f s) = outgoing_request r u s"
  by (simp add: outgoing_request_def Director_def Let_def frame_simps)

text \<open>Two backends that answer the request sent alike cannot be told apart.\<close>

lemma proxy_ServeHTTP_cong:
  "b1 (outgoing_request r u s) = b2 (outgoing_request r u s) \<Longrightarrow>
    proxy_ServeHTTP b1 ts r u rw s = proxy_ServeHTTP b2 ts r u rw s"
  by (simp add: proxy_ServeHTTP_def Let_def)

text \<open>What happens when the proxy has answered.\<close>

definition proxy_finish ::
    "proxy_readings \<Rightarrow> request \<Rightarrow> proxyResponseWriter run \<times> 's Service \<Rightarrow> response run \<times> 's Service" where
  "proxy_finish rd r1 res =
    (case res of
       (Panics e, s1) \<Rightarrow> (Panics e, s1)
     | (Returns rw, s1) \<Rightarrow>
         (let s2 = s1\<lparr>observed := (observed s1)\<lparr>metrics := (metrics (observed s1))
                \<lparr>ProxyRequestsTotal := Inc (ProxyRequestsTotal (metrics (observed s1)))\<rparr>\<rparr>\<rparr>
          in (Returns (rw_inner rw), auditLog (rd_stamp_hit rd) r1 ''proxy_hit''
                [(''path'', AStr (path_clean (URL_Path r1))), (''method'', AStr (Method r1)),
                 (''status'', AInt (int (statusCode rw))), (''duration_ms'', AInt (rd_duration rd)),
                 (''client_id'', AStr (cfg_ClientID (OAuthProxy (cfg s2))))] s2)))"

lemma with_sub_path_frame [simp]: "URL_Path (with_sub_path r) = URL_Path r" "Method (with_sub_path r) = Method r"
  "Header (with_sub_path r) = Header r" "Body (with_sub_path r) = Body r"
  by (simp_all add: with_sub_path_def)

lemma proxy_admitted_ok:
  assumes "path_ok r" and "backendURL s = Some u"
  shows "proxy_admitted b rd r w s =
    proxy_finish rd (with_sub_path r)
      (proxy_ServeHTTP b (rd_stamp_error rd) (with_sub_path r) u \<lparr>rw_inner = w, statusCode = 0\<rparr> s)"
proof -
  have n1: "(contains (URL_Path r) ''@'' \<or> contains (URL_RawPath r) ''%2e'' \<or> contains (URL_RawPath r) ''%2E'') = False"
    and n2: "(path_clean (URL_Path r) \<noteq> mcpBasePath \<and> \<not> has_prefix (path_clean (URL_Path r)) (mcpBasePath @ ''/'')) = False"
    using assms(1) by (auto simp: path_ok_def)
  show ?thesis
    unfolding proxy_admitted_def Let_def proxy_finish_def n1 n2 if_False assms(2) option.case with_sub_path_frame
      with_sub_path_def [symmetric] by (rule refl)
qed

lemma proxy_admitted_not_ok:
  "\<not> path_ok r \<Longrightarrow> \<exists>w' s'. (\<forall>b. proxy_admitted b rd r w s = (Returns w', s')) \<and>
    (status w = None \<longrightarrow> status w' \<in> {Some 400, Some 404})"
  by (cases "contains (URL_Path r) ''@'' \<or> contains (URL_RawPath r) ''%2e'' \<or> contains (URL_RawPath r) ''%2E''")
    (auto simp: proxy_admitted_def path_ok_def Let_def)

lemma proxy_admitted_no_backend:
  "path_ok r \<Longrightarrow> backendURL s = None \<Longrightarrow> \<exists>w' s'. (\<forall>b. proxy_admitted b rd r w s = (Returns w', s')) \<and>
    (status w = None \<longrightarrow> status w' = Some 503)"
  by (auto simp: proxy_admitted_def path_ok_def Let_def)

lemma unauthorized_status: "status w = None \<Longrightarrow> status (unauthorized d w s) = Some 401"
  by (simp add: unauthorized_def)

lemma allowAnonymous_frame:
  "allowAnonymousMCPRequest ts r w s = (g, s1) \<Longrightarrow> cfg s1 = cfg s \<and> backendURL s1 = backendURL s \<and>
    (\<forall>lst r1 w1. g = Allowed lst r1 w1 \<longrightarrow> w1 = w \<and> r1 = r) \<and>
    (\<forall>w1. g = Refused w1 \<longrightarrow> status w = None \<longrightarrow> status w1 \<in> {Some 400, Some 403, Some 405})"
  by (auto simp: allowAnonymousMCPRequest_def read_limited_def Let_def frame_simps set_header_def
      split: if_splits prod.splits sum.splits)

lemma admitted_anonymous:
  assumes "header_get (Header r) ''Authorization'' = []" and "cfg_AnonymousEnabled (OAuthProxy (cfg s))"
    and "allowAnonymousMCPRequest ts r w s = (g, s1)"
  shows "admitted now r s = (case g of Refused w1 \<Rightarrow> None
    | Allowed lst r1 w1 \<Rightarrow> Some (if lst then r\<lparr>Context := WithValue (Context r) anonymousToolsListContextKey (CtxBool True)\<rparr> else r))"
  using assms
  by (auto simp: admitted_def allowAnonymousMCPRequest_def read_limited_def Let_def
      split: if_splits prod.splits sum.splits bool.splits)

lemma HandleProxy_refused:
  assumes "admitted (Unix (rd_now1 rd)) r s = None"
  shows "\<exists>w' s'. (\<forall>b. HandleProxy b rd r w s = (Returns w', s')) \<and>
    (status w = None \<longrightarrow> status w' \<in> {Some 400, Some 401, Some 403, Some 405})"
proof (cases "header_get (Header r) ''Authorization'' = [] \<and> cfg_AnonymousEnabled (OAuthProxy (cfg s))")
  case True
  obtain g s1 where g: "allowAnonymousMCPRequest (rd_stamp rd) r w s = (g, s1)" by fastforce
  from admitted_anonymous [OF _ _ g] True assms obtain w1 where "g = Refused w1" by (cases g) auto
  with True g allowAnonymous_frame [OF g] show ?thesis by (auto simp: HandleProxy_def)
next
  case False
  then show ?thesis using assms
    by (cases "has_prefix (header_get (Header r) ''Authorization'') ''Bearer ''")
      (auto simp: HandleProxy_def admitted_def Let_def unauthorized_status split: if_splits)
qed

lemma HandleProxy_admitted:
  assumes "admitted (Unix (rd_now1 rd)) r s = Some r1"
  shows "\<exists>s1. (\<forall>b. HandleProxy b rd r w s = proxy_admitted b rd r1 w s1) \<and> cfg s1 = cfg s \<and> backendURL s1 = backendURL s"
proof (cases "header_get (Header r) ''Authorization'' = []")
  case True
  then have an: "cfg_AnonymousEnabled (OAuthProxy (cfg s))" using assms by (auto simp: admitted_def Let_def split: if_splits)
  obtain g s1 where g: "allowAnonymousMCPRequest (rd_stamp rd) r w s = (g, s1)" by fastforce
  from admitted_anonymous [OF True an g] assms obtain lst r0 w1 where a: "g = Allowed lst r0 w1" by (cases g) auto
  have "w1 = w" "r0 = r" "cfg s1 = cfg s" "backendURL s1 = backendURL s"
    using allowAnonymous_frame [OF g] a by auto
  then show ?thesis using admitted_anonymous [OF True an g] assms a g True an
    by (intro exI [of _ s1]) (auto simp: HandleProxy_def Let_def)
next
  case False
  then show ?thesis using assms
    by (intro exI [of _ s]) (auto simp: HandleProxy_def admitted_def Let_def split: if_splits)
qed

lemma outgoing_cong: "cfg s1 = cfg s \<Longrightarrow> outgoing_request r u s1 = outgoing_request r u s"
  by (simp add: outgoing_request_def Director_def Let_def)

lemma HandleProxy_forwards:
  assumes "status w = None"
  shows "case forwarded (Unix (rd_now1 rd)) r s of
     None \<Rightarrow> (\<exists>w' s'. (\<forall>b. HandleProxy b rd r w s = (Returns w', s')) \<and>
       status w' \<in> {Some 400, Some 401, Some 403, Some 404, Some 405, Some 503})
   | Some out \<Rightarrow> (\<exists>f. \<forall>b. HandleProxy b rd r w s = f (b out))"
proof (cases "admitted (Unix (rd_now1 rd)) r s")
  case None
  from HandleProxy_refused [OF None, of w] assms obtain w' s' where
    "\<And>b. HandleProxy b rd r w s = (Returns w', s')" "status w' \<in> {Some 400, Some 401, Some 403, Some 405}" by blast
  then show ?thesis using None by (auto simp: forwarded_def)
next
  case (Some r1)
  from HandleProxy_admitted [OF Some, of w] obtain s1 where
    h: "\<And>b. HandleProxy b rd r w s = proxy_admitted b rd r1 w s1" "cfg s1 = cfg s" "backendURL s1 = backendURL s"
    by blast
  consider (bad) "\<not> path_ok r1" | (none) "path_ok r1" "backendURL s = None" | (ok) u where "path_ok r1" "backendURL s = Some u"
    by blast
  then show ?thesis
  proof cases
    case bad
    from proxy_admitted_not_ok [OF bad, of rd w s1] obtain w' s' where
      "\<And>b. proxy_admitted b rd r1 w s1 = (Returns w', s')" "status w' \<in> {Some 400, Some 404}" using assms by blast
    then show ?thesis using Some bad h(1) by (auto simp: forwarded_def split: option.split)
  next
    case none
    from proxy_admitted_no_backend [OF none(1), of s1 rd w] h(3) none(2) obtain w' s' where
      "\<And>b. proxy_admitted b rd r1 w s1 = (Returns w', s')" "status w' = Some 503" using assms by auto
    then show ?thesis using Some none h(1) by (auto simp: forwarded_def split: option.split)
  next
    case ok
    let ?out = "outgoing_request (with_sub_path r1) u s"
    have f: "forwarded (Unix (rd_now1 rd)) r s = Some ?out" using Some ok by (simp add: forwarded_def)
    have "HandleProxy b rd r w s = HandleProxy (\<lambda>_. b ?out) rd r w s" for b
    proof -
      have "proxy_ServeHTTP b ts (with_sub_path r1) u rw s1 = proxy_ServeHTTP (\<lambda>_. b ?out) ts (with_sub_path r1) u rw s1" for ts rw
        by (rule proxy_ServeHTTP_cong) (simp add: outgoing_cong [OF h(2)])
      then show ?thesis using h ok by (simp add: proxy_admitted_ok)
    qed
    then have "\<forall>b. HandleProxy b rd r w s = (\<lambda>x. HandleProxy (\<lambda>_. x) rd r w s) (b ?out)" by simp
    then show ?thesis unfolding f option.case by (rule exI [of _ "\<lambda>x. HandleProxy (\<lambda>_. x) rd r w s"])
  qed
qed

text \<open>
  C13. The only request that can reach the backend. Either \<^verbatim>\<open>HandleProxy\<close> answers without
  consulting the backend, with a status from 400, 401, 403, 404, 405 and 503, or there is exactly
  one request, fixed by the incoming one and the service, such that the whole outcome depends on
  the backend only through its answer to that request.
\<close>

theorem backend_sees_only_forwarded:
  assumes "status w = None"
  shows "case forwarded (Unix (rd_now1 rd)) r s of
     None \<Rightarrow> (\<exists>w' s'. (\<forall>b. HandleProxy b rd r w s = (Returns w', s')) \<and>
       status w' \<in> {Some 400, Some 401, Some 403, Some 404, Some 405, Some 503})
   | Some out \<Rightarrow> (\<exists>f. \<forall>b. HandleProxy b rd r w s = f (b out))"
  by (rule HandleProxy_forwards [OF assms])

subsection \<open>Where it goes and what it carries\<close>

lemma path_clean_slash:
  assumes "take 1 (path_clean p) = ''/''"
  shows "take 1 p = ''/''"
proof (rule ccontr)
  assume n: "take 1 p \<noteq> ''/''"
  let ?es = "clean_elems False (split_on CHR ''/'' p)"
  have noslash: "e = ''..'' \<or> e \<in> set (split_on CHR ''/'' p) \<and> e \<noteq> []" if "e \<in> set (foldl (clean_step False) acc es)"
    "\<And>e. e \<in> set acc \<Longrightarrow> e = ''..'' \<or> e \<in> set (split_on CHR ''/'' p) \<and> e \<noteq> []" "set es \<subseteq> set (split_on CHR ''/'' p)"
    for e es and acc :: "string list"
    using that
  proof (induction es arbitrary: acc)
    case (Cons x es)
    show ?case
    proof (rule Cons.IH)
      show "e \<in> set (foldl (clean_step False) (clean_step False acc x) es)" using Cons.prems(1) by simp
      show "set es \<subseteq> set (split_on CHR ''/'' p)" using Cons.prems(3) by simp
      show "y = ''..'' \<or> y \<in> set (split_on CHR ''/'' p) \<and> y \<noteq> []" if "y \<in> set (clean_step False acc x)" for y
        using that Cons.prems(2,3) by (auto simp: clean_step_def dest: in_set_butlastD split: if_splits)
    qed
  qed simp
  have es: "e \<noteq> [] \<and> CHR ''/'' \<notin> set e" if "e \<in> set ?es" for e
    using noslash [of e "[]" "split_on CHR ''/'' p"] that split_on_no_sep [of e "CHR ''/''" p]
    by (auto simp: clean_elems_def)
  have "take 1 (join_with ''/'' ?es) \<noteq> ''/''"
  proof (cases ?es)
    case (Cons e rest)
    then have "e \<noteq> []" "CHR ''/'' \<notin> set e" using es by auto
    then show ?thesis unfolding Cons by (cases e; cases rest) auto
  qed simp
  with assms n show False by (auto simp: path_clean_def Let_def split: if_splits)
qed

lemma join_with_Cons: "join_with sep (e # es) = e @ concat (map (\<lambda>x. sep @ x) es)"
proof (induction es arbitrary: e)
  case (Cons x es)
  then show ?case by (simp)
qed simp

lemma path_ok_sub_path:
  assumes "path_ok r"
  obtains es where "list_all plain_elem es"
    and "trim_prefix (path_clean (URL_Path r)) mcpBasePath = concat (map (\<lambda>e. ''/'' @ e) es)"
proof -
  let ?c = "path_clean (URL_Path r)"
  have c: "?c = ''/mcp'' \<or> (\<exists>t. ?c = ''/mcp/'' @ t)"
    using assms by (auto simp: path_ok_def mcpBasePath_def has_prefix_iff)
  then have "take 1 ?c = ''/''" by auto
  then have "take 1 (URL_Path r) = ''/''" by (rule path_clean_slash)
  then obtain es where es: "?c = CHR ''/'' # join_with ''/'' es" "list_all plain_elem es" by (rule path_clean_rooted)
  have ne: "es \<noteq> []" using es(1) c by auto
  then obtain e es' where e: "es = e # es'" by (cases es) auto
  have cc: "?c = ''/'' @ e @ concat (map (\<lambda>x. ''/'' @ x) es')" using es(1) e by (simp add: join_with_Cons)
  have "CHR ''/'' \<notin> set e" using es(2) e by (simp add: plain_elem_def)
  then have "takeWhile (\<lambda>x. x \<noteq> CHR ''/'') (tl ?c) = e"
    using cc by (cases es') (simp_all add: takeWhile_neq_all)
  moreover have "takeWhile (\<lambda>x. x \<noteq> CHR ''/'') (tl ?c) = ''mcp''" using c by auto
  ultimately have "e = ''mcp''" by simp
  then have tp: "trim_prefix ?c mcpBasePath = concat (map (\<lambda>e. ''/'' @ e) es')"
  proof -
    have "''/'' @ ''mcp'' @ x = ''/mcp'' @ x" for x :: string by simp
    then show ?thesis unfolding cc mcpBasePath_def \<open>e = ''mcp''\<close> by (simp only: trim_prefix_append)
  qed
  have "list_all plain_elem es'" using es(2) e by simp
  then show ?thesis using tp by (rule that)
qed


lemma header_values_simps:
  "header_values (header_set h k v) k' = (if k' = k then [v] else header_values h k')"
  "header_values (header_del h k) k' = (if k' = k then [] else header_values h k')"
  "header_values (AList.update k vs h) k' = (if k' = k then vs else header_values h k')"
  by (simp_all add: header_values_def header_set_def header_del_def update_conv' delete_conv' split: option.split)

lemma header_values_foldl_del:
  "header_values (foldl header_del h ks) k = (if k \<in> set ks then [] else header_values h k)"
  by (induction ks arbitrary: h) (auto simp: header_values_simps)

lemma outgoing_header_values:
  "header_values (outgoing_header inbound h) k =
    (if k = ''Te'' then (if te_trailers inbound then [''trailers''] else [])
     else if k = ''Proxy-Connection'' \<or> k \<in> set hopByHopHeaders then []
     else if k = ''User-Agent'' \<and> map_of h ''User-Agent'' = None then [[]]
     else header_values h k)"
proof -
  have m: "map_of (foldl header_del g ks) x = (if x \<in> set ks then None else map_of g x)" for g ks x
    by (induction ks arbitrary: g) (auto simp: header_del_def delete_conv')
  have mem: "''Te'' \<in> set hopByHopHeaders" "''User-Agent'' \<notin> set hopByHopHeaders"
    by (simp_all add: hopByHopHeaders_def)
  have m2: "map_of (header_del g x) y = (if y = x then None else map_of g y)"
    "map_of (header_set g x v) y = (if y = x then Some [v] else map_of g y)" for g x y v
    by (simp_all add: header_del_def delete_conv' header_set_def update_conv')
  show ?thesis
    by (auto simp: outgoing_header_def Let_def header_values_simps header_values_foldl_del m m2 mem)
qed

lemma director_header_values:
  "header_values (director_header tok rid h) k =
    (if k = ''X-Request-Id'' then [rid] else if k = ''Authorization'' then [''Bearer '' @ tok]
     else if k \<in> set hopByHopHeaders \<or> k \<in> set [''Forwarded'', ''X-Forwarded-For'', ''X-Forwarded-Host'',
        ''X-Forwarded-Proto'', ''X-Forwarded-Server''] then []
     else header_values h k)"
  by (simp add: director_header_def Let_def header_values_simps header_values_foldl_del hopByHopHeaders_def)

lemma forwarded_headers:
  assumes "forwarded now r s = Some out"
  shows "header_values (out_header out) ''Authorization'' = [''Bearer '' @ cfg_HugoToken (OAuthProxy (cfg s))] \<and>
    header_values (out_header out) ''X-Request-Id'' = [GetRequestID (Context r)] \<and>
    list_all (\<lambda>k. header_values (out_header out) k = []) [''Forwarded'', ''X-Forwarded-For'', ''X-Forwarded-Host'',
      ''X-Forwarded-Proto'', ''X-Forwarded-Server'', ''Connection'', ''Proxy-Connection'', ''Keep-Alive'',
      ''Proxy-Authenticate'', ''Proxy-Authorization'', ''Trailer'', ''Transfer-Encoding'', ''Upgrade''] \<and>
    header_values (out_header out) ''Te'' = (if te_trailers (Header r) then [''trailers''] else []) \<and>
    header_values (out_header out) ''Accept-Encoding'' = header_values (Header r) ''Accept-Encoding'' \<and>
    out_body out = Body r"
proof -
  obtain r1 u where r1: "admitted now r s = Some r1" "out = outgoing_request (with_sub_path r1) u s"
    using assms by (auto simp: forwarded_def split: option.splits if_splits)
  have same: "Header r1 = Header r" "Body r1 = Body r" "GetRequestID (Context r1) = GetRequestID (Context r)"
    using r1(1) by (auto simp: admitted_def Let_def GetRequestID_def WithValue_def
        split: if_splits sum.splits prod.splits bool.splits)
  have ctx: "GetRequestID (Context (with_sub_path r1)) = GetRequestID (Context r1)"
    by (simp add: with_sub_path_def appendSubPath_def GetRequestID_def WithValue_def)
  have h: "header_values (out_header out) k =
      header_values (outgoing_header (Header r) (director_header (cfg_HugoToken (OAuthProxy (cfg s)))
        (GetRequestID (Context r)) (Header r))) k" for k
    by (simp add: r1(2) outgoing_request_def Director_def Let_def same ctx)
  have "out_body out = Body r" by (simp add: r1(2) outgoing_request_def Director_def Let_def same)
  then show ?thesis
    unfolding h outgoing_header_values director_header_values by (simp add: hopByHopHeaders_def)
qed

text \<open>
  C8. Credentials are replaced. A forwarded request carries exactly one \<^verbatim>\<open>Authorization\<close>, with
  the backend's token and nothing of the client's, and the server's own request id; it has none
  of the forwarding headers a client could forge and no hop-by-hop header, except that a client
  that accepts trailers is passed on as one. Every other header is the client's (an absent
  \<^verbatim>\<open>User-Agent\<close> is sent empty), and so is the body.
\<close>

theorem forwarded_credentials:
  assumes "forwarded now r s = Some out"
  shows "header_values (out_header out) ''Authorization'' = [''Bearer '' @ cfg_HugoToken (OAuthProxy (cfg s))] \<and>
    header_values (out_header out) ''X-Request-Id'' = [GetRequestID (Context r)] \<and>
    list_all (\<lambda>k. header_values (out_header out) k = []) [''Forwarded'', ''X-Forwarded-For'', ''X-Forwarded-Host'',
      ''X-Forwarded-Proto'', ''X-Forwarded-Server'', ''Connection'', ''Proxy-Connection'', ''Keep-Alive'',
      ''Proxy-Authenticate'', ''Proxy-Authorization'', ''Trailer'', ''Transfer-Encoding'', ''Upgrade''] \<and>
    header_values (out_header out) ''Te'' = (if te_trailers (Header r) then [''trailers''] else []) \<and>
    header_values (out_header out) ''Accept-Encoding'' = header_values (Header r) ''Accept-Encoding'' \<and>
    out_body out = Body r"
  by (rule forwarded_headers [OF assms])


subsection \<open>The tool-list filter\<close>

text \<open>The tools a reader of a value (or of a batch of values) is offered.\<close>

fun tools_listed :: "json \<Rightarrow> json list" where
  "tools_listed (JArr items) = concat (map tools_listed items)"
| "tools_listed (JObj typed) =
    (case map_of typed ''result'' of
       Some (JObj result) \<Rightarrow> (case map_of result ''tools'' of Some (JArr tools) \<Rightarrow> tools | _ \<Rightarrow> [])
     | _ \<Rightarrow> [])"
| "tools_listed v = []"

definition public_entry :: "(string \<Rightarrow> bool) \<Rightarrow> json \<Rightarrow> bool" where
  "public_entry pub tool =
    (case tool of JObj fs \<Rightarrow> (case map_of fs ''name'' of Some (JStr n) \<Rightarrow> pub n | _ \<Rightarrow> False) | _ \<Rightarrow> False)"

lemma filter_tools_loop_filter: "filter_tools_loop pub ts = filter (public_entry pub) ts"
  by (induction ts) (auto simp: public_entry_def split: json.split option.split)

lemma tools_listed_filter:
  "tools_listed (filterAnonymousToolsListJSON pub v) = filter (public_entry pub) (tools_listed v)"
proof (induction v rule: tools_listed.induct)
  case (1 items)
  then show ?case by (simp add: comp_def filter_concat cong: map_cong)
next
  case (2 typed)
  then show ?case
    by (auto simp: filter_tools_loop_filter split: option.splits json.splits)
qed simp_all

definition public_names :: "'s Service \<Rightarrow> string \<Rightarrow> bool" where
  "public_names s n \<longleftrightarrow> n \<in> set (cfg_AnonymousPublicTools (OAuthProxy (cfg s)))"

lemma isAnonymousPublicTool_names: "(\<lambda>n. isAnonymousPublicTool n s) = public_names s"
  by (simp add: fun_eq_iff isAnonymousPublicTool_def public_names_def anonymous_policy_def)

text \<open>
  C34. The filter of tool lists. If a body is one JSON value, the filtered body is the encoding
  of a value that offers exactly the public tools among those offered, in their order. In any
  other body, each line that begins with \<^verbatim>\<open>data: \<close> and goes on with one JSON value becomes the
  same prefix and the encoding of such a value, and every other line stays. An answer that passes is at
  most one mebibyte and gets the length of the filtered body as its \<^verbatim>\<open>Content-Length\<close>.
\<close>

theorem tools_list_filtered:
  assumes "filterAnonymousToolsListResponse resp s = Inr resp'"
  shows "length (be_body resp) \<le> 1048576 \<and>
    header_values (be_header resp') ''Content-Length'' = [show_nat (length (be_body resp'))] \<and>
    (case unmarshal_interface (be_body resp) of
       Some v \<Rightarrow> (\<exists>v'. be_body resp' = json_encode v' \<and>
         tools_listed v' = filter (public_entry (public_names s)) (tools_listed v))
     | None \<Rightarrow> (\<exists>f. be_body resp' = join_with [CHR 0x0A] (map f (split_on CHR 0x0A (be_body resp))) \<and>
         (\<forall>line. case (has_prefix line ''data: '', unmarshal_interface (drop 6 line)) of
            (True, Some v) \<Rightarrow> (\<exists>v'. f line = ''data: '' @ json_encode v' \<and>
              tools_listed v' = filter (public_entry (public_names s)) (tools_listed v))
          | _ \<Rightarrow> f line = line)))"
proof -
  have len: "length (be_body resp) \<le> anonymousInspectionLimitBytes"
    and r: "be_body resp' = filterAnonymousToolsListBody (be_body resp) s"
      "be_header resp' = header_set (be_header resp) ''Content-Length'' (show_nat (length (be_body resp')))"
    using assms by (auto simp: filterAnonymousToolsListResponse_def Let_def split: if_splits sum.splits)
  have "case unmarshal_interface (be_body resp) of
       Some v \<Rightarrow> (\<exists>v'. be_body resp' = json_encode v' \<and>
         tools_listed v' = filter (public_entry (public_names s)) (tools_listed v))
     | None \<Rightarrow> (\<exists>f. be_body resp' = join_with [CHR 0x0A] (map f (split_on CHR 0x0A (be_body resp))) \<and>
         (\<forall>line. case (has_prefix line ''data: '', unmarshal_interface (drop 6 line)) of
            (True, Some v) \<Rightarrow> (\<exists>v'. f line = ''data: '' @ json_encode v' \<and>
              tools_listed v' = filter (public_entry (public_names s)) (tools_listed v))
          | _ \<Rightarrow> f line = line))"
  proof (cases "unmarshal_interface (be_body resp)")
    case (Some v)
    have "be_body resp' = json_encode (filterAnonymousToolsListJSON (public_names s) v)"
      by (simp add: r(1) filterAnonymousToolsListBody_def Some isAnonymousPublicTool_names)
    then show ?thesis using Some tools_listed_filter by auto
  next
    case None
    have "case (has_prefix line ''data: '', unmarshal_interface (drop 6 line)) of
            (True, Some v) \<Rightarrow> (\<exists>v'. filter_line (public_names s) line = ''data: '' @ json_encode v' \<and>
              tools_listed v' = filter (public_entry (public_names s)) (tools_listed v))
          | _ \<Rightarrow> filter_line (public_names s) line = line" for line
      using tools_listed_filter by (auto simp: filter_line_def split: bool.split option.split)
    moreover have "be_body resp' = join_with [CHR 0x0A] (map (filter_line (public_names s)) (split_on CHR 0x0A (be_body resp)))"
      by (simp add: r(1) filterAnonymousToolsListBody_def None isAnonymousPublicTool_names)
    ultimately show ?thesis unfolding None option.case by blast
  qed
  then show ?thesis using len r(2) by (simp add: anonymousInspectionLimitBytes_def header_values_simps)
qed

text \<open>
Bodies the filter does not look into. A body that is not one JSON value and has no line
  that begins with \<^verbatim>\<open>data: \<close> with the space, such as an event stream written with \<^verbatim>\<open>data:\<close>
  alone or a compressed body, goes to the anonymous client unfiltered.
\<close>

theorem filter_passes_other_bodies:
  assumes "unmarshal_interface body = None"
    and "list_all (\<lambda>line. \<not> has_prefix line ''data: '') (split_on CHR 0x0A body)"
  shows "filterAnonymousToolsListBody body s = body"
proof -
  have "map (filter_line pub) (split_on CHR 0x0A body) = split_on CHR 0x0A body" for pub
    using assms(2) by (auto simp: list_all_iff filter_line_def intro!: map_idI)
  then show ?thesis using assms(1) by (simp add: filterAnonymousToolsListBody_def)
qed

definition private_list :: json where
  "private_list = JObj [(''result'', JObj [(''tools'', JArr [JObj [(''name'', JStr ''x'')]])])]"

lemma filter_passes_other_bodies_witness:
  "unmarshal_interface (json_encode private_list) = Some private_list \<and>
   tools_listed private_list = [JObj [(''name'', JStr ''x'')]] \<and>
   \<not> public_entry (public_names sample_service) (JObj [(''name'', JStr ''x'')]) \<and>
   filterAnonymousToolsListBody (''data:'' @ json_encode private_list) sample_service = ''data:'' @ json_encode private_list"
proof -
  have "unmarshal_interface (json_encode private_list) = Some private_list" by code_simp
  moreover have "tools_listed private_list = [JObj [(''name'', JStr ''x'')]]" by (simp add: private_list_def)
  moreover have "\<not> public_entry (public_names sample_service) (JObj [(''name'', JStr ''x'')])"
    by (simp add: public_entry_def public_names_def sample_oauth_def)
  moreover have "unmarshal_interface (''data:'' @ json_encode private_list) = None" by code_simp
  moreover have "list_all (\<lambda>line. \<not> has_prefix line ''data: '') (split_on CHR 0x0A (''data:'' @ json_encode private_list))"
    by code_simp
  ultimately show ?thesis using filter_passes_other_bodies by blast
qed

lemma tools_list_filtered_witness:
  "\<exists>resp'. filterAnonymousToolsListResponse \<lparr>be_status = 200, be_header = [], be_body = json_encode private_list,
      be_error = None, be_close = Inr ()\<rparr> sample_service = Inr resp' \<and>
    (\<exists>v'. be_body resp' = json_encode v' \<and> tools_listed v' = [])"
proof -
  define resp where "resp = \<lparr>be_status = 200, be_header = [], be_body = json_encode private_list,
      be_error = None, be_close = Inr ()\<rparr>"
  have j: "unmarshal_interface (be_body resp) = Some private_list" unfolding resp_def by code_simp
  have len: "length (be_body resp) = 35" unfolding resp_def by code_simp
  then obtain resp' where r: "filterAnonymousToolsListResponse resp sample_service = Inr resp'"
    by (simp add: filterAnonymousToolsListResponse_def) (simp add: resp_def anonymousInspectionLimitBytes_def Let_def)
  from tools_list_filtered [OF r] obtain v' where "be_body resp' = json_encode v'"
      "tools_listed v' = filter (public_entry (public_names sample_service)) (tools_listed private_list)"
    unfolding j option.case by blast
  moreover have "filter (public_entry (public_names sample_service)) (tools_listed private_list) = []"
    by (simp add: private_list_def public_entry_def public_names_def sample_oauth_def)
  ultimately show ?thesis using r unfolding resp_def by auto
qed

subsection \<open>Requests that get through\<close>

definition sample_backend :: url where
  "sample_backend = empty_url\<lparr>url_scheme := ''http'', url_host := ''127.0.0.1'', url_path := ''/api/mcp''\<rparr>"

definition proxy_service :: "list_db Service" where
  "proxy_service = sample_service\<lparr>accessTokens := [(HashToken ''tok'', 5000)], backendURL := Some sample_backend\<rparr>"

text \<open>A client with a token and a path full of dots, and one without that sends a ping.\<close>

definition token_call :: request where
  "token_call = \<lparr>Method = ''GET'', RemoteAddr = ''10.0.0.7:5000'',
     Header = [(''Authorization'', [''Bearer tok'']), (''X-Forwarded-Host'', [''evil''])],
     URL_Path = ''/mcp/./x/../../mcp//a'', URL_RawPath = [], URL_RawQuery = ''q=1'', Body = Inr [], Context = []\<rparr>"

definition ping_call :: request where
  "ping_call = \<lparr>Method = ''POST'', RemoteAddr = ''10.0.0.7:5000'', Header = [], URL_Path = ''/mcp'', URL_RawPath = [],
     URL_RawQuery = [], Body = Inr (json_encode (JObj [(''method'', JStr ''ping'')])), Context = []\<rparr>"

lemma proxy_service_simps [simp]:
  "cfg proxy_service = sample_config" "accessTokens proxy_service = [(HashToken ''tok'', 5000)]"
  "backendURL proxy_service = Some sample_backend"
  by (simp_all add: proxy_service_def)

lemma token_call_forwarded: "\<exists>out. forwarded 1000 token_call proxy_service = Some out"
proof -
  have h: "header_get (Header token_call) ''Authorization'' = ''Bearer '' @ ''tok''"
    by (simp add: token_call_def header_get_def)
  have "trim_space ''tok'' = ''tok''" by code_simp
  then have "ValidateAccessToken (trim_space ''tok'') 1000 proxy_service"
    using f64_of_int_exact [of 1000] by (simp add: ValidateAccessToken_def)
  then have "admitted 1000 token_call proxy_service = Some token_call"
    unfolding admitted_def Let_def h trim_prefix_append by (simp add: has_prefix_def)
  moreover have "path_ok token_call" by code_simp
  ultimately show ?thesis by (simp add: forwarded_def)
qed

lemma ping_call_forwarded: "\<exists>out. forwarded 1000 ping_call proxy_service = Some out"
proof -
  have b: "Body ping_call = Inr (json_encode (JObj [(''method'', JStr ''ping'')]))" by (simp add: ping_call_def)
  have len: "length (json_encode (JObj [(''method'', JStr ''ping'')])) = 17" by code_simp
  have "PayloadAllowed \<lparr>PublicTools = [[]]\<rparr> (json_encode (JObj [(''method'', JStr ''ping'')])) = (True, False, [])" by code_simp
  then have "anonymousPayloadAllowed (json_encode (JObj [(''method'', JStr ''ping'')])) proxy_service = (True, False, [])"
    by (simp add: anonymousPayloadAllowed_def anonymous_policy_def sample_oauth_def)
  moreover have "header_get (Header ping_call) ''Authorization'' = []" "Method ping_call = ''POST''"
    by (simp_all add: ping_call_def header_get_def)
  moreover have "cfg_AnonymousEnabled sample_oauth" by (simp add: sample_oauth_def)
  ultimately have "admitted 1000 ping_call proxy_service = Some ping_call"
    by (simp add: admitted_def b len anonymousInspectionLimitBytes_def del: json_encode.simps)
  moreover have "path_ok ping_call" by code_simp
  ultimately show ?thesis by (simp add: forwarded_def)
qed


lemma forwarded_credentials_witness:
  "\<exists>out. forwarded 1000 token_call proxy_service = Some out \<and>
    header_values (out_header out) ''Authorization'' = [''Bearer h''] \<and> header_values (out_header out) ''X-Forwarded-Host'' = []"
proof -
  obtain out where out: "forwarded 1000 token_call proxy_service = Some out" using token_call_forwarded by blast
  from forwarded_credentials [OF out] out show ?thesis by (simp add: sample_oauth_def)
qed


definition sample_proxy_readings :: proxy_readings where
  "sample_proxy_readings = \<lparr>rd_stamp = [], rd_now1 = 1000 * second, rd_now2 = 0, rd_store = 0, rd_random = Inl [],
     rd_stamp_error = [], rd_stamp_hit = [], rd_duration = 0\<rparr>"

lemma backend_sees_only_forwarded_witness:
  "\<exists>f out. forwarded 1000 token_call proxy_service = Some out \<and>
    (\<forall>b. HandleProxy b sample_proxy_readings token_call fresh_response proxy_service = f (b out))"
proof -
  obtain out where out: "forwarded 1000 token_call proxy_service = Some out" using token_call_forwarded by blast
  have "Unix (rd_now1 sample_proxy_readings) = 1000" by (simp add: sample_proxy_readings_def Unix_def second_def)
  with backend_sees_only_forwarded [of fresh_response sample_proxy_readings token_call proxy_service] out
  show ?thesis by (auto simp: fresh_response_def)
qed

end
