(* ===== verification/RuntimeFacts.thy ===== *)
theory RuntimeFacts
  imports Runtime ProxyFacts
begin

text \<open>
  The routes and the request ids: which paths reach which handler, and what the middleware and
  the proxy make of the id.
\<close>

subsection \<open>Segments and text of a path\<close>

lemma split_on_iff:
  assumes "k \<noteq> []" and "\<And>x. x \<in> set k \<Longrightarrow> c \<notin> set x"
  shows "split_on c q = k \<longleftrightarrow> q = join_with [c] k"
  using split_join [of k c] assms join_split [of c q] by metis

lemma join_with_append:
  "k \<noteq> [] \<Longrightarrow> ks \<noteq> [] \<Longrightarrow> join_with sep (k @ ks) = join_with sep k @ sep @ join_with sep ks"
proof (induction sep k rule: join_with.induct)
  case (2 sep x)
  then show ?case by (cases ks) auto
qed auto

lemma split_on_join_append:
  "k \<noteq> [] \<Longrightarrow> (\<And>x. x \<in> set k \<Longrightarrow> c \<notin> set x) \<Longrightarrow> split_on c (join_with [c] k @ c # q) = k @ split_on c q"
  by (induction "[c]" k rule: join_with.induct) (auto simp: split_on_append)

lemma split_on_prefix_iff:
  assumes "k \<noteq> []" and "\<And>x. x \<in> set k \<Longrightarrow> c \<notin> set x"
  shows "length k < length (split_on c q) \<and> take (length k) (split_on c q) = k \<longleftrightarrow>
    has_prefix q (join_with [c] k @ [c])"
proof
  assume a: "length k < length (split_on c q) \<and> take (length k) (split_on c q) = k"
  define rest where "rest = drop (length k) (split_on c q)"
  have "rest \<noteq> []" "split_on c q = k @ rest" using a append_take_drop_id [of "length k" "split_on c q"]
    by (simp_all add: rest_def)
  then have "q = join_with [c] k @ [c] @ join_with [c] rest"
    using join_split [of c q] join_with_append [OF assms(1)] by metis
  then show "has_prefix q (join_with [c] k @ [c])" by (metis append.assoc has_prefix_append)
next
  assume "has_prefix q (join_with [c] k @ [c])"
  then obtain q' where "q = join_with [c] k @ c # q'" by (auto simp: has_prefix_iff)
  then show "length k < length (split_on c q) \<and> take (length k) (split_on c q) = k"
    using split_on_join_append [OF assms] by simp
qed

subsection \<open>Routes\<close>

definition plain_path :: "string \<Rightarrow> bool" where
  "plain_path p \<longleftrightarrow> take 1 p = ''/'' \<and> list_all (\<lambda>c. \<not> should_escape c EncodePath) p \<and> cleanPath p = p"

text \<open>The patterns as they are registered.\<close>

definition registered :: "(string \<times> route) list" where
  "registered =
    [(''/.well-known/oauth-authorization-server'', MetadataRoute),
     (''/.well-known/oauth-protected-resource'', ResourceRoute),
     (''/register'', RegisterRoute), (''/authorize'', AuthorizeRoute), (''/token'', TokenRoute),
     (''/mcp'', ProxyRoute), (''/health'', HealthRoute), (''/healthz'', HealthRoute),
     (''/readyz'', ReadyzRoute), (''/metrics'', MetricsRoute)]"

lemma unreserved_path_char: "\<not> should_escape c EncodePath \<Longrightarrow> c \<noteq> CHR ''%''"
  by (rule notI) (simp add: should_escape_def is_letter_def is_digit_def)

lemma segment_plain: "list_all (\<lambda>c. \<not> should_escape c EncodePath) x \<Longrightarrow> segment x = x"
proof -
  assume "list_all (\<lambda>c. \<not> should_escape c EncodePath) x"
  then have "unescape EncodePath x = Some x"
    by (intro unescape_plain) (auto simp only: list_all_iff esc_mode.distinct dest: unreserved_path_char)
  then show "segment x = x" by (simp add: segment_def)
qed

lemma path_escape_plain: "list_all (\<lambda>c. \<not> should_escape c EncodePath) x \<Longrightarrow> path_escape x = x"
  by (induction x) (auto simp: path_escape_def)

lemma split_on_chars: "x \<in> set (split_on c s) \<Longrightarrow> set x \<subseteq> set s"
proof (induction s arbitrary: x)
  case (Cons a s)
  then show ?case by (fastforce split: list.splits if_splits)
qed simp


lemma path_segments_plain:
  assumes "list_all (\<lambda>c. \<not> should_escape c EncodePath) q"
  shows "path_segments (CHR ''/'' # q) =
    (if last (split_on CHR ''/'' q) = [] then butlast (split_on CHR ''/'' q) @ [''/''] else split_on CHR ''/'' q)"
proof -
  have "segment x = x" if "x \<in> set (split_on CHR ''/'' q)" for x
    using split_on_chars [OF that] assms by (intro segment_plain) (auto simp: list_all_iff)
  then have "map segment xs = xs" if "set xs \<subseteq> set (split_on CHR ''/'' q)" for xs
    using that by (induction xs) auto
  then show ?thesis by (auto simp: path_segments_def Let_def dest: in_set_butlastD)
qed

text \<open>A pattern without a trailing slash, and one with.\<close>

lemma exact_match_iff:
  assumes "list_all (\<lambda>c. \<not> should_escape c EncodePath) q" and "k \<noteq> []" and "list_all (\<lambda>x. CHR ''/'' \<notin> set x) k"
    and "last k \<noteq> []"
  shows "path_segments (CHR ''/'' # q) = k \<longleftrightarrow> q = join_with ''/'' k"
proof (cases "last (split_on CHR ''/'' q) = []")
  case True
  have "path_segments (CHR ''/'' # q) \<noteq> k"
    using assms(2,3) True by (auto simp: path_segments_plain [OF assms(1)] list_all_iff)
  moreover have "split_on CHR ''/'' q \<noteq> k" using True assms(4) by auto
  ultimately show ?thesis using split_on_iff [OF assms(2), of "CHR ''/''" q] assms(3) by (auto simp: list_all_iff)
next
  case False
  then show ?thesis using split_on_iff [OF assms(2), of "CHR ''/''" q] assms(3) by (auto simp: path_segments_plain [OF assms(1)] list_all_iff)
qed

lemma subtree_match_iff:
  assumes "list_all (\<lambda>c. \<not> should_escape c EncodePath) q" and "k \<noteq> []" and "list_all (\<lambda>x. CHR ''/'' \<notin> set x) k"
  shows "length k < length (path_segments (CHR ''/'' # q)) \<and> take (length k) (path_segments (CHR ''/'' # q)) = k \<longleftrightarrow>
    has_prefix q (join_with ''/'' k @ ''/'')"
proof -
  let ?ss = "split_on CHR ''/'' q"
  have "length (path_segments (CHR ''/'' # q)) = length ?ss" "length k < length ?ss \<Longrightarrow>
      take (length k) (path_segments (CHR ''/'' # q)) = take (length k) ?ss"
    by (auto simp: path_segments_plain [OF assms(1)] take_butlast)
  then show ?thesis using split_on_prefix_iff [OF assms(2), of "CHR ''/''" q] assms(3) by (auto simp: list_all_iff)
qed

definition route_of :: "string \<Rightarrow> route option" where
  "route_of p =
    (case map_of registered p of
       Some rt \<Rightarrow> Some rt
     | None \<Rightarrow>
         if has_prefix p ''/.well-known/oauth-protected-resource/'' then Some ResourceRoute
         else if has_prefix p ''/mcp/'' then Some ProxyRoute else None)"

lemma match_route_plain:
  assumes "list_all (\<lambda>c. \<not> should_escape c EncodePath) q"
  shows "match_route (path_segments (CHR ''/'' # q)) = route_of (CHR ''/'' # q)"
proof -
  let ?s = "path_segments (CHR ''/'' # q)"
  have e: "?s = [x] \<longleftrightarrow> q = x" if "CHR ''/'' \<notin> set x" "x \<noteq> []" for x
    using exact_match_iff [OF assms, of "[x]"] that by auto
  have e2: "?s = [x, y] \<longleftrightarrow> q = x @ ''/'' @ y" if "CHR ''/'' \<notin> set x" "CHR ''/'' \<notin> set y" "y \<noteq> []" for x y
    using exact_match_iff [OF assms, of "[x, y]"] that by auto
  have "map_of exact_routes ?s = map_of registered (CHR ''/'' # q)"
    by (simp add: exact_routes_def registered_def e e2)
  moreover have "Suc 0 < length ?s \<and> take (Suc 0) ?s = [''mcp''] \<longleftrightarrow> has_prefix (CHR ''/'' # q) ''/mcp/''"
    using subtree_match_iff [OF assms, of "[''mcp'']"] by (simp add: has_prefix_def)
  moreover have "Suc (Suc 0) < length ?s \<and> take (Suc (Suc 0)) ?s = [''.well-known'', ''oauth-protected-resource''] \<longleftrightarrow>
      has_prefix (CHR ''/'' # q) ''/.well-known/oauth-protected-resource/''"
    using subtree_match_iff [OF assms, of "[''.well-known'', ''oauth-protected-resource'']"] by (auto simp: has_prefix_def)
  ultimately show ?thesis
    by (auto simp: match_route_def route_of_def subtree_routes_def split: option.splits)
qed

lemma findHandler_plain:
  assumes "plain_path (URL_Path r)" and "URL_RawPath r = []"
  shows "findHandler r = (case route_of (URL_Path r) of None \<Rightarrow> NotFound | Some rt \<Rightarrow> Routed rt)"
proof -
  obtain q where p: "URL_Path r = CHR ''/'' # q" and q: "list_all (\<lambda>c. \<not> should_escape c EncodePath) q"
    using assms(1) by (cases "URL_Path r") (auto simp: plain_path_def)
  have "EscapedPath r = URL_Path r"
    using assms path_escape_plain [of "URL_Path r"] p by (auto simp: EscapedPath_def plain_path_def)
  then show ?thesis
    using assms(1) by (auto simp: findHandler_def Let_def plain_path_def p match_route_plain [OF q])
qed

lemma route_of_proxy: "route_of p = Some ProxyRoute \<longleftrightarrow> p = ''/mcp'' \<or> has_prefix p ''/mcp/''"
  by (auto simp: route_of_def registered_def has_prefix_iff split: if_splits)

text \<open>
  C28. The routes. A request whose path is clean and needs no escaping is dispatched by the text
  of its path: the patterns registered match exactly, the two that end in a slash match
  everything below, and any other path is not found. The proxy in particular gets
  \<^verbatim>\<open>/mcp\<close> and what begins with \<^verbatim>\<open>/mcp/\<close>, nothing else.
\<close>

theorem mux_routes:
  assumes "plain_path (URL_Path r)" and "URL_RawPath r = []"
  shows "findHandler r = (case route_of (URL_Path r) of None \<Rightarrow> NotFound | Some rt \<Rightarrow> Routed rt) \<and>
    (findHandler r = Routed ProxyRoute \<longleftrightarrow> URL_Path r = ''/mcp'' \<or> has_prefix (URL_Path r) ''/mcp/'')"
  using route_of_proxy [of "URL_Path r"] findHandler_plain [OF assms] by (cases "route_of (URL_Path r)") auto

subsection \<open>The request id in the response\<close>

abbreviation rid :: "response \<Rightarrow> string" where
  "rid w \<equiv> header_get (resp_headers w) ''X-Request-Id''"

lemma rid_simps [simp]:
  "k \<noteq> ''X-Request-Id'' \<Longrightarrow> rid (set_header k v w) = rid w"
  "rid (http_Error m c w) = rid w"
  "rid (http_Redirect loc c w) = rid w"
  "rid (method_not_allowed m w) = rid w"
  "rid (writeTokenError e d c w) = rid w"
  "rid (unauthorized d w s) = rid w"
  by (simp_all add: http_Error_def http_Redirect_def method_not_allowed_def writeTokenError_def unauthorized_def
      set_header_def header_get_if Let_def)

lemma rid_documents:
  "rid (fst (HandleMetadata rd r w s)) = rid w"
  "rid (fst (HandleProtectedResourceMetadata rd r w s)) = rid w"
  "rid (fst (HandleRegister rd r w s)) = rid w"
  by (auto simp: HandleMetadata_def HandleProtectedResourceMetadata_def HandleRegister_def Let_def
      split: sum.splits option.splits)

lemma rid_HandleAuthorize: "HandleAuthorize rd r w s = (Returns w', s') \<Longrightarrow> rid w' = rid w"
  by (auto simp: HandleAuthorize_def Let_def split: if_splits sum.splits run.splits prod.splits)

lemma rid_HandleToken: "HandleToken rd r w s = (Returns w', s') \<Longrightarrow> rid w' = rid w"
  by (auto simp: HandleToken_def Let_def split: if_splits sum.splits run.splits prod.splits option.splits)

lemma header_get_copyHeader:
  assumes "header_get h k \<noteq> []"
  shows "header_get (copyHeader h src) k = header_get h k"
proof -
  have step: "header_get (AList.update k' (header_values g k' @ vs) g) k = header_get g k"
    if "header_get g k \<noteq> []" for g k' vs
    using that by (cases "k' = k") (auto simp: header_get_def header_values_def map_of_update_neq split: option.splits list.splits)
  show ?thesis using assms unfolding copyHeader_def
    by (induction src arbitrary: h) (auto simp: step split: prod.splits)
qed

lemma rid_proxy_ServeHTTP:
  "proxy_ServeHTTP b ts r u rw s = (Returns rw', s') \<Longrightarrow> rid (rw_inner rw) \<noteq> [] \<Longrightarrow> rid (rw_inner rw') = rid (rw_inner rw)"
  by (auto simp: proxy_ServeHTTP_def ErrorHandler_def rw_Error_def rw_WriteHeader_def rw_Write_def Let_def
      header_get_copyHeader split: sum.splits if_splits)

lemma rid_proxy_admitted:
  "proxy_admitted b rd r w s = (Returns w', s') \<Longrightarrow> rid w \<noteq> [] \<Longrightarrow> rid w' = rid w"
  by (auto simp: proxy_admitted_def Let_def dest: rid_proxy_ServeHTTP split: if_splits option.splits run.splits prod.splits)

lemma rid_allowAnonymous:
  assumes "allowAnonymousMCPRequest ts r w s = (g, s1)"
  shows "\<forall>w1. (g = Refused w1 \<longrightarrow> rid w1 = rid w) \<and> (\<forall>lst r1. g = Allowed lst r1 w1 \<longrightarrow> w1 = w)"
  using assms by (auto simp: allowAnonymousMCPRequest_def read_limited_def Let_def split: if_splits sum.splits prod.splits)

lemma rid_HandleProxy:
  assumes "HandleProxy b rd r w s = (Returns w', s')" and "rid w \<noteq> []"
  shows "rid w' = rid w"
proof (cases "header_get (Header r) ''Authorization'' = []")
  case True
  obtain g s1 where g: "allowAnonymousMCPRequest (rd_stamp rd) r w s = (g, s1)" by fastforce
  from True assms g rid_allowAnonymous [OF g] show ?thesis
    by (cases g) (auto simp: HandleProxy_def Let_def dest: rid_proxy_admitted split: if_splits)
next
  case False
  with assms show ?thesis by (auto simp: HandleProxy_def Let_def dest: rid_proxy_admitted split: if_splits)
qed

lemma metrics_loop_headers [simp]: "resp_headers (metrics_loop cs w) = resp_headers w"
  by (induction cs arbitrary: w) (auto split: prod.splits)

lemma rid_mux:
  assumes "mux b rd r w s = (Returns w', s')" and "rid w \<noteq> []"
  shows "rid w' = rid w"
proof -
  have moved: "rid (moved r loc w) = rid w" for loc
    by (auto simp: moved_def Let_def)
  have probes: "rid (health w) = rid w" "rid (fst (readyz t w s)) = rid w" "rid (HandleMetrics c r w) = rid w" for t c
    by (auto simp: health_def readyz_def HandleMetrics_def split: prod.split sum.split)
  have pairs: "HandleMetadata p r w s = (x, y) \<Longrightarrow> rid x = rid w"
    "HandleProtectedResourceMetadata p r w s = (x, y) \<Longrightarrow> rid x = rid w"
    "HandleRegister p r w s = (x, y) \<Longrightarrow> rid x = rid w" "readyz t w s = (x, y) \<Longrightarrow> rid x = rid w" for p t x y
    using rid_documents [of p r w s] probes(2) [of t] by (metis fst_conv)+
  from assms show ?thesis
    by (auto simp: mux_def Let_def apfst_def map_prod_def moved probes
        dest: pairs rid_HandleAuthorize rid_HandleToken rid_HandleProxy split: mux_result.splits route.splits prod.splits)
qed


subsection \<open>The whole server\<close>

definition tagged :: "string \<Rightarrow> request \<Rightarrow> request" where
  "tagged i r =
    (let clientID = trim_space (header_get (Header r) ''X-Request-Id'');
         c = (if clientID \<noteq> [] then WithClientRequestID (Context r) clientID else Context r)
     in r\<lparr>Context := WithRequestID c i\<rparr>)"

lemma newHandler_tagged:
  assumes "generateID rnd = Returns i"
  obtains w where "\<And>b. newHandler b rd rnd r s = mux b rd (tagged i r) w s" and "rid w = i" and "status w = None"
proof -
  let ?c = "trim_space (header_get (Header r) ''X-Request-Id'')"
  let ?w0 = "set_header ''X-Request-Id'' i fresh_response"
  let ?w = "if ?c \<noteq> [] then set_header ''X-Client-Request-Id'' ?c ?w0 else ?w0"
  show thesis
    by (rule that [of ?w])
      (auto simp: newHandler_def RequestIDMiddleware_def assms Let_def tagged_def)
qed

lemma GetRequestID_tagged [simp]: "GetRequestID (Context (tagged i r)) = i"
  by (simp add: tagged_def Let_def)

lemma findHandler_tagged [simp]: "findHandler (tagged i r) = findHandler r"
  by (simp add: findHandler_def EscapedPath_def tagged_def Let_def)

lemma mux_by_backend:
  assumes "status w = None"
  shows "(\<exists>res. \<forall>b. mux b rd r w s = res) \<or>
    (\<exists>out f. findHandler r = Routed ProxyRoute \<and> forwarded (Unix (rd_now1 rd)) r s = Some out \<and>
      (\<forall>b. mux b rd r w s = f (b out)))"
proof (cases "findHandler r = Routed ProxyRoute")
  case True
  then have m: "mux b rd r w s = HandleProxy b rd r w s" for b by (simp add: mux_def Let_def)
  from HandleProxy_forwards [OF assms, of rd r s] show ?thesis
    unfolding m by (cases "forwarded (Unix (rd_now1 rd)) r s") (use True in auto)
next
  case False
  then have "mux b rd r w s = mux (\<lambda>_. Inl []) rd r w s" for b
    by (auto simp: mux_def Let_def split: mux_result.split route.split)
  then show ?thesis by blast
qed

text \<open>
  C10. One id per request, chosen by the server. When the random source works, every answer of the
  server carries the id that its bytes give, 32 hexadecimal digits, whatever \<^verbatim>\<open>X-Request-Id\<close> the
  client sent and whatever the backend answers; and the answer depends on the backend only if
  the path is routed to the proxy, through one request, which carries the same id and the
  backend's own token.
\<close>

theorem request_id_everywhere:
  assumes "newHandler b rd (Inr bytes) r s = (Returns w', s')" and "16 \<le> length bytes"
  shows "header_get (resp_headers w') ''X-Request-Id'' = hex_encode (take 16 bytes) \<and>
    length (hex_encode (take 16 bytes)) = 32 \<and>
    ((\<forall>b'. newHandler b' rd (Inr bytes) r s = (Returns w', s')) \<or>
     (\<exists>out f. findHandler r = Routed ProxyRoute \<and> (\<forall>b'. newHandler b' rd (Inr bytes) r s = f (b' out)) \<and>
       header_values (out_header out) ''X-Request-Id'' = [hex_encode (take 16 bytes)] \<and>
       header_values (out_header out) ''Authorization'' = [''Bearer '' @ cfg_HugoToken (OAuthProxy (cfg s))]))"
proof -
  define i where "i = hex_encode (take 16 bytes)"
  have len: "length i = 32" using assms(2) by (simp add: i_def)
  have "generateID (Inr bytes) = Returns i" by (simp add: generateID_def i_def)
  then obtain w where w: "\<And>b. newHandler b rd (Inr bytes) r s = mux b rd (tagged i r) w s" "rid w = i" "status w = None"
    by (rule newHandler_tagged [where rd = rd and r = r and s = s]) blast
  have "rid w \<noteq> []" using len w(2) by (metis list.size(3) zero_neq_numeral)
  then have "rid w' = i" using rid_mux [of b rd "tagged i r" w s w' s'] assms(1) w(1,2) by simp
  moreover have "(\<forall>b'. newHandler b' rd (Inr bytes) r s = (Returns w', s')) \<or>
     (\<exists>out f. findHandler r = Routed ProxyRoute \<and> (\<forall>b'. newHandler b' rd (Inr bytes) r s = f (b' out)) \<and>
       header_values (out_header out) ''X-Request-Id'' = [i] \<and>
       header_values (out_header out) ''Authorization'' = [''Bearer '' @ cfg_HugoToken (OAuthProxy (cfg s))])"
    using mux_by_backend [OF w(3), of rd "tagged i r" s] assms(1) forwarded_headers [of _ "tagged i r" s] w(1)
    by (auto; metis)
  ultimately show ?thesis using len by (simp add: i_def)
qed


lemma mux_routes_witness:
  "findHandler ping_call = Routed ProxyRoute \<and> plain_path (URL_Path ping_call)"
proof -
  have p: "plain_path (URL_Path ping_call)" "URL_RawPath ping_call = []" by code_simp+
  have "URL_Path ping_call = ''/mcp''" by (simp add: ping_call_def)
  with mux_routes [OF p] p(1) show ?thesis by blast
qed

definition health_readings :: proxy_readings where
  "health_readings = \<lparr>rd_stamp = [], rd_now1 = 1000000000000, rd_now2 = 0, rd_store = 1000, rd_random = Inl [],
     rd_stamp_error = [], rd_stamp_hit = [], rd_duration = 0\<rparr>"

definition health_call :: request where
  "health_call = ping_call\<lparr>Method := ''GET'', URL_Path := ''/health'', Header := [(''X-Request-Id'', [''mine''])]\<rparr>"

lemma request_id_everywhere_witness:
  "\<exists>w' s'. newHandler (\<lambda>_. Inl []) health_readings (Inr (replicate 16 CHR ''A'')) health_call proxy_service = (Returns w', s') \<and>
    header_get (resp_headers w') ''X-Request-Id'' = concat (replicate 16 ''41'')"
proof -
  have "findHandler health_call = Routed HealthRoute" by code_simp
  moreover have "generateID (Inr (replicate 16 CHR ''A'')) = Returns (hex_encode (replicate 16 CHR ''A''))"
    by (simp add: generateID_def)
  from newHandler_tagged [OF this, where rd = health_readings and r = health_call and s = proxy_service] obtain w where
    "newHandler (\<lambda>_. Inl []) health_readings (Inr (replicate 16 CHR ''A'')) health_call proxy_service =
      mux (\<lambda>_. Inl []) health_readings (tagged (hex_encode (replicate 16 CHR ''A'')) health_call) w proxy_service" by metis
  ultimately have n: "newHandler (\<lambda>_. Inl []) health_readings (Inr (replicate 16 CHR ''A'')) health_call proxy_service
      = (Returns (health w), proxy_service)"
    by (simp add: mux_def Let_def)
  have "hex_encode (take 16 (replicate 16 CHR ''A'')) = concat (replicate 16 ''41'')" by code_simp
  with request_id_everywhere [OF n] n show ?thesis by auto
qed

end
