(* ===== verification/GoJSONRound.thy ===== *)
theory GoJSONRound
  imports GoJSONText
begin

text \<open>
  What the encoder writes, the scanner reads back: for values whose strings are valid UTF-8,
  whose numbers are number texts and that are not nested too deeply.
\<close>

subsection \<open>UTF-8\<close>

definition is_start :: "string \<Rightarrow> nat \<Rightarrow> nat \<Rightarrow> bool" where
  "is_start s r n \<longleftrightarrow> utf8_decode s = (r, n) \<and> \<not> (r = 0xFFFD \<and> n = 1)"

fun valid_utf8 :: "string \<Rightarrow> bool" where
  "valid_utf8 [] = True"
| "valid_utf8 (c # cs) =
    (if ord_of c < 0x80 then valid_utf8 cs
     else (let (r, n) = utf8_decode (c # cs) in \<not> (r = 0xFFFD \<and> n = 1) \<and> valid_utf8 (drop (n - 1) cs)))"

lemma mult_add_div_mod:
  fixes a b k :: nat
  assumes "b < k"
  shows "(a * k + b) div k = a" "(a * k + b) mod k = b"
  using assms by simp_all

lemma utf8_encode_2:
  assumes "2 \<le> a" and "a < 32" and "b < 64"
  shows "utf8_encode (a * 64 + b) = [char_of (0xC0 + a), char_of (0x80 + b)]"
  using assms by (simp add: utf8_encode_def)

lemma utf8_encode_3:
  assumes "a < 16" and "b < 64" and "c < 64" and "a = 0 \<Longrightarrow> 32 \<le> b" and "a = 13 \<Longrightarrow> b < 32"
  shows "utf8_encode (a * 4096 + b * 64 + c) = [char_of (0xE0 + a), char_of (0x80 + b), char_of (0x80 + c)]"
proof -
  define r where "r = a * 4096 + b * 64 + c"
  have "r = (a * 64 + b) * 64 + c" by (simp add: r_def)
  then have d: "r div 64 = a * 64 + b" "r mod 64 = c" by (simp_all only: mult_add_div_mod [OF assms(3)])
  have "r div 4096 = (r div 64) div 64" by (simp add: div_mult2_eq [symmetric])
  then have d2: "r div 4096 = a" "r div 64 mod 64 = b" by (simp_all only: d mult_add_div_mod [OF assms(2)])
  have "\<not> r < 0x80" "\<not> r < 0x800" "r < 0x10000" "\<not> r > 0x10FFFF" "\<not> (0xD800 \<le> r \<and> r < 0xE000)"
    using assms by (cases "a = 0"; cases "a = 13"; simp add: r_def)+
  then have "utf8_encode r = [char_of (0xE0 + a), char_of (0x80 + b), char_of (0x80 + c)]"
    unfolding utf8_encode_def Let_def by (simp only: d(2) d2 if_False if_True disj_not1 simp_thms)
  then show ?thesis by (simp add: r_def)
qed

lemma utf8_encode_4:
  assumes "a \<le> 4" and "b < 64" and "c < 64" and "d < 64" and "a = 0 \<Longrightarrow> 16 \<le> b" and "a = 4 \<Longrightarrow> b < 16"
  shows "utf8_encode (a * 262144 + b * 4096 + c * 64 + d) =
    [char_of (0xF0 + a), char_of (0x80 + b), char_of (0x80 + c), char_of (0x80 + d)]"
proof -
  define r where "r = a * 262144 + b * 4096 + c * 64 + d"
  have "r = ((a * 64 + b) * 64 + c) * 64 + d" by (simp add: r_def)
  then have e: "r div 64 = (a * 64 + b) * 64 + c" "r mod 64 = d" by (simp_all only: mult_add_div_mod [OF assms(4)])
  have "r div 4096 = (r div 64) div 64" by (simp add: div_mult2_eq [symmetric])
  then have e2: "r div 4096 = a * 64 + b" "r div 64 mod 64 = c" by (simp_all only: e mult_add_div_mod [OF assms(3)])
  have "r div 262144 = (r div 4096) div 64" by (simp add: div_mult2_eq [symmetric])
  then have e3: "r div 262144 = a" "r div 4096 mod 64 = b" by (simp_all only: e2 mult_add_div_mod [OF assms(2)])
  have "\<not> r < 0x80" "\<not> r < 0x800" "\<not> r < 0x10000" "\<not> r > 0x10FFFF" "\<not> (0xD800 \<le> r \<and> r < 0xE000)"
    using assms by (cases "a = 0"; cases "a = 4"; simp add: r_def)+
  then have "utf8_encode r = [char_of (0xF0 + a), char_of (0x80 + b), char_of (0x80 + c), char_of (0x80 + d)]"
    unfolding utf8_encode_def Let_def by (simp only: e(2) e2(2) e3 if_False if_True simp_thms)
  then show ?thesis by (simp add: r_def)
qed

lemma decode_multi:
  assumes "\<not> ord_of c < 0x80" and "utf8_decode (c # cs) = (r, n)" and "\<not> (r = 0xFFFD \<and> n = 1)"
  shows "utf8_encode r = take n (c # cs)" and "2 \<le> n" and "n \<le> length (c # cs)"
    and "list_all (\<lambda>x. 0x80 \<le> ord_of x) (take n (c # cs))"
    and "utf8_decode (take n (c # cs) @ rest) = (r, n)"
proof -
  let ?s = "c # cs" and ?b = "\<lambda>i. ord_of ((c # cs) ! i)"
  consider (two) "0xC2 \<le> ?b 0 \<and> ?b 0 \<le> 0xDF \<and> cont_byte ?s 1 0x80 0xBF" "r = (?b 0 - 0xC0) * 64 + (?b 1 - 0x80)" "n = 2"
    | (three) "0xE0 \<le> ?b 0 \<and> ?b 0 \<le> 0xEF \<and> cont_byte ?s 1 (if ?b 0 = 0xE0 then 0xA0 else 0x80) (if ?b 0 = 0xED then 0x9F else 0xBF)
        \<and> cont_byte ?s 2 0x80 0xBF" "r = (?b 0 - 0xE0) * 4096 + (?b 1 - 0x80) * 64 + (?b 2 - 0x80)" "n = 3"
    | (four) "0xF0 \<le> ?b 0 \<and> ?b 0 \<le> 0xF4 \<and> cont_byte ?s 1 (if ?b 0 = 0xF0 then 0x90 else 0x80) (if ?b 0 = 0xF4 then 0x8F else 0xBF)
        \<and> cont_byte ?s 2 0x80 0xBF \<and> cont_byte ?s 3 0x80 0xBF"
        "r = (?b 0 - 0xF0) * 262144 + (?b 1 - 0x80) * 4096 + (?b 2 - 0x80) * 64 + (?b 3 - 0x80)" "n = 4"
    using assms unfolding utf8_decode_def Let_def by (auto split: if_splits)
  note cases = this
  have both: "utf8_encode r = take n (c # cs) \<and> list_all (\<lambda>x. 0x80 \<le> ord_of x) (take n (c # cs))"
    using cases
  proof cases
    case two
    then obtain c1 cs1 where cs: "cs = c1 # cs1" by (cases cs) (auto simp: cont_byte_def)
    show ?thesis
      using two utf8_encode_2 [of "ord_of c - 0xC0" "ord_of c1 - 0x80"]
      by (auto simp: cont_byte_def cs split: if_splits)
  next
    case three
    then obtain c1 c2 cs2 where cs: "cs = c1 # c2 # cs2" by (cases cs rule: remdups_adj.cases) (auto simp: cont_byte_def)
    show ?thesis
      using three utf8_encode_3 [of "ord_of c - 0xE0" "ord_of c1 - 0x80" "ord_of c2 - 0x80"]
      by (auto simp: cont_byte_def cs split: if_splits)
  next
    case four
    then obtain c1 c2 c3 cs3 where cs: "cs = c1 # c2 # c3 # cs3"
      by (cases cs; cases "tl cs"; cases "tl (tl cs)") (auto simp: cont_byte_def)
    show ?thesis
      using four utf8_encode_4 [of "ord_of c - 0xF0" "ord_of c1 - 0x80" "ord_of c2 - 0x80" "ord_of c3 - 0x80"]
      by (auto simp: cont_byte_def cs split: if_splits)
  qed
  then show "utf8_encode r = take n (c # cs)" "list_all (\<lambda>x. 0x80 \<le> ord_of x) (take n (c # cs))" by blast+
  show "2 \<le> n" using cases by cases auto
  show len: "n \<le> length (c # cs)" using cases by cases (auto simp: cont_byte_def Suc_le_eq)
  define s' where "s' = take n ?s @ rest"
  have at: "s' ! i = ?s ! i" "cont_byte s' i lo hi = cont_byte ?s i lo hi" if "i < n" for i lo hi
    using that len by (auto simp: s'_def cont_byte_def nth_append)
  have "utf8_decode s' = (r, n)"
    using cases by cases (simp_all add: utf8_decode_def at Let_def split: if_splits)
  then show "utf8_decode (take n (c # cs) @ rest) = (r, n)" by (simp add: s'_def)
qed


subsection \<open>Strings\<close>

lemma hex_val_digit: "x < 16 \<Longrightarrow> hex_val (hex_digit x) = Some x"
  by (auto simp: hex_val_def hex_digit_def)

lemma hex_digit_char: "x < 16 \<Longrightarrow> hex_digit x \<noteq> CHR 0x22" "x < 16 \<Longrightarrow> hex_digit x \<noteq> CHR 0x5C"
  using hex_val_digit [of x] by (auto simp: hex_val_def)

lemma run_hex:
  assumes "length hs = 4" and "list_all (\<lambda>h. hex_val h \<noteq> None) hs"
  shows "json_run (MStr raw) st ([CHR 0x5C, CHR ''u''] @ hs @ cs) =
    json_run (MStr (rev ([CHR 0x5C, CHR ''u''] @ hs) @ raw)) st cs"
proof -
  obtain a b c d where "hs = [a, b, c, d]" using assms(1) by (auto simp: numeral_eq_Suc length_Suc_conv)
  with assms(2) show ?thesis by auto
qed

lemma unquote_hex:
  assumes "hex4 hs = Some r" and "length hs = 4" and "\<not> (0xD800 \<le> r \<and> r < 0xE000)"
  shows "unquote ([CHR 0x5C, CHR ''u''] @ hs @ cs) = utf8_encode r @ unquote cs"
proof -
  obtain a b c d where h: "hs = [a, b, c, d]" using assms(2) by (auto simp: numeral_eq_Suc length_Suc_conv)
  have "hex4 (hs @ cs) = Some r" using assms(1) by (simp add: h hex4_def)
  then show ?thesis using assms(3) by (auto simp: h)
qed

lemma run_high:
  assumes "list_all (\<lambda>x. 0x80 \<le> ord_of x) bs"
  shows "json_run (MStr raw) st (bs @ cs) = json_run (MStr (rev bs @ raw)) st cs"
  using assms
proof (induction bs arbitrary: raw)
  case (Cons b bs)
  then have "b \<noteq> CHR 0x22" "b \<noteq> CHR 0x5C" "\<not> ord_of b < 0x20" by auto
  with Cons show ?case by simp
qed simp

lemma ascii_escape:
  assumes "ord_of c < 0x80"
  shows "json_run (MStr raw) st (json_escape_ascii c @ cs) = json_run (MStr (rev (json_escape_ascii c) @ raw)) st cs"
    and "unquote (json_escape_ascii c @ cs) = c # unquote cs"
proof -
  let ?h = "[CHR ''0'', CHR ''0'', hex_digit (ord_of c div 16), hex_digit (ord_of c mod 16)]"
  have d: "ord_of c div 16 < 8" "ord_of c mod 16 < 16" using assms by auto
  have hv: "hex_val (hex_digit (ord_of c div 16)) = Some (ord_of c div 16)" "hex_val (hex_digit (ord_of c mod 16)) = Some (ord_of c mod 16)"
    using d by (simp_all add: hex_val_digit)
  have z: "hex_val CHR ''0'' = Some 0" by (simp add: hex_val_def)
  have h: "hex4 ?h = Some (ord_of c)" by (simp add: hex4_def hv z)
  have u: "utf8_encode (ord_of c) = [c]" using assms by (simp add: utf8_encode_def)
  have run: "json_run (MStr raw) st ([CHR 0x5C, CHR ''u''] @ ?h @ cs) = json_run (MStr (rev ([CHR 0x5C, CHR ''u''] @ ?h) @ raw)) st cs"
    by (rule run_hex) (simp_all add: hv z)
  have unq: "unquote ([CHR 0x5C, CHR ''u''] @ ?h @ cs) = c # unquote cs"
    using unquote_hex [OF h, of cs] assms u by simp
  show "json_run (MStr raw) st (json_escape_ascii c @ cs) = json_run (MStr (rev (json_escape_ascii c) @ raw)) st cs"
    using run by (auto simp: json_escape_ascii_def)
  show "unquote (json_escape_ascii c @ cs) = c # unquote cs"
    using unq assms by (auto simp: json_escape_ascii_def simple_escape_def)
qed


text \<open>A string in quotes runs to its closing quote, and unquoting gives the string.\<close>

lemma escape_roundtrip:
  assumes "valid_utf8 s"
  shows "(\<forall>raw. json_run (MStr raw) st (json_escape s @ cs) = json_run (MStr (rev (json_escape s) @ raw)) st cs) \<and>
    unquote (json_escape s) = s"
  using assms
proof (induction s rule: valid_utf8.induct)
  case (2 c s)
  show ?case
  proof (cases "ord_of c < 0x80")
    case True
    with 2 show ?thesis by (simp add: ascii_escape)
  next
    case False
    obtain r n where d: "utf8_decode (c # s) = (r, n)" by fastforce
    have ok: "\<not> (r = 0xFFFD \<and> n = 1)" and tail: "valid_utf8 (drop (n - 1) s)"
      using "2.prems" False d by auto
    note m = decode_multi [OF False d ok]
    note ih = "2.IH"(2) [OF False d [symmetric] refl tail]
    have split: "c # s = take n (c # s) @ drop (n - 1) s" using m(2) by (cases n) simp_all
    define e where "e = (if r = 0x2028 \<or> r = 0x2029 then [CHR 0x5C] @ ''u202'' @ [hex_digit (r mod 16)] else take n (c # s))"
    have esc: "json_escape (c # s) = e @ json_escape (drop (n - 1) s)"
      using False d ok by (auto simp: e_def)
    have run: "json_run (MStr raw) st (e @ cs') = json_run (MStr (rev e @ raw)) st cs'" for raw cs'
    proof (cases "r = 0x2028 \<or> r = 0x2029")
      case True
      then have "list_all (\<lambda>h. hex_val h \<noteq> None) [CHR ''2'', CHR ''0'', CHR ''2'', hex_digit (r mod 16)]"
        by (simp add: hex_val_digit) (simp add: hex_val_def)
      from run_hex [OF _ this, of raw st cs'] True show ?thesis by (auto simp: e_def)
    next
      case False
      then show ?thesis using run_high [OF m(4)] by (simp add: e_def)
    qed
    have unq: "unquote (e @ x) = take n (c # s) @ unquote x" for x
    proof (cases "r = 0x2028 \<or> r = 0x2029")
      case True
      then have "hex4 [CHR ''2'', CHR ''0'', CHR ''2'', hex_digit (r mod 16)] = Some r"
        by (auto simp: hex4_def hex_val_digit) (simp_all add: hex_val_def)
      moreover have "e = [CHR 0x5C, CHR ''u''] @ [CHR ''2'', CHR ''0'', CHR ''2'', hex_digit (r mod 16)]" using True by (auto simp: e_def)
      moreover have "\<not> (0xD800 \<le> r \<and> r < 0xE000)" using True by auto
      moreover have "length [CHR ''2'', CHR ''0'', CHR ''2'', hex_digit (r mod 16)] = 4" by simp
      ultimately have "unquote (e @ x) = utf8_encode r @ unquote x" by (metis append_assoc unquote_hex)
      with m(1) show ?thesis by (simp only:)
    next
      case False': False
      obtain n' where n: "n = Suc n'" using m(2) by (cases n) auto
      have "utf8_decode (c # take n' s @ x) = (r, n)" using m(5) [of x] n by simp
      moreover have "n - 1 = length (take n' s)" using m(3) n by simp
      ultimately have "unquote (c # take n' s @ x) = utf8_encode r @ unquote x"
        using False by (cases "c = CHR 0x5C") auto
      then show ?thesis using False' m(1) n by (simp add: e_def)
    qed
    show ?thesis using ih split by (simp only: esc append.assoc run unq rev_append) simp
  qed
qed simp


subsection \<open>Numbers\<close>

fun num_run :: "num_state \<Rightarrow> string \<Rightarrow> num_state option" where
  "num_run ns [] = Some ns"
| "num_run ns (c # cs) = (case num_step ns c of None \<Rightarrow> None | Some ns' \<Rightarrow> num_run ns' cs)"

definition num_start :: "char \<Rightarrow> num_state option" where
  "num_start c =
    (if c = CHR ''-'' then Some NNeg else if c = CHR ''0'' then Some NZero
     else if is_digit c then Some NInt else None)"

definition valid_number :: "string \<Rightarrow> bool" where
  "valid_number s \<longleftrightarrow>
    (case s of [] \<Rightarrow> False
     | c # cs \<Rightarrow>
         (case Option.bind (num_start c) (\<lambda>ns. num_run ns cs) of None \<Rightarrow> False | Some f \<Rightarrow> num_final f))"

lemma run_number:
  "num_run ns s = Some f \<Longrightarrow> json_run (MNum ns raw) st (s @ cs) = json_run (MNum f (rev s @ raw)) st cs"
  by (induction s arbitrary: ns raw) (auto split: option.splits)

lemma num_run_digits: "list_all is_digit ds \<Longrightarrow> num_run NInt ds = Some NInt"
  by (induction ds) auto

lemma valid_number_show_nat: "valid_number (show_nat n)"
proof (cases "n = 0")
  case True
  show ?thesis unfolding True by code_simp
next
  case False
  then obtain c cs where s: "show_nat n = c # cs" "is_digit c" "c \<noteq> CHR ''0''" using show_nat_first [of n] by auto
  moreover have "c \<noteq> CHR ''-''" using s(2) by (auto simp: is_digit_def)
  moreover have "list_all is_digit cs" using is_digit_show_nat [of n] s(1) by simp
  ultimately show ?thesis by (simp add: valid_number_def num_start_def num_run_digits num_final_def)
qed

lemma valid_number_show_int: "valid_number (show_int i)"
proof (cases "i < 0")
  case True
  then obtain c cs where s: "show_nat (nat (- i)) = c # cs" "is_digit c" "c \<noteq> CHR ''0''" using show_nat_first [of "nat (- i)"] by auto
  moreover have "list_all is_digit cs" using is_digit_show_nat [of "nat (- i)"] s(1) by simp
  ultimately show ?thesis using True by (simp add: show_int_def valid_number_def num_start_def num_run_digits num_final_def)
next
  case False
  then show ?thesis by (simp add: show_int_def valid_number_show_nat)
qed

subsection \<open>Values\<close>

text \<open>\<open>n\<close> bounds the nesting.\<close>

primrec wf_json :: "json \<Rightarrow> nat \<Rightarrow> bool" where
  "wf_json JNull = (\<lambda>n. True)"
| "wf_json (JBool b) = (\<lambda>n. True)"
| "wf_json (JNum s) = (\<lambda>n. valid_number s)"
| "wf_json (JStr s) = (\<lambda>n. valid_utf8 s)"
| "wf_json (JArr vs) = (\<lambda>n. 0 < n \<and> list_all (\<lambda>w. w (n - 1)) (map wf_json vs))"
| "wf_json (JObj fs) =
    (\<lambda>n. 0 < n \<and> list_all (\<lambda>kw. valid_utf8 (fst kw) \<and> snd kw (n - 1)) (map (map_prod id wf_json) fs))"

text \<open>Going on after a value.\<close>

definition then_run :: "json \<Rightarrow> frame list \<Rightarrow> string \<Rightarrow> (json \<times> string) option" where
  "then_run v st cs =
    (case complete v st of Bad \<Rightarrow> None | More m st' \<Rightarrow> json_run m st' cs | Done v' \<Rightarrow> Some (v', cs)
     | DoneBefore v' \<Rightarrow> None)"

definition awaits_value :: "frame list \<Rightarrow> bool" where
  "awaits_value st \<longleftrightarrow> (case st of FObj fs None # st' \<Rightarrow> False | _ \<Rightarrow> True)"

definition delimited :: "string \<Rightarrow> frame list \<Rightarrow> bool" where
  "delimited cs st \<longleftrightarrow> (case cs of [] \<Rightarrow> st = [] | c # cs' \<Rightarrow> c \<in> {CHR '','', CHR '']'', CHR ''}'', CHR 0x0A})"

lemma then_run_step: "then_run v st cs = (case complete v st of Bad \<Rightarrow> None | More m st' \<Rightarrow> json_run m st' cs
    | Done v' \<Rightarrow> Some (v', cs) | DoneBefore v' \<Rightarrow> Some (v', cs))"
  by (cases "(v, st)" rule: complete.cases) (auto simp: then_run_def)

lemma run_json_number:
  assumes "valid_number s" and "delimited cs st" and "awaits_value st"
  shows "json_run MValue st (s @ cs) = then_run (JNum s) st cs"
proof -
  obtain c s' ns f where s: "s = c # s'" "num_start c = Some ns" "num_run ns s' = Some f" "num_final f"
    using assms(1) by (auto simp: valid_number_def split: list.splits option.splits bind_splits)
  have sp: "\<not> json_space c" and "begin_value c st = More (MNum ns [c]) st"
  proof -
    consider "c = CHR ''-''" | "c = CHR ''0''" | "is_digit c" "c \<noteq> CHR ''-''" "c \<noteq> CHR ''0''"
      using s(2) by (fastforce simp: num_start_def split: if_splits)
    then have "\<not> json_space c \<and> begin_value c st = More (MNum ns [c]) st"
    proof cases
      case 3
      then have "c \<noteq> CHR ''{''" "c \<noteq> CHR ''[''" "c \<noteq> CHR 0x22" "c \<noteq> CHR 0x20" "c \<noteq> CHR 0x09" "c \<noteq> CHR 0x0A" "c \<noteq> CHR 0x0D"
        by (auto simp: is_digit_def)
      with 3 s(2) show ?thesis by (simp add: num_start_def begin_value_def json_space_def)
    qed (use s(2) in \<open>simp_all add: num_start_def begin_value_def json_space_def\<close>)
    then show "\<not> json_space c" "begin_value c st = More (MNum ns [c]) st" by blast+
  qed
  then have "json_run MValue st (s @ cs) = json_run (MNum f (rev s)) st cs"
    using sp run_number [OF s(3), of "[c]" st cs] by (simp add: s(1))
  also have "\<dots> = then_run (JNum s) st cs"
  proof (cases cs)
    case Nil
    then show ?thesis using assms(2) s(4) by (simp add: delimited_def then_run_def)
  next
    case (Cons d ds)
    then have d: "d \<in> {CHR '','', CHR '']'', CHR ''}'', CHR 0x0A}" using assms(2) by (simp add: delimited_def)
    have "num_step f d = None" using d by (cases f) (auto simp: is_digit_def)
    then show ?thesis using s(4) Cons d
      by (cases "(JNum s, st)" rule: complete.cases) (auto simp: end_number_def then_run_def split: scan.split)
  qed
  finally show ?thesis .
qed

lemma run_json_string:
  assumes "valid_utf8 s" and "awaits_value st"
  shows "json_run MValue st (json_quote s @ cs) = then_run (JStr s) st cs"
proof -
  have "json_run MValue st (json_quote s @ cs) = json_run (MStr []) st (json_escape s @ [CHR 0x22] @ cs)"
    by (simp add: json_quote_def json_space_def begin_value_def)
  also have "\<dots> = json_run (MStr (rev (json_escape s))) st ([CHR 0x22] @ cs)"
    using escape_roundtrip [OF assms(1)] by simp
  also have "\<dots> = then_run (JStr s) st cs"
    using escape_roundtrip [OF assms(1)] assms(2)
    by (cases "(s, st)" rule: end_string.cases) (auto simp: then_run_step awaits_value_def split: scan.split)
  finally show ?thesis .
qed


lemma then_run_simps:
  "then_run v [] cs = Some (v, cs)"
  "then_run v (FArr vs # st) cs = json_run MAfter (FArr (v # vs) # st) cs"
  "then_run v (FObj fs (Some k) # st) cs = json_run MAfter (FObj ((k, v) # fs) None # st) cs"
  by (simp_all add: then_run_def)

lemma complete_not_before [simp]: "complete v st \<noteq> DoneBefore v'"
  by (cases "(v, st)" rule: complete.cases) auto

lemma finish_run:
  "(case complete v st of Bad \<Rightarrow> None | More m st' \<Rightarrow> json_run m st' cs | Done v' \<Rightarrow> Some (v', cs)
    | DoneBefore v' \<Rightarrow> Some (v', x)) = then_run v st cs"
  by (auto simp: then_run_def split: scan.split)

lemma run_close_array: "json_run MAfter (FArr vs # st) (CHR '']'' # cs) = then_run (JArr (rev vs)) st cs"
  by (auto simp: then_run_def json_space_def split: scan.split)

lemma run_close_object: "json_run MAfter (FObj fs None # st) (CHR ''}'' # cs) = then_run (JObj (rev fs)) st cs"
  by (auto simp: then_run_def json_space_def split: scan.split)

lemma run_comma:
  "json_run MAfter (FArr vs # st) (CHR '','' # cs) = json_run MValue (FArr vs # st) cs"
  "json_run MAfter (FObj fs None # st) (CHR '','' # cs) = json_run MKey (FObj fs None # st) cs"
  by (simp_all add: json_space_def)

text \<open>What every encoding of a value begins with.\<close>

definition value_runs :: "json \<Rightarrow> nat \<Rightarrow> bool" where
  "value_runs v n \<longleftrightarrow> (\<forall>st cs. length st + n \<le> max_nesting \<longrightarrow> delimited cs st \<longrightarrow> awaits_value st \<longrightarrow>
    json_run MValue st (json_encode v @ cs) = then_run v st cs)"

lemma run_elements:
  assumes "vs \<noteq> []" and "list_all (\<lambda>v. value_runs v n) vs" and "Suc (length st) + n \<le> max_nesting"
  shows "json_run MValue (FArr acc # st) (join_with '','' (map json_encode vs) @ CHR '']'' # cs) =
    then_run (JArr (rev acc @ vs)) st cs"
  using assms
proof (induction vs arbitrary: acc)
  case (Cons v vs)
  have run: "delimited cs' (FArr acc # st) \<Longrightarrow>
      json_run MValue (FArr acc # st) (json_encode v @ cs') = json_run MAfter (FArr (v # acc) # st) cs'" for cs'
    using Cons.prems(2,3) by (simp add: value_runs_def then_run_simps awaits_value_def)
  show ?case
  proof (cases "vs = []")
    case True
    then show ?thesis by (simp add: run delimited_def run_close_array del: json_run.simps)
  next
    case False
    then obtain x xs where m: "map json_encode vs = x # xs" by (cases vs) auto
    have "json_run MValue (FArr acc # st) (json_encode v @ CHR '','' # join_with '','' (map json_encode vs) @ CHR '']'' # cs) =
        json_run MValue (FArr (v # acc) # st) (join_with '','' (map json_encode vs) @ CHR '']'' # cs)"
      by (simp add: run delimited_def run_comma del: json_run.simps)
    with Cons.IH [OF False, of "v # acc"] Cons.prems(2,3) m show ?thesis by (simp del: json_run.simps)
  qed
qed simp

lemma first_char:
  assumes "wf_json v n"
  obtains c r where "json_encode v = c # r" and "c \<noteq> CHR '']''" and "\<not> json_space c"
proof (cases v)
  case (JNum s)
  then obtain c r where s: "s = c # r" "num_start c \<noteq> None"
    using assms by (cases s; cases "num_start (hd s)") (auto simp: valid_number_def)
  moreover have "c \<noteq> CHR '']''" "\<not> json_space c"
    using s(2) by (auto simp: num_start_def json_space_def is_digit_def split: if_splits)
  ultimately show thesis using that JNum by simp
next
  case (JBool b)
  then show thesis using that by (cases b) (auto simp: json_space_def)
qed (use that in \<open>auto simp: json_quote_def json_space_def\<close>)

lemma run_array_first:
  assumes "vs \<noteq> []" and "list_all (\<lambda>v. wf_json v n) vs"
  shows "json_run MArrFirst st (join_with '','' (map json_encode vs) @ cs) =
    json_run MValue st (join_with '','' (map json_encode vs) @ cs)"
proof -
  obtain v vs' where vs: "vs = v # vs'" using assms(1) by (cases vs) auto
  then obtain c r where c: "json_encode v = c # r" "c \<noteq> CHR '']''" "\<not> json_space c"
    using assms(2) by (auto elim: first_char)
  obtain r' where "join_with '','' (map json_encode vs) = c # r'" using vs c(1) by (cases vs') auto
  then show ?thesis using c by simp
qed

lemma run_key:
  assumes "valid_utf8 k" and "m = MObjFirst \<or> m = MKey"
  shows "json_run m (FObj fs None # st) (json_quote k @ CHR '':'' # cs) = json_run MValue (FObj fs (Some k) # st) cs"
proof -
  have "json_run m (FObj fs None # st) (json_quote k @ CHR '':'' # cs) =
      json_run (MStr []) (FObj fs None # st) (json_escape k @ CHR 0x22 # CHR '':'' # cs)"
    using assms(2) by (auto simp: json_quote_def json_space_def)
  also have "\<dots> = json_run (MStr (rev (json_escape k))) (FObj fs None # st) (CHR 0x22 # CHR '':'' # cs)"
    using escape_roundtrip [OF assms(1)] by simp
  also have "\<dots> = json_run MValue (FObj fs (Some k) # st) cs"
    using escape_roundtrip [OF assms(1)] by (simp add: json_space_def)
  finally show ?thesis .
qed

lemma run_members_enc:
  assumes "fs \<noteq> []" and "list_all (\<lambda>(k, v). valid_utf8 k \<and> value_runs v n) fs" and "Suc (length st) + n \<le> max_nesting"
    and "m = MObjFirst \<or> m = MKey"
  shows "json_run m (FObj acc None # st)
      (join_with '','' (map (\<lambda>(k, v). json_quote k @ '':'' @ json_encode v) fs) @ CHR ''}'' # cs) =
    then_run (JObj (rev acc @ fs)) st cs"
  using assms
proof (induction fs arbitrary: acc m)
  case (Cons kv fs)
  obtain k v where kv: "kv = (k, v)" by (cases kv)
  have run: "delimited cs' (FObj acc (Some k) # st) \<Longrightarrow>
      json_run m (FObj acc None # st) (json_quote k @ CHR '':'' # json_encode v @ cs') =
      json_run MAfter (FObj ((k, v) # acc) None # st) cs'" for cs'
    using Cons.prems(2-4) run_key [of k m acc st] by (simp add: kv value_runs_def then_run_simps awaits_value_def del: json_run.simps)
  show ?case
  proof (cases "fs = []")
    case True
    then show ?thesis by (simp add: kv run delimited_def run_close_object del: json_run.simps)
  next
    case False
    let ?f = "\<lambda>(k, v). json_quote k @ '':'' @ json_encode v"
    obtain x xs where m: "map ?f fs = x # xs" using False by (cases fs) auto
    have "json_run m (FObj acc None # st)
        (json_quote k @ CHR '':'' # json_encode v @ CHR '','' # join_with '','' (map ?f fs) @ CHR ''}'' # cs) =
      json_run MKey (FObj ((k, v) # acc) None # st) (join_with '','' (map ?f fs) @ CHR ''}'' # cs)"
      by (simp add: run delimited_def run_comma del: json_run.simps)
    with Cons.IH [OF False, of MKey "(k, v) # acc"] Cons.prems(2,3) m show ?thesis by (simp add: kv del: json_run.simps)
  qed
qed simp


lemma begin_literal:
  "begin_value CHR ''n'' st = More (MLit ''ull'' JNull) st"
  "begin_value CHR ''t'' st = More (MLit ''rue'' (JBool True)) st"
  "begin_value CHR ''f'' st = More (MLit ''alse'' (JBool False)) st"
  by (simp_all add: begin_value_def is_digit_def)

lemma wf_value_runs: "wf_json v n \<Longrightarrow> value_runs v n"
proof (induction v arbitrary: n)
  case (JNum s)
  then show ?case by (simp add: value_runs_def run_json_number)
next
  case (JStr s)
  then show ?case by (simp add: value_runs_def run_json_string)
next
  case (JArr vs)
  then have wf: "0 < n" "list_all (\<lambda>v. wf_json v (n - 1)) vs" by (auto simp: list_all_iff)
  then have vs: "list_all (\<lambda>v. value_runs v (n - 1)) vs" using JArr.IH by (auto simp: list_all_iff)
  show ?case
    unfolding value_runs_def
  proof (intro allI impI)
    fix st cs
    assume st: "length st + n \<le> max_nesting" "awaits_value st"
    have open': "json_run MValue st (CHR ''['' # xs) = json_run MArrFirst (FArr [] # st) xs" for xs
      using st wf(1) by (simp add: begin_value_def open_frame_def json_space_def)
    show "json_run MValue st (json_encode (JArr vs) @ cs) = then_run (JArr vs) st cs"
    proof (cases "vs = []")
      case True
      then show ?thesis using open' [of "CHR '']'' # cs"]
        by (auto simp: then_run_def json_space_def split: scan.split)
    next
      case False
      have "Suc (length st) + (n - 1) \<le> max_nesting" using st(1) wf(1) by simp
      from run_elements [OF False vs this, of "[]" cs] show ?thesis
        by (simp add: open' run_array_first [OF False wf(2)] del: json_run.simps)
    qed
  qed
next
  case (JObj fs)
  then have wf: "0 < n" "list_all (\<lambda>(k, v). valid_utf8 k \<and> wf_json v (n - 1)) fs" by (auto simp: list_all_iff)
  have fs: "list_all (\<lambda>(k, v). valid_utf8 k \<and> value_runs v (n - 1)) fs"
    unfolding list_all_iff
  proof
    fix kv assume kv: "kv \<in> set fs"
    obtain k v where e: "kv = (k, v)" by (cases kv)
    have "v \<in> Basic_BNFs.snds (k, v)" by simp
    then show "case kv of (k, v) \<Rightarrow> valid_utf8 k \<and> value_runs v (n - 1)"
      using JObj.IH [of kv v "n - 1"] wf(2) kv e by (auto simp: list_all_iff)
  qed
  have "map (\<lambda>kv. json_quote (fst kv) @ '':'' @ snd kv) (map (map_prod id json_encode) fs) =
      map (\<lambda>(k, v). json_quote k @ '':'' @ json_encode v) fs" for fs
    by (induction fs) auto
  then have enc: "json_encode (JObj fs) @ cs =
      CHR ''{'' # join_with '','' (map (\<lambda>(k, v). json_quote k @ '':'' @ json_encode v) fs) @ CHR ''}'' # cs" for cs
    by (simp only: json_encode.simps append.simps append_assoc)
  show ?case
    unfolding value_runs_def
  proof (intro allI impI)
    fix st cs
    assume st: "length st + n \<le> max_nesting" "awaits_value st"
    have open': "json_run MValue st (CHR ''{'' # xs) = json_run MObjFirst (FObj [] None # st) xs" for xs
      using st wf(1) by (simp add: begin_value_def open_frame_def json_space_def)
    show "json_run MValue st (json_encode (JObj fs) @ cs) = then_run (JObj fs) st cs"
    proof (cases "fs = []")
      case True
      then show ?thesis using open' [of "CHR ''}'' # cs"]
        by (auto simp: then_run_def json_space_def split: scan.split)
    next
      case False
      have "Suc (length st) + (n - 1) \<le> max_nesting" using st(1) wf(1) by simp
      from run_members_enc [OF False fs this, of MObjFirst "[]" cs] show ?thesis
        unfolding enc open' by (simp del: json_run.simps)
    qed
  qed
next
  case JNull
  show ?case by (simp add: value_runs_def json_space_def begin_literal finish_run)
next
  case (JBool b)
  show ?case by (cases b) (simp_all add: value_runs_def json_space_def begin_literal finish_run)
qed

theorem json_parse_encode:
  assumes "wf_json v max_nesting" and "cs = [] \<or> cs = [CHR 0x0A]"
  shows "json_parse (json_encode v @ cs) = Some v" and "json_parse_first (json_encode v @ cs) = Some v"
proof -
  have "json_run MValue [] (json_encode v @ cs) = Some (v, cs)"
    using wf_value_runs [OF assms(1), unfolded value_runs_def, rule_format, of "[]" cs] assms(2)
    by (auto simp: delimited_def awaits_value_def then_run_simps)
  then show "json_parse (json_encode v @ cs) = Some v" "json_parse_first (json_encode v @ cs) = Some v"
    using assms(2) by (auto simp: json_parse_def json_parse_first_def json_space_def)
qed

end
