(* ===== verification/GoJSONWf.thy ===== *)
theory GoJSONWf
  imports GoJSONRound
begin

text \<open>
  What the scanner reads is well-formed: its strings are valid UTF-8 whatever bytes the text
  has, its numbers are number texts, and it is nested at most as deep as the scanner allows. So
  a value that has been read is read again from what the encoder writes of it.
\<close>

subsection \<open>Unquoted text\<close>

lemma utf8_decode_length_2:
  fixes a b :: nat
  assumes "2 \<le> a" and "a < 32" and "b < 64"
  shows "snd (utf8_decode (char_of (0xC0 + a) # char_of (0x80 + b) # s)) = 2"
  using assms by (simp add: utf8_decode_def cont_byte_def Let_def)

lemma utf8_decode_length_3:
  fixes a b c :: nat
  assumes "a < 16" and "b < 64" and "c < 64" and "a = 0 \<Longrightarrow> 32 \<le> b" and "a = 13 \<Longrightarrow> b < 32"
  shows "snd (utf8_decode (char_of (0xE0 + a) # char_of (0x80 + b) # char_of (0x80 + c) # s)) = 3"
  using assms by (cases "a = 0"; cases "a = 13") (simp_all add: utf8_decode_def cont_byte_def Let_def)

lemma utf8_decode_length_4:
  fixes a b c d :: nat
  assumes "a \<le> 4" and "b < 64" and "c < 64" and "d < 64" and "a = 0 \<Longrightarrow> 16 \<le> b" and "a = 4 \<Longrightarrow> b < 16"
  shows "snd (utf8_decode (char_of (0xF0 + a) # char_of (0x80 + b) # char_of (0x80 + c) # char_of (0x80 + d) # s)) = 4"
  using assms by (cases "a = 0"; cases "a = 4") (simp_all add: utf8_decode_def cont_byte_def Let_def)

lemma base64_digits:
  fixes q :: nat
  shows "q = q div 4096 * 4096 + q div 64 mod 64 * 64 + q mod 64"
    and "q = q div 262144 * 262144 + q div 4096 mod 64 * 4096 + q div 64 mod 64 * 64 + q mod 64"
proof -
  have d: "q div 4096 = q div 64 div 64" "q div 262144 = q div 64 div 64 div 64" by (simp_all add: div_mult2_eq [symmetric])
  show "q = q div 4096 * 4096 + q div 64 mod 64 * 64 + q mod 64"
    "q = q div 262144 * 262144 + q div 4096 mod 64 * 4096 + q div 64 mod 64 * 64 + q mod 64"
    unfolding d using div_mult_mod_eq [of q 64] div_mult_mod_eq [of "q div 64" 64] div_mult_mod_eq [of "q div 64 div 64" 64] by linarith+
qed

text \<open>What is written for a rune is one ASCII byte, or a sequence that is read as one rune.\<close>

lemma utf8_encode_shape:
  obtains c where "utf8_encode r = [c]" and "ord_of c < 0x80"
  | c cs where "utf8_encode r = c # cs" and "\<not> ord_of c < 0x80" and "cs \<noteq> []"
      and "\<And>s. snd (utf8_decode (c # cs @ s)) = length (c # cs)"
proof -
  define q where "q = (if r > 0x10FFFF \<or> 0xD800 \<le> r \<and> r < 0xE000 then 0xFFFD else r)"
  have q: "q \<le> 0x10FFFF" "\<not> (0xD800 \<le> q \<and> q < 0xE000)" by (auto simp: q_def)
  have e: "utf8_encode r = utf8_encode q" by (auto simp: utf8_encode_def q_def)
  consider (one) "q < 0x80" | (two) "0x80 \<le> q" "q < 0x800" | (three) "0x800 \<le> q" "q < 0x10000" | (four) "0x10000 \<le> q"
    by linarith
  then show thesis
  proof cases
    case one
    with that(1) [of "char_of q"] show thesis unfolding e by (simp add: utf8_encode_def)
  next
    case two
    then have a: "2 \<le> q div 64" "q div 64 < 32" by auto
    show thesis
    proof (rule that(2))
      show "utf8_encode r = char_of (0xC0 + q div 64) # [char_of (0x80 + q mod 64)]"
        unfolding e using two by (simp add: utf8_encode_def)
    qed (use a in \<open>simp_all add: utf8_decode_length_2\<close>)
  next
    case three
    have a: "q div 4096 < 16" "q div 4096 = 0 \<Longrightarrow> 32 \<le> q div 64 mod 64" "q div 4096 = 13 \<Longrightarrow> q div 64 mod 64 < 32"
      using q(2) three base64_digits(1) [of q] by auto
    show thesis
    proof (rule that(2))
      show "utf8_encode r = char_of (0xE0 + q div 4096) # [char_of (0x80 + q div 64 mod 64), char_of (0x80 + q mod 64)]"
        unfolding e using three q by (auto simp: utf8_encode_def)
    qed (use a in \<open>simp_all add: utf8_decode_length_3\<close>)
  next
    case four
    have a: "q div 262144 \<le> 4" "q div 262144 = 0 \<Longrightarrow> 16 \<le> q div 4096 mod 64" "q div 262144 = 4 \<Longrightarrow> q div 4096 mod 64 < 16"
      using q(1) four base64_digits(2) [of q] by auto
    show thesis
    proof (rule that(2))
      show "utf8_encode r = char_of (0xF0 + q div 262144) #
          [char_of (0x80 + q div 4096 mod 64), char_of (0x80 + q div 64 mod 64), char_of (0x80 + q mod 64)]"
        unfolding e using four q by (auto simp: utf8_encode_def)
    qed (use a in \<open>simp_all add: utf8_decode_length_4\<close>)
  qed
qed

lemma valid_utf8_encode [simp]: "valid_utf8 (utf8_encode r @ s) = valid_utf8 s"
proof (cases r rule: utf8_encode_shape)
  case (2 c cs)
  then obtain r' where "utf8_decode (c # cs @ s) = (r', length (c # cs))" by (metis prod.collapse)
  with 2 show ?thesis by simp
qed simp

text \<open>Escapes: the character after a backslash is ASCII. The state tells if one is open.\<close>

fun esc_state :: "bool \<Rightarrow> string \<Rightarrow> bool option" where
  "esc_state open' [] = Some open'"
| "esc_state False (c # cs) = esc_state (c = CHR 0x5C) cs"
| "esc_state True (c # cs) = (if ord_of c < 0x80 then esc_state False cs else None)"

lemma esc_state_append: "esc_state b (s @ t) = Option.bind (esc_state b s) (\<lambda>b'. esc_state b' t)"
  by (induction b s rule: esc_state.induct) auto

lemma esc_state_drop:
  "esc_state False s \<noteq> None \<Longrightarrow> CHR 0x5C \<notin> set (take k s) \<Longrightarrow> esc_state False (drop k s) \<noteq> None"
proof (induction k arbitrary: s)
  case (Suc k)
  then show ?case by (cases s) auto
qed simp

lemma hex4_no_backslash: "hex4 s = Some r \<Longrightarrow> CHR 0x5C \<notin> set (take 4 s)"
proof -
  assume h: "hex4 s = Some r"
  then obtain a b c d t where "s = a # b # c # d # t"
    by (auto simp: hex4_def not_less numeral_eq_Suc Suc_le_length_iff split: if_splits)
  with h show ?thesis by (auto simp: hex4_def hex_val_def split: if_splits option.splits)
qed

lemma valid_utf8_unquote: "esc_state False s \<noteq> None \<Longrightarrow> valid_utf8 (unquote s)"
proof (induction s rule: measure_induct_rule [where f = length])
  case (less s)
  have rest: "valid_utf8 (unquote (drop k t))"
    if "s = c # t" "esc_state False t \<noteq> None" "CHR 0x5C \<notin> set (take k t)" for c t k
    using that less.IH [of "drop k t"] esc_state_drop [of t k] by simp
  show ?case
  proof (cases s)
    case s: (Cons c t)
    show ?thesis
    proof (cases "c = CHR 0x5C")
      case False
      then have t: "esc_state False t \<noteq> None" using less.prems s by simp
      show ?thesis
      proof (cases "ord_of c < 0x80")
        case True
        then show ?thesis using False rest [OF s t, of 0] by (simp add: s)
      next
        case high: False
        obtain r n where d: "utf8_decode (c # t) = (r, n)" by fastforce
        have "CHR 0x5C \<notin> set (take (n - 1) t)"
        proof (cases "r = 0xFFFD \<and> n = 1")
          case bad: False
          from decode_multi(4) [OF high d bad] show ?thesis by (cases n) (auto simp: list_all_iff)
        qed simp
        then show ?thesis using False high d rest [OF s t] by (simp add: s)
      qed
    next
      case bs: True
      show ?thesis
      proof (cases t)
        case t: (Cons e u)
        have e: "ord_of e < 0x80" and u: "esc_state False u \<noteq> None" using less.prems by (auto simp: s bs t split: if_splits)
        have tail: "valid_utf8 (unquote (drop k u))" if "CHR 0x5C \<notin> set (take k u)" for k
          using that less.IH [of "drop k u"] esc_state_drop [OF u that] by (simp add: s t)
        show ?thesis
        proof (cases "e = CHR ''u''")
          case False
          have "ord_of (simple_escape e) < 0x80" using e by (simp add: simple_escape_def)
          then show ?thesis using False tail [of 0] by (simp add: s bs t)
        next
          case True
          show ?thesis
          proof (cases "hex4 u")
            case (Some r)
            note four = tail [OF hex4_no_backslash [OF Some]]
            have pair: "valid_utf8 (unquote (drop 10 u))"
              if "take 2 (drop 4 u) = [CHR 0x5C, CHR ''u'']" "hex4 (drop 6 u) = Some r2" for r2
            proof -
              have u4: "drop 4 u = CHR 0x5C # CHR ''u'' # drop 6 u"
                using that(1) append_take_drop_id [of 2 "drop 4 u"] by simp
              have "esc_state False (drop 6 u) \<noteq> None"
                using esc_state_drop [OF u hex4_no_backslash [OF Some]] by (simp add: u4)
              from esc_state_drop [OF this hex4_no_backslash [OF that(2)]] less.IH [of "drop 10 u"] show ?thesis
                by (simp add: s t)
            qed
            have "drop 5 t = drop 4 u" "drop 7 t = drop 6 u" "drop 11 t = drop 10 u" by (simp_all add: t)
            with four pair Some True show ?thesis by (auto simp: s bs t simp del: drop_Suc_Cons split: option.splits)
          qed (simp add: s bs t True)
        qed
      qed (simp add: s bs)
    qed
  qed simp
qed

text \<open>Valid texts appended.\<close>

lemma valid_utf8_append: "valid_utf8 s \<Longrightarrow> valid_utf8 t \<Longrightarrow> valid_utf8 (s @ t)"
proof (induction s rule: valid_utf8.induct)
  case (2 c s)
  show ?case
  proof (cases "ord_of c < 0x80")
    case False
    obtain r n where d: "utf8_decode (c # s) = (r, n)" by fastforce
    have ok: "\<not> (r = 0xFFFD \<and> n = 1)" and tail: "valid_utf8 (drop (n - 1) s)" using "2.prems"(1) False d by auto
    note m = decode_multi [OF False d ok]
    have "take n (c # s) @ drop n (c # s) @ t = c # s @ t" by (simp only: append_assoc [symmetric] append_take_drop_id) simp
    then have "utf8_decode (c # s @ t) = (r, n)" using m(5) [of "drop n (c # s) @ t"] by (simp only:)
    moreover have "n - 1 \<le> length s" using m(3) by simp
    ultimately show ?thesis using False ok "2.IH"(2) [OF False d [symmetric] refl tail "2.prems"(2)] by simp
  qed (use 2 in simp)
qed simp

lemma valid_utf8_ascii: "ascii s \<Longrightarrow> valid_utf8 s"
  by (induction s) (auto simp: ascii_def)

subsection \<open>The scanner\<close>

text \<open>A value may sit on a stack: it is well-formed and leaves the stack within the bound.\<close>

definition fits :: "frame list \<Rightarrow> json \<Rightarrow> bool" where
  "fits st v \<longleftrightarrow> wf_json v (max_nesting - length st)"

fun stack_ok :: "frame list \<Rightarrow> bool" where
  "stack_ok [] = True"
| "stack_ok (FArr vs # st) \<longleftrightarrow> length st < max_nesting \<and> list_all (fits (FArr vs # st)) vs \<and> stack_ok st"
| "stack_ok (FObj fs ko # st) \<longleftrightarrow> length st < max_nesting \<and>
    list_all (\<lambda>kv. valid_utf8 (fst kv) \<and> fits (FObj fs ko # st) (snd kv)) fs \<and>
    pred_option valid_utf8 ko \<and> stack_ok st"

definition num_state_of :: "string \<Rightarrow> num_state option" where
  "num_state_of s = (case s of [] \<Rightarrow> None | c # cs \<Rightarrow> Option.bind (num_start c) (\<lambda>ns. num_run ns cs))"

fun mode_ok :: "mode \<Rightarrow> bool" where
  "mode_ok (MStr raw) \<longleftrightarrow> esc_state False (rev raw) = Some False"
| "mode_ok (MEsc raw) \<longleftrightarrow> esc_state False (rev raw) = Some True"
| "mode_ok (MHex k raw) \<longleftrightarrow> esc_state False (rev raw) = Some False"
| "mode_ok (MNum ns raw) \<longleftrightarrow> num_state_of (rev raw) = Some ns"
| "mode_ok (MLit xs v) \<longleftrightarrow> (\<forall>n. wf_json v n)"
| "mode_ok m \<longleftrightarrow> True"

definition scan_ok :: "scan \<Rightarrow> bool" where
  "scan_ok r \<longleftrightarrow>
    (case r of Bad \<Rightarrow> True | More m st \<Rightarrow> mode_ok m \<and> stack_ok st
     | Done v \<Rightarrow> wf_json v max_nesting | DoneBefore v \<Rightarrow> wf_json v max_nesting)"

lemma scan_ok_simps [simp]:
  "scan_ok Bad" "scan_ok (More m st) \<longleftrightarrow> mode_ok m \<and> stack_ok st"
  "scan_ok (Done v) \<longleftrightarrow> wf_json v max_nesting" "scan_ok (DoneBefore v) \<longleftrightarrow> wf_json v max_nesting"
  by (simp_all add: scan_ok_def)

lemma fits_cong: "length st = length st' \<Longrightarrow> fits st = fits st'"
  by (rule ext) (simp add: fits_def)

lemma num_run_append: "num_run ns (s @ t) = Option.bind (num_run ns s) (\<lambda>ns'. num_run ns' t)"
  by (induction s arbitrary: ns) (auto split: option.split)

lemma num_state_of_snoc:
  "num_state_of s = Some ns \<Longrightarrow> num_step ns c = Some ns' \<Longrightarrow> num_state_of (s @ [c]) = Some ns'"
  by (auto simp: num_state_of_def num_run_append split: list.splits bind_splits)

lemma valid_number_iff: "valid_number s \<longleftrightarrow> (\<exists>f. num_state_of s = Some f \<and> num_final f)"
  by (auto simp: valid_number_def num_state_of_def split: list.split option.split)

lemma complete_ok:
  assumes "fits st v" and "stack_ok st"
  shows "scan_ok (complete v st)"
proof (cases "(v, st)" rule: complete.cases)
  case (2 v' vs st')
  have "fits (FArr (v # vs) # st') = fits (FArr vs # st')" by (rule fits_cong) simp
  with 2 assms show ?thesis by simp
next
  case (3 v' fs k st')
  have "fits (FObj ((k, v) # fs) None # st') = fits (FObj fs (Some k) # st')" by (rule fits_cong) simp
  with 3 assms show ?thesis by simp
qed (use assms in \<open>simp_all add: fits_def\<close>)

lemma close_ok:
  "stack_ok (FArr vs # st) \<Longrightarrow> scan_ok (complete (JArr (rev vs)) st)"
  "stack_ok (FObj fs ko # st) \<Longrightarrow> scan_ok (complete (JObj (rev fs)) st)"
  by (auto intro!: complete_ok simp: fits_def list_all_iff)

lemma after_value_ok: "stack_ok st \<Longrightarrow> scan_ok (after_value c st)"
proof -
  assume ok: "stack_ok st"
  show ?thesis
  proof (cases "(c, st)" rule: after_value.cases)
    case (1 c' vs st')
    with ok close_ok(1) [of vs st'] show ?thesis by simp
  next
    case (2 c' fs st')
    with ok close_ok(2) [of fs None st'] show ?thesis by simp
  qed simp_all
qed

lemma end_string_ok:
  assumes "valid_utf8 s" and "stack_ok st"
  shows "scan_ok (end_string s st)"
proof (cases "\<exists>fs st'. st = FObj fs None # st'")
  case True
  then obtain fs st' where st: "st = FObj fs None # st'" by blast
  have "fits (FObj fs (Some s) # st') = fits (FObj fs None # st')" by (rule fits_cong) simp
  with st assms show ?thesis by simp
next
  case False
  then have "end_string s st = complete (JStr s) st" by (cases "(s, st)" rule: end_string.cases) auto
  with assms show ?thesis by (simp add: complete_ok fits_def)
qed

lemma end_number_ok:
  assumes "valid_number t" and "stack_ok st"
  shows "scan_ok (end_number t c st)"
proof -
  have "scan_ok (complete (JNum t) st)" using assms by (intro complete_ok) (simp_all add: fits_def)
  then show ?thesis by (auto simp: end_number_def intro: after_value_ok split: scan.split)
qed

lemma begin_value_ok: "stack_ok st \<Longrightarrow> scan_ok (begin_value c st)"
  by (auto simp: begin_value_def open_frame_def num_state_of_def num_start_def)

lemma scan_step_ok:
  assumes "mode_ok m" and "stack_ok st"
  shows "scan_ok (scan_step m st c)"
proof (cases "(m, st, c)" rule: scan_step.cases)
  case (7 raw st' c')
  have "valid_utf8 (unquote (rev raw))" using assms(1) 7 by (intro valid_utf8_unquote) simp
  with 7 assms show ?thesis by (auto simp: esc_state_append intro: end_string_ok)
next
  case (9 k raw st' c')
  then have "hex_val c \<noteq> None \<Longrightarrow> c \<noteq> CHR 0x5C" by (auto simp: hex_val_def)
  with 9 assms show ?thesis by (auto simp: esc_state_append)
next
  case (10 ns raw st' c')
  with assms show ?thesis
    by (auto simp: num_state_of_snoc valid_number_iff intro!: end_number_ok split: option.split)
next
  case (11 xs v st' c')
  with assms show ?thesis by (auto intro!: complete_ok simp: fits_def)
qed (use assms in \<open>auto simp: esc_state_append intro: begin_value_ok after_value_ok\<close>)

lemma json_run_wf: "json_run m st s = Some (v, rest) \<Longrightarrow> mode_ok m \<Longrightarrow> stack_ok st \<Longrightarrow> wf_json v max_nesting"
proof (induction s arbitrary: m st)
  case Nil
  then show ?case by (auto simp: valid_number_iff split: mode.splits if_splits)
next
  case (Cons c s)
  have "scan_ok (scan_step m st c)" using Cons.prems by (intro scan_step_ok)
  then show ?case using Cons.prems(1) Cons.IH by (auto split: scan.splits)
qed

theorem json_parse_wf:
  "json_parse s = Some v \<Longrightarrow> wf_json v max_nesting" "json_parse_first s = Some v \<Longrightarrow> wf_json v max_nesting"
  by (auto simp: json_parse_def json_parse_first_def dest: json_run_wf split: option.splits prod.splits if_splits)

text \<open>Reading, writing and reading again gives the same value.\<close>

corollary json_reparse: "json_parse s = Some v \<Longrightarrow> json_parse (json_encode v) = Some v"
  using json_parse_encode [of v "[]"] json_parse_wf by simp

end
