(* ===== verification/Documents.thy ===== *)
theory Documents
  imports RuntimeFacts GoJSONWf
begin

text \<open>
  The JSON documents of the OAuth endpoints as a client reads them: the discovery documents and
  where their addresses lead, the answer to a registration, and the token response.
\<close>

subsection \<open>Well-formed documents\<close>

lemma wf_json_strings [simp]: "wf_json (json_strings ss) n \<longleftrightarrow> 0 < n \<and> list_all valid_utf8 ss"
  by (auto simp: json_strings_def list_all_iff)

lemma wf_json_object [simp]:
  "wf_json (JObj fs) n \<longleftrightarrow> 0 < n \<and> list_all (\<lambda>kv. valid_utf8 (fst kv) \<and> wf_json (snd kv) (n - 1)) fs"
  by (auto simp: list_all_iff)

lemma wf_json_array [simp]: "wf_json (JArr vs) n \<longleftrightarrow> 0 < n \<and> list_all (\<lambda>v. wf_json v (n - 1)) vs"
  by (auto simp: list_all_iff)

declare wf_json.simps(5,6) [simp del]

lemma wf_json_map [simp]: "wf_json (json_map m) n \<longleftrightarrow> wf_json (JObj m) n"
  by (simp add: json_map_def list_all_iff)

lemma ascii_texts [simp]:
  "valid_utf8 ''S256''" "valid_utf8 ''mcp''" "valid_utf8 ''none''" "valid_utf8 ''code''" "valid_utf8 ''header''"
  "valid_utf8 ''authorization_code''" "valid_utf8 ''client_secret_post''" "valid_utf8 ''Bearer''"
  "valid_utf8 ''invalid_redirect_uri''"
  by simp_all

lemma wf_token_response:
  assumes "valid_utf8 (AccessToken resp)" and "valid_utf8 (TokenType resp)" and "valid_utf8 (Scope resp)"
  shows "wf_json (token_response_json resp) max_nesting"
  using assms by (simp add: token_response_json_def max_nesting_def valid_number_show_int)

lemma wf_registration_response:
  assumes "valid_utf8 (ClientID resp)" and "list_all valid_utf8 (RedirectURIs resp)"
    and "GrantTypes resp = [''authorization_code'']" and "ResponseTypes resp = [''code'']"
    and "TokenEndpointAuthMethod resp = ''none''" and "CodeChallengeMethodsSupported resp = [''S256'']"
    and "rsp_Scope resp = ''mcp''"
  shows "wf_json (registration_response_json resp) max_nesting"
  using assms by (simp add: registration_response_json_def max_nesting_def valid_number_show_int)

lemma wf_metadata:
  assumes "valid_utf8 base" and "c = \<lparr>Issuer = base, Resource = mcpServiceURL base, ScopesSupported = [mcpScope]\<rparr>"
  shows "wf_json (json_map (AuthorizationServerMetadata c)) max_nesting"
    and "wf_json (json_map (ProtectedResourceMetadata c)) max_nesting"
  using assms
  by (simp_all add: AuthorizationServerMetadata_def ProtectedResourceMetadata_def max_nesting_def mcpServiceURL_def
      mcpBasePath_def mcpScope_def valid_utf8_append)

lemma ascii_b64: "set s \<subseteq> b64_alphabet \<Longrightarrow> ascii s"
  by (fastforce simp: ascii_def list_all_iff b64_alphabet_def)

lemma token_response_parses:
  assumes "set tok \<subseteq> b64_alphabet"
  shows "json_parse (json_encode (token_response_json
      \<lparr>AccessToken = tok, TokenType = ''Bearer'', ExpiresIn = ttl, Scope = ''mcp''\<rparr>) @ [CHR 0x0A]) =
    Some (token_response_json \<lparr>AccessToken = tok, TokenType = ''Bearer'', ExpiresIn = ttl, Scope = ''mcp''\<rparr>)"
  using valid_utf8_ascii [OF ascii_b64 [OF assms]] by (intro json_parse_encode wf_token_response) simp_all

subsection \<open>Discovery\<close>

lemma endpoint_routes:
  assumes "URL_RawPath q = []" and "(URL_Path q, rt) \<in> set registered"
  shows "findHandler q = Routed rt"
proof -
  have "list_all (\<lambda>(p, rt). plain_path p \<and> map_of registered p = Some rt) registered" by code_simp
  with assms(2) have "plain_path (URL_Path q)" "map_of registered (URL_Path q) = Some rt" by (auto simp: list_all_iff)
  with findHandler_plain [OF _ assms(1)] show ?thesis by (simp add: route_of_def)
qed


lemma sample_base: "valid_utf8 (cfg_ProxyBaseURL sample_oauth)"
  by (simp add: sample_oauth_def)


subsection \<open>Registration\<close>

lemma register_loop_iff: "register_loop us = Inr () \<longleftrightarrow> list_all IsAllowedRedirect us"
proof -
  have "url_parse [] = Some empty_url" by code_simp
  then have "\<not> IsAllowedRedirect []" by (simp add: IsAllowedRedirect_eq empty_url_def)
  then show ?thesis by (induction us) auto
qed

lemma decode_string_elems_utf8:
  "decode_string_elems vs old = Some ss \<Longrightarrow> list_all (\<lambda>v. wf_json v n) vs \<Longrightarrow> list_all valid_utf8 old \<Longrightarrow>
    list_all valid_utf8 ss"
proof (induction vs old arbitrary: ss rule: decode_string_elems.induct)
  case (2 v vs old)
  have "list_all valid_utf8 (tl old)" "old \<noteq> [] \<Longrightarrow> valid_utf8 (hd old)" using 2(4) by (cases old; simp)+
  with 2 show ?case by (auto split: json.splits option.splits if_splits)
qed simp

lemma decode_registration_fields_utf8:
  "decode_registration_fields fs cur backing = Some ss \<Longrightarrow> list_all (\<lambda>kv. wf_json (snd kv) n) fs \<Longrightarrow>
    list_all valid_utf8 cur \<Longrightarrow> list_all valid_utf8 backing \<Longrightarrow> list_all valid_utf8 ss"
proof (induction fs cur backing rule: decode_registration_fields.induct)
  case (2 k v fs cur backing)
  have drop': "list_all valid_utf8 (drop m backing)" for m
    using 2 by (auto simp: list_all_iff dest: in_set_dropD)
  show ?case
  proof (cases "field_key k ''redirect_uris''")
    case True
    show ?thesis
    proof (cases v)
      case v: (JArr vs)
      show ?thesis
      proof (cases vs)
        case (Cons x xs)
        then obtain us where us: "decode_string_elems vs backing = Some us"
            "decode_registration_fields fs us (us @ drop (length us) backing) = Some ss"
          using "2.prems"(1) True v by (auto split: option.splits)
        have "list_all valid_utf8 us"
          using us(1) "2.prems" v by (auto intro: decode_string_elems_utf8 [of vs backing us "n - 1"])
        with us "2.prems" True v Cons drop' "2.IH"(3) show ?thesis by simp
      qed (use 2 True v in simp)
    qed (use 2 True in auto)
  qed (use 2 in simp)
qed simp

lemma decode_registration_utf8:
  assumes "json_parse_first b = Some v" and "decode_registration v = Some req"
  shows "list_all valid_utf8 (rr_RedirectURIs req)"
proof (cases v)
  case (JObj fs)
  have "list_all (\<lambda>kv. wf_json (snd kv) (max_nesting - 1)) fs"
    using json_parse_wf(2) [OF assms(1)] by (simp add: JObj list_all_iff)
  with assms(2) show ?thesis by (auto simp: JObj decode_registration_def dest: decode_registration_fields_utf8)
qed (use assms(2) in \<open>auto simp: decode_registration_def\<close>)

lemma decode_string_elems_JStr: "decode_string_elems (map JStr us) old = Some us"
  by (induction us arbitrary: old) auto

lemma decode_own_registration:
  assumes "registration_response_json resp = JObj fs" and "RedirectURIs resp \<noteq> []"
  shows "decode_registration (JObj fs) = Some \<lparr>rr_RedirectURIs = RedirectURIs resp\<rparr>"
proof -
  have other: "\<not> field_key ''client_id'' ''redirect_uris''" "\<not> field_key ''client_id_issued_at'' ''redirect_uris''"
    "\<not> field_key ''grant_types'' ''redirect_uris''" "\<not> field_key ''response_types'' ''redirect_uris''"
    "\<not> field_key ''token_endpoint_auth_method'' ''redirect_uris''"
    "\<not> field_key ''code_challenge_methods_supported'' ''redirect_uris''" "\<not> field_key ''scope'' ''redirect_uris''"
    by code_simp+
  obtain u us where u: "RedirectURIs resp = u # us" using assms(2) by (cases "RedirectURIs resp") auto
  have "decode_string_elems (JStr u # map JStr us) [] = Some (u # us)"
    using decode_string_elems_JStr [of "u # us" "[]"] by simp
  then show ?thesis
    using assms(1) by (auto simp: registration_response_json_def decode_registration_def json_strings_def u other)
qed


definition sample_register_http :: request where
  "sample_register_http = \<lparr>Method = ''POST'', RemoteAddr = ''127.0.0.1:5000'', Header = [], URL_Path = ''/register'',
     URL_RawPath = [], URL_RawQuery = [],
     Body = Inr (json_encode (JObj [(''redirect_uris'', JArr [JStr ''https://claude.ai/cb''])])), Context = []\<rparr>"


end
