(* ===== verification/OAuthFlow.thy ===== *)
theory OAuthFlow
  imports Documents ServiceStore
begin

text \<open>
  The OAuth flow across the three endpoints: authorization, token exchange, use of the token at
  the proxy. The client in between only reads the redirect and the token response.
\<close>

lemma trim_left_of_none:
  assumes "list_all (\<lambda>e. e \<noteq> [] \<and> hd e \<noteq> c) encs"
  shows "trim_left_of encs (c # s) = c # s"
proof -
  have "find (has_prefix (c # s)) encs = None"
    using assms by (auto simp: find_None_iff list_all_iff has_prefix_iff) (metis append_eq_Cons_conv list.sel(1))
  then show ?thesis by simp
qed

lemma b64_not_space:
  assumes "c \<in> b64_alphabet"
  shows "list_all (\<lambda>e. e \<noteq> [] \<and> hd e \<noteq> c) space_encodings" "list_all (\<lambda>e. e \<noteq> [] \<and> hd e \<noteq> c) (map rev space_encodings)"
  using assms by (auto simp: space_encodings_def b64_alphabet_def is_letter_def is_digit_def)

lemma trim_space_b64:
  assumes "set s \<subseteq> b64_alphabet"
  shows "trim_space s = s"
proof (cases s)
  case Nil
  then show ?thesis by (simp add: trim_space_def)
next
  case (Cons c cs)
  have l: "trim_left_of space_encodings s = s"
    unfolding Cons by (rule trim_left_of_none) (use assms Cons b64_not_space(1) in auto)
  obtain d ds where r: "rev s = d # ds" using Cons by (cases "rev s") auto
  then have "d \<in> set s" by (metis list.set_intros(1) set_rev)
  then have "trim_left_of (map rev space_encodings) (rev s) = rev s"
    unfolding r by (intro trim_left_of_none) (use assms b64_not_space(2) in auto)
  then show ?thesis using l by (simp add: trim_space_def)
qed

text \<open>
  C1. The flow works. Take a valid authorization request and a client that posts to \<^verbatim>\<open>/token\<close> the
  code it reads from the redirect, with the same redirect URI and a verifier of its challenge,
  before the code expires. If the random source works and the store accepts the token, the
  answer is 200 and its body parses to the token's JSON object; from then until the second it was
  issued plus the
  configured lifetime, a request that carries the token as its bearer token is admitted by the
  proxy, and afterwards it is not.
\<close>

theorem oauth_flow:
  assumes "may_redirect r1 (OAuthProxy (cfg s))" and "authorize_ok (authorize_request r1) (OAuthProxy (cfg s))"
    and "plain_redirect (query_of r1 ''redirect_uri'')" and "status w1 = None"
    and "HandleAuthorize rd1 r1 w1 s = (Returns w1', s1)"
    and "Method r2 = ''POST''" and "ParseForm r2 = Some form"
    and "token_request form = \<lparr>tr_GrantType = ''authorization_code'', tr_ClientID = query_of r1 ''client_id'',
      tr_ClientSecret = [], tr_RedirectURI = query_of r1 ''redirect_uri'', tr_Code = location_param w1' ''code'',
      tr_CodeVerifier = verifier\<rparr>"
    and "query_of r1 ''code_challenge'' = [] \<or> ValidatePKCE (query_of r1 ''code_challenge'') verifier"
    and "rd_now1 rd2 \<le> rd_now1 rd1 + seconds_duration (cfg_AuthCodeTTL (OAuthProxy (cfg s)))"
    and "GenerateRandomString 32 (rd_random rd2) = Inr tok"
    and "ttl = cfg_AccessTokenTTL (OAuthProxy (cfg s))" and "0 \<le> ttl" and "ttl \<le> 9223372036"
    and "clock (Unix (rd_now2 rd2))" and "status w2 = None" and "resp_body w2 = []"
    and "fst (st_Save (store s) (rd_store rd2) (AList.update (HashToken tok) (f64_of_int (Unix (rd_now2 rd2) + ttl)) (accessTokens s))
      (store_state s)) = Inr ()"
    and "HandleToken rd2 r2 w2 s1 = (Returns w2', s2)"
    and "header_get (Header r3) ''Authorization'' = ''Bearer '' @ tok" and "clock n"
  shows "status w2' = Some 200 \<and>
    json_parse (resp_body w2') = Some (token_response_json
      \<lparr>AccessToken = tok, TokenType = ''Bearer'', ExpiresIn = ttl, Scope = ''mcp''\<rparr>) \<and>
    admitted n r3 s2 = (if n < Unix (rd_now2 rd2) + ttl then Some r3 else None)"
proof -
  define e where "e = Unix (rd_now2 rd2) + ttl"
  define toks where "toks = AList.update (HashToken tok) (f64_of_int e) (accessTokens s)"
  note fr = HandleAuthorize_frame [OF assms(5)]
  have stored: "map_of (authCodes s1) (location_param w1' ''code'') =
      Some (code_for (authorize_request r1) (rd_now1 rd1) (OAuthProxy (cfg s)))"
    by (rule authorize_location_code [OF assms(5,4,1,3,2)])
  have ex: "Unix (rd_now2 rd2 + seconds_duration ttl) = e"
    using assms(13,14) by (simp add: seconds_duration_exact Unix_add_seconds e_def)
  have allowed: "IsAllowedRedirect (query_of r1 ''redirect_uri'')" "query_of r1 ''client_id'' = cfg_ClientID (OAuthProxy (cfg s))"
    using assms(1) by (simp_all add: may_redirect_def)
  have "url_parse [] = Some empty_url" by code_simp
  then have "\<not> IsAllowedRedirect []" by (simp add: IsAllowedRedirect_eq empty_url_def)
  with allowed(1) have ne: "query_of r1 ''redirect_uri'' \<noteq> []" by auto
  have red: "redeemable (token_request form) (rd_now1 rd2) (authCodes s1)"
    using stored assms(9,10) ne by (auto simp: redeemable_def assms(8) code_for_def authorize_request_def)
  have auth: "authenticateClient (query_of r1 ''client_id'') [] s1"
    using allowed(2) fr by (simp add: authenticateClient_iff)
  obtain st' where sv: "st_Save (store s1) (rd_store rd2) toks (store_state s1) = (Inr (), st')"
    using assms(18) fr by (metis e_def toks_def prod.collapse)
  have ttl1: "cfg_AccessTokenTTL (OAuthProxy (cfg s1)) = ttl" using fr assms(12) by simp
  define resp where "resp = \<lparr>AccessToken = tok, TokenType = ''Bearer'', ExpiresIn = ttl, Scope = ''mcp''\<rparr>"
  define s1' where "s1' = count_token_issued (s1\<lparr>authCodes := AList.delete (location_param w1' ''code'') (authCodes s1),
    accessTokens := toks, store_state := st'\<rparr>)"
  have x: "ExchangeToken (token_request form) (rd_random rd2) (rd_now1 rd2) (rd_now2 rd2) (rd_store rd2) s1 =
      (Returns (Inr resp), s1')"
    unfolding exchange_Inr_iff
    by (rule exI [of _ tok], rule exI [of _ st'])
      (use red auth sv fr in \<open>simp add: assms(8,11) assms(12) [symmetric] ex toks_def resp_def s1'_def Let_def\<close>)
  have h: "w2' = encode_reply (token_response_json resp) (set_header ''Content-Type'' ''application/json'' w2)"
      "accessTokens s2 = toks"
    using assms(19) HandleToken_form [OF assms(6,7), of rd2 w2 s1] x by (auto simp: frame_simps s1'_def)
  have "f64_of_int e = of_int e"
    using assms(13-15) by (intro f64_of_int_exact) (auto simp: clock_def e_def)
  then have v: "ValidateAccessToken tok n s2 \<longleftrightarrow> n < e"
    using clock_exact [OF assms(21)] by (simp add: ValidateAccessToken_def h(2) toks_def del: of_int_add)
  have "set tok \<subseteq> b64_alphabet" using random_code_form [OF assms(11)] by simp
  then have t: "trim_space tok = tok" by (rule trim_space_b64)
  have hp: "has_prefix (''Bearer '' @ tok) ''Bearer ''" by (auto simp only: has_prefix_iff)
  have "''Bearer '' @ tok \<noteq> []" by simp
  then have "admitted n r3 s2 = (if n < e then Some r3 else None)"
    unfolding admitted_def Let_def assms(20) using v t hp by (simp only: trim_prefix_append simp_thms if_True)
  moreover have "json_parse (resp_body w2') = Some (token_response_json resp)"
    using token_response_parses [OF \<open>set tok \<subseteq> b64_alphabet\<close>] h(1) assms(17) by (simp add: resp_def)
  ultimately show ?thesis using h(1) assms(16) by (simp add: e_def resp_def)
qed

text \<open>The sample client, which sends its form in the query of the POST.\<close>

definition flow_form :: url_values where
  "flow_form = [(''client_id'', ''me''), (''code'', sample_token), (''code_verifier'', ''verifier''),
     (''grant_type'', ''authorization_code''), (''redirect_uri'', ''https://claude.ai/cb'')]"

definition flow_post :: request where
  "flow_post = \<lparr>Method = ''POST'', RemoteAddr = ''127.0.0.1:5000'', Header = [], URL_Path = ''/token'', URL_RawPath = [],
     URL_RawQuery = values_encode flow_form, Body = Inr [], Context = []\<rparr>"

lemma flow_post_parses: "ParseForm flow_post = Some flow_form"
proof -
  have "sort_key fst flow_form = flow_form" by (simp add: flow_form_def less_char_def)
  moreover have "parse_query (values_encode flow_form) = (sort_key fst flow_form, False)"
    by (rule parse_query_values_encode) (simp_all add: flow_form_def max_query_params_def)
  moreover have "parse_media_type ''application/octet-stream'' = Some ''application/octet-stream''" by code_simp
  ultimately show ?thesis
    by (simp add: ParseForm_def parse_post_form_def flow_post_def header_get_def)
qed

lemma oauth_flow_witness:
  "\<exists>w1 s1 w2 s2. HandleAuthorize sample_readings sample_authorize_http fresh_response sample_service = (Returns w1, s1) \<and>
    HandleToken sample_readings flow_post fresh_response s1 = (Returns w2, s2) \<and> status w2 = Some 200 \<and>
    admitted 87399 (token_call\<lparr>Header := [(''Authorization'', [''Bearer '' @ sample_token])]\<rparr>) s2 \<noteq> None"
proof -
  let ?r3 = "token_call\<lparr>Header := [(''Authorization'', [''Bearer '' @ sample_token])]\<rparr>"
  obtain w1 s1 where a: "HandleAuthorize sample_readings sample_authorize_http fresh_response sample_service = (Returns w1, s1)"
    using sample_authorize_runs by blast
  have "w1 = http_Redirect (''https://claude.ai/cb'' @ ''?'' @ values_encode [(''code'', sample_token), (''state'', ''xyz'')]) 302 fresh_response"
    using a by (simp add: HandleAuthorize_redirects sample_may_redirect redirect_reply_def sample_query sample_authorized
        IssueAuthCode_ok sample_readings_def) (simp add: sample_authorize_def)
  then have code: "location_param w1 ''code'' = sample_token"
    using location_param_redirect [OF redirect_example sample_plain_redirect, of "''code''" sample_token "[(''state'', ''xyz'')]"]
    by (simp add: gomap_ok_def values_get_def fresh_response_def)
  have form: "token_request flow_form = \<lparr>tr_GrantType = ''authorization_code'', tr_ClientID = query_of sample_authorize_http ''client_id'',
      tr_ClientSecret = [], tr_RedirectURI = query_of sample_authorize_http ''redirect_uri'', tr_Code = location_param w1 ''code'',
      tr_CodeVerifier = ''verifier''\<rparr>"
    by (simp add: token_request_def flow_form_def FormValue_def values_get_def sample_query code)
  have post: "Method flow_post = ''POST''" by (simp add: flow_post_def)
  have ch: "query_of sample_authorize_http ''code_challenge'' = sample_challenge"
    using sample_query(1) by (simp add: authorize_request_def sample_authorize_def)
  have u: "Unix (rd_now2 sample_readings) = 1000" by (simp add: sample_readings_def Unix_def second_def)
  have "f64_of_int 87400 = 87400" using f64_of_int_exact [of 87400] by simp
  then have sv: "fst (st_Save (SQLite_Store list_engine) 1000 (AList.update (HashToken sample_token) (f64_of_int 87400) []) one_row) = Inr ()"
    by (simp add: SQLite_Store_def SQLiteStore_Save_def list_engine_def ld_step_def ld_call_def one_row_def f64_to_int64_def)
  obtain y2 s2 where h0: "HandleToken sample_readings flow_post fresh_response s1 = (y2, s2)" by fastforce
  have "\<exists>w2. y2 = Returns w2"
  proof -
    have "GenerateRandomString 32 (rd_random sample_readings) = Inr sample_token" by (simp add: sample_readings_def)
    moreover obtain res s3 where x: "ExchangeToken (token_request flow_form) (rd_random sample_readings)
        (rd_now1 sample_readings) (rd_now2 sample_readings) (rd_store sample_readings) s1 = (res, s3)" by fastforce
    ultimately have "res \<noteq> Panics e" for e
      by (auto simp: ExchangeToken_stages exchange_finish_def split: prod.splits sum.splits)
    then show ?thesis using h0 x HandleToken_form [OF post flow_post_parses, of sample_readings fresh_response s1]
      by (cases res) (auto split: sum.splits)
  qed
  then obtain w2 where h: "HandleToken sample_readings flow_post fresh_response s1 = (Returns w2, s2)" using h0 by blast
  have "status w2 = Some 200 \<and> json_parse (resp_body w2) = Some (token_response_json
        \<lparr>AccessToken = sample_token, TokenType = ''Bearer'', ExpiresIn = 86400, Scope = ''mcp''\<rparr>) \<and>
      admitted 87399 ?r3 s2 = (if 87399 < Unix (rd_now2 sample_readings) + 86400 then Some ?r3 else None)"
  proof (rule oauth_flow [OF _ _ _ _ a post flow_post_parses form _ _ _ _ _ _ _ _ _ _ h])
    show "rd_now1 sample_readings \<le> rd_now1 sample_readings + seconds_duration (cfg_AuthCodeTTL (OAuthProxy (cfg sample_service)))"
      "86400 = cfg_AccessTokenTTL (OAuthProxy (cfg sample_service))"
      by (simp_all add: sample_oauth_def seconds_duration_exact second_def)
    show "fst (st_Save (store sample_service) (rd_store sample_readings) (AList.update (HashToken sample_token)
        (f64_of_int (Unix (rd_now2 sample_readings) + 86400)) (accessTokens sample_service)) (store_state sample_service)) = Inr ()"
      using sv by (simp add: u) (simp add: sample_readings_def)
    show "GenerateRandomString 32 (rd_random sample_readings) = Inr sample_token" by (simp add: sample_readings_def)
  qed (use sample_may_redirect sample_authorized sample_plain_redirect ch u in \<open>simp_all add: sample_query clock_def
        fresh_response_def header_get_def\<close>)
  then show ?thesis using a h u by (intro exI [of _ w1] exI [of _ s1] exI [of _ w2] exI [of _ s2]) simp
qed

end
