(* ===== verification/App.thy ===== *)
theory App
  imports Runtime ServiceStore
begin

text \<open>
  \<^verbatim>\<open>internal/runtime/app.go\<close>, \<^verbatim>\<open>internal/httpserver/server.go\<close> and
  \<^verbatim>\<open>cmd/mcp-runtime/main.go\<close>: the construction of the application over the store the
  configuration chooses, the listening server, the run until a signal or an error, and the
  command line. The state the program leaves behind is the file system and the database.

  The listening socket, \<^verbatim>\<open>Serve\<close> and \<^verbatim>\<open>Shutdown\<close> are outside: their results are arguments.
  Whether a PEM text holds a certificate is the parameter \<open>pem_ok\<close>. The lines that go to the
  logger and to standard output are left out.
\<close>

subsection \<open>Stores over a larger state\<close>

definition on_fst :: "'s Store \<Rightarrow> ('s \<times> 'b) Store" where
  "on_fst st = \<lparr>
     st_Load = \<lambda>t (s, b). (let (r, s') = st_Load st t s in (r, s', b)),
     st_Save = \<lambda>t m (s, b). (let (r, s') = st_Save st t m s in (r, s', b)),
     st_Close = \<lambda>(s, b). (let (r, s') = st_Close st s in (r, s', b))\<rparr>"

definition on_snd :: "'s Store \<Rightarrow> ('b \<times> 's) Store" where
  "on_snd st = \<lparr>
     st_Load = \<lambda>t (b, s). (let (r, s') = st_Load st t s in (r, b, s')),
     st_Save = \<lambda>t m (b, s). (let (r, s') = st_Save st t m s in (r, b, s')),
     st_Close = \<lambda>(b, s). (let (r, s') = st_Close st s in (r, b, s'))\<rparr>"

subsection \<open>httpserver/server.go\<close>

record Server =
  srv_addr :: string
  boundAddr :: string
  ready :: bool

definition Server_New :: "Config \<Rightarrow> Server" where
  "Server_New c =
    \<lparr>srv_addr = cfg_ListenHost (Runtime c) @ '':'' @ show_int (cfg_ListenPort (Runtime c)),
     boundAddr = [], ready = False\<rparr>"

text \<open>
  \<open>lis\<close> is the outcome of \<^verbatim>\<open>net.Listen\<close>, the address bound; \<open>served\<close> the error with which
  \<^verbatim>\<open>Serve\<close> ends. Closing a closed channel panics, after the address has been stored.
\<close>

definition Server_Start :: "string result \<Rightarrow> string \<Rightarrow> Server \<Rightarrow> unit result run \<times> Server" where
  "Server_Start lis served s =
    (case lis of
       Inl e \<Rightarrow> (Returns (Inl e), s)
     | Inr addr \<Rightarrow>
         (let s1 = s\<lparr>boundAddr := addr\<rparr> in
          if ready s1 then (Panics ''close of closed channel'', s1)
          else (Returns (Inl served), s1\<lparr>ready := True\<rparr>)))"

definition Server_Addr :: "Server \<Rightarrow> string" where
  "Server_Addr s = boundAddr s"

text \<open>
  \<open>cancelled\<close> is the error of the context if it is done. With both at hand \<^verbatim>\<open>select\<close> picks either:
  \<open>first\<close>; with neither it blocks.
\<close>

definition WaitReady :: "bool \<Rightarrow> string option \<Rightarrow> Server \<Rightarrow> unit result option" where
  "WaitReady first cancelled s =
    (case cancelled of
       None \<Rightarrow> (if ready s then Some (Inr ()) else None)
     | Some e \<Rightarrow> (if ready s \<and> first then Some (Inr ()) else Some (Inl e)))"

definition Server_Stop :: "unit result \<Rightarrow> Server \<Rightarrow> unit result" where
  "Server_Stop shut s = shut"

subsection \<open>app.go: the HTTP client\<close>

text \<open>Durations in seconds; \<^verbatim>\<open>None\<close> for the roots is the pool of the system.\<close>

record http_client =
  MinVersion :: nat
  RootCAs :: "string option"
  MaxIdleConns :: int
  IdleConnTimeout :: int
  TLSHandshakeTimeout :: int
  Timeout :: int

definition tls_VersionTLS12 :: nat where
  "tls_VersionTLS12 = 0x0303"

definition createHTTPClient :: "(string \<Rightarrow> bool) \<Rightarrow> string \<Rightarrow> fs \<Rightarrow> http_client result \<times> fs" where
  "createHTTPClient pem_ok caCertPath w =
    (let mk = (\<lambda>pool. \<lparr>MinVersion = tls_VersionTLS12, RootCAs = pool, MaxIdleConns = 100,
                 IdleConnTimeout = 90, TLSHandshakeTimeout = 10, Timeout = 30\<rparr>) in
     if caCertPath \<noteq> [] then
       (case os_ReadFile caCertPath w of
          (Inl e, w1) \<Rightarrow> (Inl (''failed to read CA cert: '' @ e), w1)
        | (Inr caCert, w1) \<Rightarrow>
            if \<not> pem_ok caCert then (Inl ''failed to append CA cert'', w1)
            else (Inr (mk (Some caCert)), w1))
     else (Inr (mk None), w))"

subsection \<open>app.go: construction\<close>

text \<open>\<^verbatim>\<open>slog.Level\<close>, ordered by severity.\<close>

datatype level = LevelDebug | LevelInfo | LevelWarn | LevelError

fun level_value :: "level \<Rightarrow> int" where
  "level_value LevelDebug = - 4"
| "level_value LevelInfo = 0"
| "level_value LevelWarn = 4"
| "level_value LevelError = 8"

instantiation level :: linorder
begin

definition less_eq_level :: "level \<Rightarrow> level \<Rightarrow> bool" where
  "less_eq_level a b \<longleftrightarrow> level_value a \<le> level_value b"

definition less_level :: "level \<Rightarrow> level \<Rightarrow> bool" where
  "less_level a b \<longleftrightarrow> level_value a < level_value b"

instance
proof
  fix a b :: level
  show "a \<le> b \<Longrightarrow> b \<le> a \<Longrightarrow> a = b"
    by (cases a; cases b) (simp_all add: less_eq_level_def)
qed (auto simp: less_eq_level_def less_level_def)

end

definition log_level :: "Config \<Rightarrow> level" where
  "log_level c =
    (let l = to_lower (cfg_LogLevel (Runtime c)) in
     if l = ''debug'' then LevelDebug else if l = ''warn'' then LevelWarn
     else if l = ''error'' then LevelError else LevelInfo)"

record 'db App =
  app_cfg :: Config
  server :: Server
  oauth :: "(fs \<times> 'db) Service"

text \<open>What \<^verbatim>\<open>NewApp\<close> sets up: the level of the logger, and the application with its client.\<close>

definition open_store :: "'db sql_engine \<Rightarrow> Config \<Rightarrow> fs \<times> 'db \<Rightarrow> (fs \<times> 'db) Store result \<times> fs \<times> 'db" where
  "open_store E c = (\<lambda>(w, db).
    if cfg_UseSQLite (OAuthProxy c) then
      (case NewSQLiteStore E (cfg_TokensDB (OAuthProxy c)) db of
         (Inl e, db1) \<Rightarrow> (Inl (''failed to initialize sqlite store: '' @ e), w, db1)
       | (Inr _, db1) \<Rightarrow> (Inr (on_snd (SQLite_Store E)), w, db1))
    else
      (Inr (on_fst (JSON_Store (NewTokenStore (cfg_TokensFile (OAuthProxy c))
         (cfg_AllowTokenStoreRecovery (OAuthProxy c))))), w, db))"

definition NewApp ::
    "(string \<Rightarrow> bool) \<Rightarrow> 'db sql_engine \<Rightarrow> Config \<Rightarrow> obs \<Rightarrow> int \<Rightarrow> fs \<times> 'db
      \<Rightarrow> level \<times> (http_client \<times> 'db App) result \<times> fs \<times> 'db" where
  "NewApp pem_ok E c ob t = (\<lambda>(w, db).
    (log_level c,
     (case createHTTPClient pem_ok (cfg_MCPCACert (OAuthProxy c)) w of
        (Inl e, w1) \<Rightarrow> (Inl (''failed to create http client: '' @ e), w1, db)
      | (Inr client, w1) \<Rightarrow>
          (case open_store E c (w1, db) of
             (Inl e, wd) \<Rightarrow> (Inl e, wd)
           | (Inr st, wd) \<Rightarrow>
               (case NewService c st wd (NewAuditLogger (cfg_AuditLogFile (OAuthProxy c))) ob t of
                  (Inl e, wd1) \<Rightarrow> (Inl e, wd1)
                | (Inr s, wd1) \<Rightarrow>
                    (Inr (client, \<lparr>app_cfg = c, server = Server_New c, oauth = s\<rparr>), wd1))))))"

subsection \<open>app.go: the run\<close>

text \<open>
  What happens while the application runs, one request or sweep at a time: the readings and the
  backend belong to the request.
\<close>

datatype activity =
  Incoming "backend_request \<Rightarrow> backend_response result" proxy_readings "string result" request
| Sweeping int "string \<Rightarrow> int" int

fun serve_all :: "activity list \<Rightarrow> 's Service \<Rightarrow> 's Service" where
  "serve_all [] s = s"
| "serve_all (Incoming backend rd rnd r # rest) s = serve_all rest (snd (newHandler backend rd rnd r s))"
| "serve_all (Sweeping now nowc t # rest) s = serve_all rest (PurgeExpired now nowc t s)"

text \<open>
  What ends it: \<^verbatim>\<open>Start\<close> returned, with the outcome of \<^verbatim>\<open>Listen\<close> and the error of \<^verbatim>\<open>Serve\<close>, or a
  signal came, when the server may have bound its address, and \<^verbatim>\<open>Shutdown\<close> was called. The
  deferred calls follow, the last of them the \<^verbatim>\<open>Close\<close> of the service, whose error is dropped. A
  panic of the goroutine that serves ends the program there.
\<close>

datatype stop_cause = ServerReturned "string result" string | Signalled "string option" "unit result"

definition App_Run :: "activity list \<Rightarrow> stop_cause \<Rightarrow> 'db App \<Rightarrow> unit result run \<times> 'db App" where
  "App_Run acts cause a =
    (let s = serve_all acts (oauth a) in
     case cause of
       ServerReturned lis served \<Rightarrow>
         (case Server_Start lis served (server a) of
            (Panics e, srv) \<Rightarrow> (Panics e, a\<lparr>server := srv, oauth := s\<rparr>)
          | (Returns e, srv) \<Rightarrow> (Returns e, a\<lparr>server := srv, oauth := snd (Service_Close s)\<rparr>))
     | Signalled bound shut \<Rightarrow>
         (let srv = (case bound of None \<Rightarrow> server a | Some addr \<Rightarrow> snd (Server_Start (Inr addr) [] (server a)))
          in (Returns (Server_Stop shut srv), a\<lparr>server := srv, oauth := snd (Service_Close s)\<rparr>)))"

subsection \<open>main.go\<close>

text \<open>Clock readings of the migration or, the first of them, of the construction.\<close>

definition cmd_run ::
    "(string \<Rightarrow> bool) \<Rightarrow> 'db sql_engine \<Rightarrow> bool \<Rightarrow> env \<Rightarrow> string list \<Rightarrow> obs \<Rightarrow> int \<Rightarrow> int \<Rightarrow> int
      \<Rightarrow> activity list \<Rightarrow> stop_cause \<Rightarrow> fs \<times> 'db \<Rightarrow> unit result run \<times> fs \<times> 'db" where
  "cmd_run pem_ok E hugo_first environ args ob t1 t2 t3 acts cause wd =
    (case fst (Config.Load hugo_first environ) of
       Inl e \<Rightarrow> (Returns (Inl (''failed to load config: '' @ e)), wd)
     | Inr c \<Rightarrow>
         if length args > 1 \<and> args ! 1 = ''migrate-storage'' then
           (case MigrateJSONToSQLite E (cfg_TokensFile (OAuthProxy c)) (cfg_TokensDB (OAuthProxy c)) t1 t2 t3 wd of
              (Inl e, wd1) \<Rightarrow> (Returns (Inl (''migration failed: '' @ e)), wd1)
            | (Inr _, wd1) \<Rightarrow> (Returns (Inr ()), wd1))
         else
           (case snd (NewApp pem_ok E c ob t1 wd) of
              (Inl e, wd1) \<Rightarrow> (Returns (Inl (''failed to initialize app: '' @ e)), wd1)
            | (Inr (client, a), wd1) \<Rightarrow>
                (case App_Run acts cause a of
                   (Panics e, a1) \<Rightarrow> (Panics e, store_state (oauth a1))
                 | (Returns (Inl e), a1) \<Rightarrow> (Returns (Inl (''app exited with error: '' @ e)), store_state (oauth a1))
                 | (Returns (Inr _), a1) \<Rightarrow> (Returns (Inr ()), store_state (oauth a1)))))"

text \<open>The text on standard error and the exit code; a panic has the exit code 2.\<close>

definition cmd_main :: "unit result run \<Rightarrow> string \<times> int" where
  "cmd_main r =
    (case r of
       Panics e \<Rightarrow> (''panic: '' @ e, 2)
     | Returns (Inl e) \<Rightarrow> (''[FATAL] '' @ e @ [CHR 0x0A], 1)
     | Returns (Inr _) \<Rightarrow> ([], 0))"

declare Server_New_def [model_defs] Server_Start_def [model_defs] createHTTPClient_def [model_defs]
  open_store_def [model_defs] NewApp_def [model_defs] App_Run_def [model_defs] cmd_run_def [model_defs]

end
