(* ===== verification/AppFacts.thy ===== *)
theory AppFacts
  imports App ProxyFacts
begin

text \<open>
  The application as a whole: its stores keep the contract of the interface, every request and
  sweep leaves the live tokens in the store, and they are there again when the program has been
  stopped and started.
\<close>

subsection \<open>The stores of the application\<close>

lemma on_fst_select [simp]:
  "st_Load (on_fst st) t (s, b) = (let (r, s') = st_Load st t s in (r, s', b))"
  "st_Save (on_fst st) t m (s, b) = (let (r, s') = st_Save st t m s in (r, s', b))"
  "st_Close (on_fst st) (s, b) = (let (r, s') = st_Close st s in (r, s', b))"
  by (simp_all add: on_fst_def)

lemma on_snd_select [simp]:
  "st_Load (on_snd st) t (b, s) = (let (r, s') = st_Load st t s in (r, b, s'))"
  "st_Save (on_snd st) t m (b, s) = (let (r, s') = st_Save st t m s in (r, b, s'))"
  "st_Close (on_snd st) (b, s) = (let (r, s') = st_Close st s in (r, b, s'))"
  by (simp_all add: on_snd_def)

context token_store
begin

lemma on_fst_store: "token_store (on_fst st) (ok \<circ> fst) (holds \<circ> fst)"
proof
  fix x x' :: "'s \<times> 'b" and t r
  show "(ok \<circ> fst) x \<Longrightarrow> gomap_ok ((holds \<circ> fst) x)" by (simp add: holds_gomap)
  show "(ok \<circ> fst) x \<Longrightarrow> clock t \<Longrightarrow> st_Load (on_fst st) t x = (rl, x') \<Longrightarrow>
      (ok \<circ> fst) x' \<and> map_of ((holds \<circ> fst) x') = map_of ((holds \<circ> fst) x)" for rl
    using load_ok by (cases x) (auto split: prod.splits)
  show "(ok \<circ> fst) x \<Longrightarrow> clock t \<Longrightarrow> st_Load (on_fst st) t x = (Inr m, x') \<Longrightarrow>
      gomap_ok m \<and> map_of m = map_of (live_tokens (of_int t) ((holds \<circ> fst) x))" for m
    using load_live by (cases x) (auto split: prod.splits)
  show "(ok \<circ> fst) x \<Longrightarrow> clock t \<Longrightarrow> clean_tokens m \<Longrightarrow> st_Save (on_fst st) t m x = (r, x') \<Longrightarrow> (ok \<circ> fst) x'" for m
    using save_ok by (cases x) (auto split: prod.splits)
  show "(ok \<circ> fst) x \<Longrightarrow> clock t \<Longrightarrow> clean_tokens m \<Longrightarrow> st_Save (on_fst st) t m x = (Inr u, x') \<Longrightarrow>
      map_of ((holds \<circ> fst) x') = map_of (live_tokens (of_int t) m)" for m u
    using save_all by (cases x) (auto split: prod.splits)
  show "(ok \<circ> fst) x \<Longrightarrow> clock t \<Longrightarrow> clean_tokens m \<Longrightarrow> st_Save (on_fst st) t m x = (Inl e, x') \<Longrightarrow>
      map_of ((holds \<circ> fst) x') = map_of ((holds \<circ> fst) x) \<or>
      map_of ((holds \<circ> fst) x') = map_of (live_tokens (of_int t) m)" for m e
    using save_nothing by (cases x) (force split: prod.splits)
  show "(ok \<circ> fst) x \<Longrightarrow> st_Close (on_fst st) x = (r, x') \<Longrightarrow>
      (ok \<circ> fst) x' \<and> map_of ((holds \<circ> fst) x') = map_of ((holds \<circ> fst) x)"
    using close_keeps by (cases x) (auto split: prod.splits)
qed

lemma on_snd_store: "token_store (on_snd st) (ok \<circ> snd) (holds \<circ> snd)"
proof
  fix x x' :: "'b \<times> 's" and t r
  show "(ok \<circ> snd) x \<Longrightarrow> gomap_ok ((holds \<circ> snd) x)" by (simp add: holds_gomap)
  show "(ok \<circ> snd) x \<Longrightarrow> clock t \<Longrightarrow> st_Load (on_snd st) t x = (rl, x') \<Longrightarrow>
      (ok \<circ> snd) x' \<and> map_of ((holds \<circ> snd) x') = map_of ((holds \<circ> snd) x)" for rl
    using load_ok by (cases x) (auto split: prod.splits)
  show "(ok \<circ> snd) x \<Longrightarrow> clock t \<Longrightarrow> st_Load (on_snd st) t x = (Inr m, x') \<Longrightarrow>
      gomap_ok m \<and> map_of m = map_of (live_tokens (of_int t) ((holds \<circ> snd) x))" for m
    using load_live by (cases x) (auto split: prod.splits)
  show "(ok \<circ> snd) x \<Longrightarrow> clock t \<Longrightarrow> clean_tokens m \<Longrightarrow> st_Save (on_snd st) t m x = (r, x') \<Longrightarrow> (ok \<circ> snd) x'" for m
    using save_ok by (cases x) (auto split: prod.splits)
  show "(ok \<circ> snd) x \<Longrightarrow> clock t \<Longrightarrow> clean_tokens m \<Longrightarrow> st_Save (on_snd st) t m x = (Inr u, x') \<Longrightarrow>
      map_of ((holds \<circ> snd) x') = map_of (live_tokens (of_int t) m)" for m u
    using save_all by (cases x) (auto split: prod.splits)
  show "(ok \<circ> snd) x \<Longrightarrow> clock t \<Longrightarrow> clean_tokens m \<Longrightarrow> st_Save (on_snd st) t m x = (Inl e, x') \<Longrightarrow>
      map_of ((holds \<circ> snd) x') = map_of ((holds \<circ> snd) x) \<or>
      map_of ((holds \<circ> snd) x') = map_of (live_tokens (of_int t) m)" for m e
    using save_nothing by (cases x) (force split: prod.splits)
  show "(ok \<circ> snd) x \<Longrightarrow> st_Close (on_snd st) x = (r, x') \<Longrightarrow>
      (ok \<circ> snd) x' \<and> map_of ((holds \<circ> snd) x') = map_of ((holds \<circ> snd) x)"
    using close_keeps by (cases x) (auto split: prod.splits)
qed

end

interpretation app_js: token_store "on_fst (JSON_Store s)" "json_ok s \<circ> fst" "json_holds s \<circ> fst" for s
  by (rule js.on_fst_store)

interpretation app_sq: token_store "on_snd (SQLite_Store list_engine)" "sql_ok ld_good ld_table \<circ> snd"
    "sql_holds ld_table \<circ> snd"
  by (rule sq.on_snd_store)

subsection \<open>Requests and the token table\<close>

definition same_tables :: "'s Service \<Rightarrow> 's Service \<Rightarrow> bool" where
  "same_tables s' s \<longleftrightarrow> cfg s' = cfg s \<and> store s' = store s \<and> store_state s' = store_state s \<and>
    accessTokens s' = accessTokens s"

lemma same_tables_refl [simp]: "same_tables s s"
  by (simp add: same_tables_def)

lemma same_tables_observed [simp]: "same_tables (s\<lparr>observed := ob\<rparr>) s' \<longleftrightarrow> same_tables s s'"
  by (simp add: same_tables_def)

lemma same_tables_auditLog [simp]: "same_tables (auditLog ts r ev f s) s' \<longleftrightarrow> same_tables s s'"
  by (simp add: same_tables_def frame_simps)

lemma same_tables_trans: "same_tables s2 s1 \<Longrightarrow> same_tables s1 s \<Longrightarrow> same_tables s2 s"
  by (simp add: same_tables_def)

lemma documents_frame:
  "same_tables (snd (HandleMetadata rd r w s)) s"
  "same_tables (snd (HandleProtectedResourceMetadata rd r w s)) s"
  "same_tables (snd (HandleRegister rd r w s)) s"
  by (auto simp: HandleMetadata_def HandleProtectedResourceMetadata_def HandleRegister_def Let_def
      split: sum.splits option.splits)

lemma HandleAuthorize_tables: "same_tables (snd (HandleAuthorize rd r w s)) s"
  unfolding same_tables_def using HandleAuthorize_frame [of rd r w s] surjective_pairing by blast

lemma ErrorHandler_tables: "ErrorHandler ts e r rw s = (rw', s') \<Longrightarrow> same_tables s' s"
  by (auto simp: ErrorHandler_def Let_def)

lemma proxy_ServeHTTP_tables: "same_tables (snd (proxy_ServeHTTP b ts r u rw s)) s"
  by (auto simp: proxy_ServeHTTP_def Let_def apfst_def map_prod_def dest: ErrorHandler_tables
      split: sum.splits prod.splits)

lemma proxy_admitted_tables: "same_tables (snd (proxy_admitted b rd r w s)) s"
proof -
  have "same_tables s1 s" if "proxy_ServeHTTP b ts r1 u rw s = (x, s1)" for ts r1 u rw x s1
    using proxy_ServeHTTP_tables [of b ts r1 u rw s] that by simp
  then show ?thesis
    by (auto simp: proxy_admitted_def Let_def split: option.splits prod.splits run.splits)
qed

lemma allowAnonymous_tables: "allowAnonymousMCPRequest ts r w s = (g, s1) \<Longrightarrow> same_tables s1 s"
  by (auto simp: allowAnonymousMCPRequest_def Let_def split: if_splits sum.splits prod.splits)

lemma HandleProxy_tables: "same_tables (snd (HandleProxy b rd r w s)) s"
proof (cases "header_get (Header r) ''Authorization'' = []")
  case True
  obtain g s1 where g: "allowAnonymousMCPRequest (rd_stamp rd) r w s = (g, s1)" by fastforce
  have t: "same_tables (snd (proxy_admitted b rd r' w' s1)) s" for r' w'
    by (rule same_tables_trans [OF proxy_admitted_tables allowAnonymous_tables [OF g]])
  show ?thesis using True g t allowAnonymous_tables [OF g]
    by (cases g) (auto simp: HandleProxy_def Let_def)
next
  case False
  then show ?thesis by (simp add: HandleProxy_def Let_def proxy_admitted_tables)
qed

text \<open>The token endpoint runs one exchange, if any.\<close>

lemma HandleToken_tables:
  "same_tables (snd (HandleToken rd r w s)) s \<or>
    (\<exists>req. same_tables (snd (HandleToken rd r w s))
      (snd (ExchangeToken req (rd_random rd) (rd_now1 rd) (rd_now2 rd) (rd_store rd) s)))"
proof (cases "Method r = ''POST'' \<and> ParseForm r \<noteq> None")
  case True
  then obtain form where form: "ParseForm r = Some form" by blast
  show ?thesis
    using True by (intro disjI2) (auto simp: HandleToken_form [OF _ form] Let_def count_token_rejected_def
      split: prod.split run.split sum.split intro!: exI [of _ "token_request form"])
next
  case False
  then show ?thesis by (auto simp: HandleToken_def)
qed


context token_store
begin

lemma durable_same: "same_tables s' s \<Longrightarrow> service_durable ok holds t s' \<longleftrightarrow> service_durable ok holds t s"
  by (simp add: same_tables_def service_durable_def)

text \<open>One request, whatever its route, leaves the live tokens in the store.\<close>

lemma newHandler_durable:
  assumes "service_durable ok holds t0 s" and "t0 \<le> rd_store rd" and "clock (rd_store rd)" and "store s = st"
    and "clock (Unix (rd_now2 rd + seconds_duration (cfg_AccessTokenTTL (OAuthProxy (cfg s)))))"
  shows "service_durable ok holds (rd_store rd) (snd (newHandler b rd rnd r s))"
proof -
  have base: "service_durable ok holds (rd_store rd) s" by (rule durable_later [OF assms(1,2)])
  have tok: "service_durable ok holds (rd_store rd) (snd (HandleToken (readings.truncate rd) r' w s))" for r' w
    using HandleToken_tables [of "readings.truncate rd" r' w s]
  proof (elim disjE exE)
    fix req
    let ?x = "ExchangeToken req (rd_random (readings.truncate rd)) (rd_now1 (readings.truncate rd))
      (rd_now2 (readings.truncate rd)) (rd_store (readings.truncate rd)) s"
    assume same: "same_tables (snd (HandleToken (readings.truncate rd) r' w s)) (snd ?x)"
    have "service_durable ok holds (rd_store rd) (snd ?x)"
      using ExchangeToken_durable [OF assms(1-5) surjective_pairing] by (simp add: readings.truncate_def)
    then show ?thesis by (simp add: durable_same [OF same])
  qed (simp add: durable_same base)
  have "service_durable ok holds (rd_store rd) (snd (mux b rd r' w s))" for r' w
    using Ready_durable [OF assms(1-4)] base tok
    by (auto simp: mux_def readyz_def Let_def durable_same [OF documents_frame(1)] durable_same [OF documents_frame(2)]
        durable_same [OF documents_frame(3)] durable_same [OF HandleAuthorize_tables] durable_same [OF HandleProxy_tables]
        split: mux_result.split route.split prod.split sum.split)
  then show ?thesis
    by (auto simp: newHandler_def RequestIDMiddleware_def Let_def base split: run.split)
qed

end


subsection \<open>Everything a running application does\<close>

fun activity_time :: "activity \<Rightarrow> int" where
  "activity_time (Incoming b rd rnd r) = rd_store rd"
| "activity_time (Sweeping now nowc t) = t"

text \<open>The clock does not go back from \<open>t0\<close> to \<open>t\<close>, and tokens expire within its range.\<close>

fun timed_run :: "Config \<Rightarrow> int \<Rightarrow> activity list \<Rightarrow> int \<Rightarrow> bool" where
  "timed_run c t0 [] t \<longleftrightarrow> t0 \<le> t"
| "timed_run c t0 (p # ps) t \<longleftrightarrow>
    t0 \<le> activity_time p \<and> clock (activity_time p) \<and> timed_run c (activity_time p) ps t \<and>
    (case p of
       Incoming _ rd _ _ \<Rightarrow> clock (Unix (rd_now2 rd + seconds_duration (cfg_AccessTokenTTL (OAuthProxy c))))
     | _ \<Rightarrow> True)"

lemma Ready_same: "cfg (snd (Ready t s)) = cfg s" "store (snd (Ready t s)) = store s"
  by (simp_all add: frame_simps)

lemma HandleToken_frame:
  "cfg (snd (HandleToken rd r w s)) = cfg s" "store (snd (HandleToken rd r w s)) = store s"
  using HandleToken_tables [of rd r w s] by (auto simp: same_tables_def frame_simps)

lemma newHandler_frame [frame_simps]:
  "cfg (snd (newHandler b rd rnd r s)) = cfg s" "store (snd (newHandler b rd rnd r s)) = store s"
proof -
  have r: "Ready t s = (x, s1) \<Longrightarrow> cfg s1 = cfg s \<and> store s1 = store s" for t x s1
    using Ready_same [of t s] by simp
  have same: "same_tables s1 s \<Longrightarrow> cfg s1 = cfg s \<and> store s1 = store s" for s1
    by (simp add: same_tables_def)
  have m: "cfg (snd (mux b rd r' w s)) = cfg s \<and> store (snd (mux b rd r' w s)) = store s" for r' w
    using same [OF documents_frame(1)] same [OF documents_frame(2)] same [OF documents_frame(3)]
      same [OF HandleAuthorize_tables] same [OF HandleProxy_tables]
    by (auto simp: mux_def readyz_def Let_def HandleToken_frame dest: r
        split: mux_result.split route.split prod.split sum.split)
  show "cfg (snd (newHandler b rd rnd r s)) = cfg s" "store (snd (newHandler b rd rnd r s)) = store s"
    using m by (auto simp: newHandler_def RequestIDMiddleware_def Let_def split: run.split)
qed

lemma PurgeExpired_same: "cfg (PurgeExpired now nowc t s) = cfg s" "store (PurgeExpired now nowc t s) = store s"
  by (simp_all add: frame_simps)

lemma serve_all_frame [frame_simps]: "cfg (serve_all ps s) = cfg s" "store (serve_all ps s) = store s"
  by (induction ps s rule: serve_all.induct) (simp_all add: frame_simps)

context token_store
begin

lemma serve_all_durable:
  assumes "service_durable ok holds t0 s" and "store s = st" and "timed_run (cfg s) t0 ps t"
  shows "service_durable ok holds t (serve_all ps s)"
  using assms
proof (induction ps arbitrary: s t0)
  case Nil
  then show ?case using durable_later by simp
next
  case (Cons p ps)
  show ?case
  proof (cases p)
    case (Incoming b rd rnd r)
    with Cons.prems have "service_durable ok holds (rd_store rd) (snd (newHandler b rd rnd r s))"
      by (intro newHandler_durable) auto
    from Cons.IH [OF this] show ?thesis using Cons.prems Incoming by (simp add: frame_simps)
  next
    case (Sweeping now nowc t1)
    with Cons.prems have "service_durable ok holds t1 (PurgeExpired now nowc t1 s)"
      by (intro PurgeExpired_durable) auto
    from Cons.IH [OF this] show ?thesis using Cons.prems Sweeping by (simp add: frame_simps)
  qed
qed

lemma Close_durable: "service_durable ok holds t s \<Longrightarrow> store s = st \<Longrightarrow> service_durable ok holds t (snd (Service_Close s))"
proof -
  assume d: "service_durable ok holds t s" and st: "store s = st"
  obtain r x where c: "st_Close st (store_state s) = (r, x)" by fastforce
  then have "ok x \<and> map_of (holds x) = map_of (holds (store_state s))"
    using close_keeps service_durableD(1) [OF d] by blast
  with d st c show "service_durable ok holds t (snd (Service_Close s))"
    by (simp add: Service_Close_def service_durable_def)
qed

end


subsection \<open>The store the configuration chooses\<close>

definition app_file :: "Config \<Rightarrow> TokenStore" where
  "app_file c = NewTokenStore (cfg_TokensFile (OAuthProxy c)) (cfg_AllowTokenStoreRecovery (OAuthProxy c))"

definition app_store :: "'db sql_engine \<Rightarrow> Config \<Rightarrow> (fs \<times> 'db) Store" where
  "app_store E c = (if cfg_UseSQLite (OAuthProxy c) then on_snd (SQLite_Store E) else on_fst (JSON_Store (app_file c)))"

definition app_ok :: "('db \<Rightarrow> bool) \<Rightarrow> ('db \<Rightarrow> (string, int) gomap) \<Rightarrow> Config \<Rightarrow> fs \<times> 'db \<Rightarrow> bool" where
  "app_ok good table c =
    (if cfg_UseSQLite (OAuthProxy c) then sql_ok good table \<circ> snd else json_ok (app_file c) \<circ> fst)"

definition app_holds :: "('db \<Rightarrow> (string, int) gomap) \<Rightarrow> Config \<Rightarrow> fs \<times> 'db \<Rightarrow> tokens" where
  "app_holds table c =
    (if cfg_UseSQLite (OAuthProxy c) then sql_holds table \<circ> snd else json_holds (app_file c) \<circ> fst)"

lemma same_files_refl: "same_files w w"
  by (simp add: same_files_def)

lemma createHTTPClient_looks: "createHTTPClient pem_ok p w = (r, w') \<Longrightarrow> same_files w' w"
  by (auto simp: createHTTPClient_def Let_def same_files_refl dest: ReadFile_looks(1)
      split: if_splits sum.splits prod.splits)

lemma app_same_files:
  assumes "same_files w' w"
  shows "app_ok good table c (w', db) \<longleftrightarrow> app_ok good table c (w, db)" "app_holds table c (w', db) = app_holds table c (w, db)"
  using same_files_safe [OF assms] by (simp_all add: app_ok_def app_holds_def json_ok_def json_holds_def)

context sql_database
begin

lemma app_token_store: "token_store (app_store E c) (app_ok good table c) (app_holds table c)"
  by (simp add: app_store_def app_ok_def app_holds_def on_snd_store js.on_fst_store)

lemma open_store_keeps:
  assumes "open_store E c wd = (Inr st, wd')" and "app_ok good table c wd"
  shows "st = app_store E c \<and> app_ok good table c wd' \<and> app_holds table c wd' = app_holds table c wd"
proof (cases "cfg_UseSQLite (OAuthProxy c)")
  case True
  obtain w db where wd: "wd = (w, db)" by (cases wd)
  obtain r db1 where n: "NewSQLiteStore E (cfg_TokensDB (OAuthProxy c)) db = (r, db1)" by fastforce
  have "good db" using assms(2) True wd by (simp add: app_ok_def sql_ok_def)
  from sql_open_keeps [OF engine_ok this n] assms True wd n show ?thesis
    by (auto simp: open_store_def app_ok_def app_store_def app_holds_def sql_ok_def sql_holds_def keeps_table_def
        split: sum.splits)
next
  case False
  then show ?thesis using assms by (cases wd) (auto simp: open_store_def app_store_def app_file_def)
qed

lemma NewApp_opens:
  assumes "NewApp pem_ok E c ob t wd = (lv, Inr (cl, a), wd')" and "app_ok good table c wd"
  shows "\<exists>wd1. NewService c (app_store E c) wd1 (NewAuditLogger (cfg_AuditLogFile (OAuthProxy c))) ob t = (Inr (oauth a), wd') \<and>
    app_ok good table c wd1 \<and> app_holds table c wd1 = app_holds table c wd"
proof -
  obtain w db where wd: "wd = (w, db)" by (cases wd)
  obtain r w1 where h: "createHTTPClient pem_ok (cfg_MCPCACert (OAuthProxy c)) w = (r, w1)" by fastforce
  note same = app_same_files [OF createHTTPClient_looks [OF h]]
  obtain so wd1 where o: "open_store E c (w1, db) = (so, wd1)" by (cases "open_store E c (w1, db)") blast
  from assms(1) wd h o obtain st where st: "so = Inr st"
    by (auto simp: NewApp_def split: sum.splits)
  have k: "st = app_store E c" "app_ok good table c wd1" "app_holds table c wd1 = app_holds table c wd"
    using open_store_keeps [of c "(w1, db)" st wd1] o st assms(2) wd by (simp_all add: same)
  from assms(1) wd h o st k show ?thesis
    by (intro exI [of _ wd1]) (auto simp: NewApp_def split: sum.splits prod.splits)
qed

lemma restart_keeps:
  assumes "app_ok good table c wd" and "clean_tokens (app_holds table c wd)" and "clock t0"
    and "NewApp pem_ok E c ob t0 wd = (lv, Inr (cl, a), wd0)"
    and "timed_run c t0 acts t" and "App_Run acts cause a = (r, a1)"
    and "NewApp pem_ok' E c ob' t' (store_state (oauth a1)) = (lv', Inr (cl', a2), wd2)"
    and "t \<le> t'" and "t' \<le> n" and "clock t'" and "clock n"
    and "ValidateAccessToken tok n (serve_all acts (oauth a))"
  shows "ValidateAccessToken tok n (oauth a2)"
proof -
  note S = app_token_store [of c]
  obtain wd1 where n1: "NewService c (app_store E c) wd1 (NewAuditLogger (cfg_AuditLogFile (OAuthProxy c))) ob t0 = (Inr (oauth a), wd0)"
      "app_ok good table c wd1" "app_holds table c wd1 = app_holds table c wd"
    using NewApp_opens [OF assms(4,1)] by blast
  have d0: "service_durable (app_ok good table c) (app_holds table c) t0 (oauth a)" "store (oauth a) = app_store E c"
      "cfg (oauth a) = c"
    using token_store.NewService_durable [OF S n1(2) _ assms(3) n1(1)] n1(3) assms(2) by simp_all
  define s where "s = serve_all acts (oauth a)"
  have d: "service_durable (app_ok good table c) (app_holds table c) t s" "store s = app_store E c"
    using token_store.serve_all_durable [OF S d0(1,2)] assms(5) d0 by (simp_all add: s_def frame_simps)
  have d1: "service_durable (app_ok good table c) (app_holds table c) t (oauth a1)"
    using token_store.Close_durable [OF S d] d(1) assms(6) by (auto simp: App_Run_def Let_def s_def split: stop_cause.splits run.splits prod.splits)
  have acc: "accessTokens (oauth a1) = accessTokens s" 
    using assms(6) by (auto simp: App_Run_def Let_def s_def Service_Close_def split: stop_cause.splits run.splits prod.splits)
  obtain wd3 where n2: "NewService c (app_store E c) wd3 (NewAuditLogger (cfg_AuditLogFile (OAuthProxy c))) ob' t' = (Inr (oauth a2), wd2)"
      "app_ok good table c wd3" "app_holds table c wd3 = app_holds table c (store_state (oauth a1))"
    using NewApp_opens [OF assms(7)] service_durableD(1) [OF d1] by blast
  define s3 where "s3 = (oauth a1)\<lparr>store_state := wd3\<rparr>"
  have d3: "service_durable (app_ok good table c) (app_holds table c) t s3"
    using d1 n2 by (simp add: service_durable_def s3_def)
  have "NewService c (app_store E c) (store_state s3) (NewAuditLogger (cfg_AuditLogFile (OAuthProxy c))) ob' t' = (Inr (oauth a2), wd2)"
    using n2 by (simp add: s3_def)
  moreover have "ValidateAccessToken tok n s3"
    using assms(12) acc by (simp add: ValidateAccessToken_def s3_def s_def)
  ultimately show ?thesis
    using token_store.restart_validates [OF S d3 assms(10,11,8,9)] by blast
qed

end



definition sample_world :: "fs \<times> list_db" where
  "sample_world = (empty_fs [], one_token)"

lemma sample_world_ok:
  "app_ok ld_good ld_table sample_config sample_world"
  "app_holds ld_table sample_config sample_world = [(HashToken ''tok'', 5000)]"
  using one_token_ok by (simp_all add: app_ok_def app_holds_def sample_world_def sample_config_def sample_oauth_def)

lemma sample_open: "NewSQLiteStore list_engine p one_token = (Inr (), one_token)"
  by (simp add: NewSQLiteStore_def applySQLitePragmas_def initSQLiteSchema_def list_engine_def ld_step_def
      ld_call_def one_token_def)

lemma sample_NewApp:
  assumes "t < 5000"
  shows "\<exists>lv cl a. NewApp pem_ok list_engine sample_config ob t sample_world = (lv, Inr (cl, a), sample_world) \<and>
    store_state (oauth a) = sample_world \<and> store (oauth a) = on_snd (SQLite_Store list_engine) \<and>
    accessTokens (oauth a) = [(HashToken ''tok'', 5000)]"
proof -
  let ?st = "on_snd (SQLite_Store list_engine)" and ?au = "NewAuditLogger (cfg_AuditLogFile (OAuthProxy sample_config))"
  have l: "st_Load ?st t sample_world = (Inr [(HashToken ''tok'', 5000)], sample_world)"
    using one_token_load [OF assms] by (simp add: sample_world_def)
  obtain s where s: "NewService sample_config ?st sample_world ?au ob t = (Inr s, sample_world)"
      "accessTokens s = [(HashToken ''tok'', 5000)]" "store_state s = sample_world"
    using sample_NewService [OF _ l, of sample_config ?au ob] by (auto simp: sample_config_def sample_oauth_def)
  then have "store s = ?st"
    by (auto simp: NewService_def Let_def split: prod.splits sum.splits if_splits option.splits)
  moreover obtain cl where "createHTTPClient pem_ok [] (empty_fs []) = (Inr cl, empty_fs [])"
    by (simp add: createHTTPClient_def)
  ultimately show ?thesis using s
    by (intro exI [of _ "log_level sample_config"] exI [of _ cl]
        exI [of _ "\<lparr>app_cfg = sample_config, server = Server_New sample_config, oauth = s\<rparr>"])
      (simp add: NewApp_def open_store_def sample_world_def sample_open sample_config_def sample_oauth_def)
qed


subsection \<open>The address to listen on\<close>

lemma show_int_no_colon: "CHR '':'' \<notin> set (show_int i)" "CHR ''['' \<notin> set (show_int i)" "CHR '']'' \<notin> set (show_int i)"
  by (auto simp: show_int_def dest!: show_nat_digits split: if_splits)

text \<open>
The address to listen on. \<^verbatim>\<open>New\<close> joins host and port with a colon; splitting the address as
  \<^verbatim>\<open>net.Listen\<close> does gives the host and the port back exactly when the host has no colon and no
  bracket; the IPv6 host \<^verbatim>\<open>::1\<close> gives an address that cannot be listened on.
\<close>

theorem listen_address_iff:
  "(split_host_port (srv_addr (Server_New c)) =
      Some (cfg_ListenHost (Runtime c), show_int (cfg_ListenPort (Runtime c))) \<longleftrightarrow>
    set (cfg_ListenHost (Runtime c)) \<inter> set '':[]'' = {}) \<and>
   split_host_port (srv_addr (Server_New (c\<lparr>Runtime := (Runtime c)\<lparr>cfg_ListenHost := ''::1''\<rparr>\<rparr>))) = None"
proof -
  define h where "h = cfg_ListenHost (Runtime c)"
  define p where "p = show_int (cfg_ListenPort (Runtime c))"
  have p: "CHR '':'' \<notin> set p" "CHR ''['' \<notin> set p" "CHR '']'' \<notin> set p"
    unfolding p_def by (rule show_int_no_colon)+
  have cut: "rcut_at CHR '':'' (h @ CHR '':'' # p) = (h, p)" using p(1) by (rule rcut_at_append)
  have t1: "take 1 (h @ CHR '':'' # p) = ''['' \<longleftrightarrow> take 1 h = ''[''" by (cases h) auto
  have "split_host_port (h @ CHR '':'' # p) = Some (h, p) \<longleftrightarrow> set h \<inter> set '':[]'' = {}"
  proof (cases "take 1 h = ''[''")
    case True
    then obtain h' where "h = CHR ''['' # h'" by (cases h) auto
    moreover have "takeWhile P h' \<noteq> x # h'" for P x
      using length_takeWhile_le [of P h'] by (metis length_Cons not_less_eq_eq order_refl)
    ultimately show ?thesis using True t1 cut
      by (auto simp: split_host_port_def cut_at_def Let_def split: if_splits)
  next
    case False
    then show ?thesis using t1 cut p by (auto simp: split_host_port_def)
  qed
  moreover have "split_host_port (''::1'' @ CHR '':'' # p) = None"
    using rcut_at_append [OF p(1), of "''::1''"] by (simp add: split_host_port_def)
  ultimately show ?thesis by (simp add: Server_New_def h_def p_def)
qed

end
