(* ===== verification/Shutdown.thy ===== *)
theory Shutdown
  imports App
begin

text \<open>
  The end of a run: \<^verbatim>\<open>App.Run\<close> and the goroutine of the purge loop as one transition system.
  \<^verbatim>\<open>Run\<close> goes from serving through its deferred calls, in their order: the purge context is
  cancelled, then the store is closed. The loop takes a tick (the two sweeps), writes the store if
  a token was removed, and ends once it finds the context cancelled; with a tick and the
  cancellation both at hand \<^verbatim>\<open>select\<close> may take either. Nothing makes \<^verbatim>\<open>Run\<close> wait for the loop. The
  calls of the two on the store are kept, the latest first.
\<close>

datatype run_pc = Serving | Leaving | Cancelled | Closed

datatype purge_pc = Waiting | Syncing tokens | Stopped

datatype store_call = Wrote tokens | ClosedStore

record 's lifecycle =
  lc_svc :: "'s Service"
  lc_run :: run_pc
  lc_purge :: purge_pc
  lc_calls :: "store_call list"

definition serving :: "'s Service \<Rightarrow> 's lifecycle" where
  "serving s = \<lparr>lc_svc = s, lc_run = Serving, lc_purge = Waiting, lc_calls = []\<rparr>"

inductive lstep :: "'s lifecycle \<Rightarrow> 's lifecycle \<Rightarrow> bool" where
  request: "lc_run w \<in> {Serving, Leaving} \<Longrightarrow>
    lstep w (w\<lparr>lc_svc := snd (newHandler backend rd rnd r (lc_svc w))\<rparr>)"
| tick: "lc_purge w = Waiting \<Longrightarrow> purge_tokens now (purge_codes nowc (lc_svc w)) = (s, changed) \<Longrightarrow>
    lstep w (w\<lparr>lc_svc := s, lc_purge := (if changed then Syncing (accessTokens s) else Waiting)\<rparr>)"
| save: "lc_purge w = Syncing m \<Longrightarrow>
    lstep w (w\<lparr>lc_svc := syncTokens_save m t (lc_svc w), lc_purge := Waiting, lc_calls := Wrote m # lc_calls w\<rparr>)"
| stop: "lc_purge w = Waiting \<Longrightarrow> lc_run w \<in> {Cancelled, Closed} \<Longrightarrow> lstep w (w\<lparr>lc_purge := Stopped\<rparr>)"
| leave: "lc_run w = Serving \<Longrightarrow> lstep w (w\<lparr>lc_run := Leaving\<rparr>)"
| cancel: "lc_run w = Leaving \<Longrightarrow> lstep w (w\<lparr>lc_run := Cancelled\<rparr>)"
| close: "lc_run w = Cancelled \<Longrightarrow>
    lstep w (w\<lparr>lc_svc := snd (Service_Close (lc_svc w)), lc_run := Closed, lc_calls := ClosedStore # lc_calls w\<rparr>)"

abbreviation lsteps :: "'s lifecycle \<Rightarrow> 's lifecycle \<Rightarrow> bool" where
  "lsteps \<equiv> lstep\<^sup>*\<^sup>*"

inductive_cases lstepE: "lstep w w'"

subsection \<open>What the order of the deferred calls gives\<close>

definition closed_once :: "'s lifecycle \<Rightarrow> bool" where
  "closed_once w \<longleftrightarrow> count_list (lc_calls w) ClosedStore = (if lc_run w = Closed then 1 else 0) \<and>
    (lc_purge w = Stopped \<longrightarrow> lc_run w \<in> {Cancelled, Closed})"

lemma closed_once_step: "lstep w w' \<Longrightarrow> closed_once w \<Longrightarrow> closed_once w'"
  by (erule lstepE) (auto simp: closed_once_def)

lemma closed_once_run: "lsteps (serving s) w \<Longrightarrow> closed_once w"
proof (induction rule: rtranclp_induct)
  case base
  show ?case by (simp add: closed_once_def serving_def)
qed (rule closed_once_step)

lemma lsteps_step: "lsteps w v \<Longrightarrow> lstep v w' \<Longrightarrow> v' = w' \<Longrightarrow> lsteps w v'"
  by simp

lemma stopped_stays: "lstep w w' \<Longrightarrow> lc_purge w = Stopped \<Longrightarrow> lc_purge w' = Stopped"
  by (erule lstepE) auto

lemma stopped_writes_nothing:
  "lsteps w w' \<Longrightarrow> lc_purge w = Stopped \<Longrightarrow>
    lc_purge w' = Stopped \<and> (\<exists>cs. lc_calls w' = cs @ lc_calls w \<and> set cs \<subseteq> {ClosedStore})"
proof (induction rule: rtranclp_induct)
  case (step v w')
  then obtain cs where v: "lc_purge v = Stopped" "lc_calls v = cs @ lc_calls w" "set cs \<subseteq> {ClosedStore}" by blast
  from step(2) have "lc_calls w' = lc_calls v \<or> lc_calls w' = ClosedStore # lc_calls v"
    by (rule lstepE) (use v(1) in auto)
  then show ?case using v stopped_stays [OF step(2) v(1)] by (metis append_Cons insert_subset list.simps(15) singletonI)
qed simp



end
