(* ===== verification/Spec2Isabelle.thy ===== *)
theory Spec2Isabelle
  imports ServiceRuns OAuthFlow AppFacts RuntimeFacts Shutdown
begin

text \<open>
  \<^bold>\<open>mcp-runtime-go.\<close> An OAuth 2.1 authorization server and reverse proxy in front of one MCP backend.
  A client registers, gets an authorization code at \<^verbatim>\<open>/authorize\<close>, exchanges it at \<^verbatim>\<open>/token\<close> for a
  bearer token and calls the backend through \<^verbatim>\<open>/mcp\<close>; requests without a token pass only in the
  anonymous mode, for listed tools. Tokens are kept, as hashes, in a JSON file or in SQLite. The
  development follows the Go files under \<^verbatim>\<open>src/\<close>, one group of definitions per file.

  \<^bold>\<open>Layers.\<close>
  \<^item> The parts of Go's library the program computes with, on bytes: \<open>GoStrings\<close> (strings, strconv,
    hex), \<open>GoCrypto\<close> (SHA-256, base64url, constant-time compare), \<open>GoNet\<close> (net, netip), \<open>GoURL\<close>
    (net/url), \<open>GoPath\<close> (path), \<open>GoForm\<close> (forms, mime), \<open>GoHTTP\<close> (requests, headers, responses),
    \<open>GoJSON\<close>, \<open>GoJSONCodec\<close>, \<open>GoJSONText\<close> (encoding/json; \<open>GoJSONRound\<close> and \<open>GoJSONWf\<close>: the encoder's
    text is read back, and what is read is well-formed whatever the bytes), \<open>GoFloat\<close>, \<open>GoFloatText\<close>
    (float64 and its text), \<open>GoFS\<close> (files, with a failure per call and power cuts). \<open>Prelude\<close> holds the shared
    vocabulary, Go maps as association lists among it.
  \<^item> \<open>Security\<close>: \<^verbatim>\<open>internal/security\<close>. \<open>Context\<close>: \<^verbatim>\<open>internal/context\<close>. \<open>OAuthCore\<close>:
    \<^verbatim>\<open>internal/oauthcore\<close> (data, metadata, errors, the gate of anonymous requests). \<open>Config\<close>:
    \<^verbatim>\<open>internal/config\<close>. \<open>Observability\<close>: \<^verbatim>\<open>internal/observability\<close> (counters, audit log).
  \<^item> \<open>StoreInterface\<close>: \<^verbatim>\<open>internal/storage/interface.go\<close> as a record of operations and its contract,
    the locale \<open>token_store\<close>; \<open>JSONStore\<close> and \<open>SQLStore\<close> model the two stores and the migration and
    interpret the contract. The database is a parameter; the locale \<open>sql_database\<close> says what the code
    relies on, is interpreted on an executable database, and gives \<open>token_store\<close> as a sublocale.
  \<^item> \<open>Service\<close> (\<^verbatim>\<open>oauthproxy/service.go\<close>), \<open>Handlers\<close> (\<^verbatim>\<open>handlers.go\<close>) and \<open>Proxy\<close> (\<^verbatim>\<open>proxy.go\<close>): every
    operation takes the service record and returns it. Readings of the clock, bytes of the random
    source and the backend are arguments.
  \<^item> \<open>Runtime\<close> (\<^verbatim>\<open>runtime/middleware.go\<close> and the routes of \<^verbatim>\<open>app.go\<close>), \<open>App\<close> (the rest of \<^verbatim>\<open>app.go\<close>,
    \<^verbatim>\<open>httpserver/server.go\<close>, \<^verbatim>\<open>cmd/mcp-runtime/main.go\<close>), \<open>Shutdown\<close> (\<^verbatim>\<open>Run\<close> and the purge goroutine).

  \<^bold>\<open>What is shown.\<close>
  \<^item> \<open>ServiceFacts\<close>: exactly when a code is issued and a token granted, what a refusal is, what a
    sweep removes, the form of outstanding codes, lifetimes and their overflow.
  \<^item> \<open>ServiceRuns\<close>: the service under concurrency. A step is one critical section; every run is a run
    of an abstract grant protocol (a refinement), hence one token per code at most, and an accepted
    token has a proper grant behind it. One interleaving loses a token on disk.
  \<^item> \<open>ServiceStore\<close>, \<open>AppFacts\<close>: over any store that keeps the contract, the live tokens are on disk
    after every operation, and a restart of the program accepts them again.
  \<^item> \<open>HandlersFacts\<close>, \<open>OAuthFlow\<close>: no open redirect, what a client reads from the redirect, what the
    token endpoint answers, and the whole flow from the authorization request to the proxy.
    \<open>Documents\<close>: the JSON answers as a client parses them, discovery and registration.
  \<^item> \<open>ProxyFacts\<close>, \<open>RuntimeFacts\<close>: which request can reach the backend, with which path, headers and
    body; who may send it; what the tool filter lets out; routes and request ids.
  \<^item> \<open>JSONStore\<close>, \<open>SQLStore\<close>: atomic saves under failures and power cuts, round trips, agreement of the
    stores, a migration that loses nothing. \<open>Security\<close>, \<open>OAuthCore\<close>, \<open>Config\<close>, \<open>Observability\<close>: PKCE,
    redirect allowlist, client address, the anonymous gate, the configuration, redaction.

  \<^bold>\<open>Bounds.\<close> Token expiry times are float64 in the program; statements about stores and expiry take
  clocks between 0 and ten to the 15 seconds, where these numbers are exact. Durations are 64-bit
  and wrap. The loop over media-type parameters has its input's length as fuel, which suffices as
  every round consumes a byte. Text that the program checks against the Unicode-aware
  \<^verbatim>\<open>strings.ToLower\<close> is lowered by a function that is exact for ASCII and for the two code points
  whose lower case is ASCII.

  \<^bold>\<open>Not modelled.\<close> The sockets, TLS, \<^verbatim>\<open>http.Server\<close> and \<^verbatim>\<open>http.Transport\<close> (their results are inputs), the
  structured log and what goes to standard output, interim responses and trailers, the Go
  scheduler below the critical sections, the wording of errors that \<^verbatim>\<open>strconv\<close> and \<^verbatim>\<open>net/url\<close>
  append to the program's own, tests, scripts and deployment files. In \<open>ServiceRuns\<close> the audit log
  and the counters are not shared state of interest; in \<open>AppFacts\<close> requests are served one at a time.
\<close>

end
